(* ===== verification/Zlyme_Prelude.thy ===== *)
theory Zlyme_Prelude
  imports Main "HOL-Library.Word" "HOL-Library.Signed_Division" "HOL-Library.Multiset"
begin

text \<open>
  Shared vocabulary of the development: the machine types of the C sources, the integer
  division and clamping facts the drivers need, the array loops that several components use,
  and the transition-system interface through which every stateful component lifts a
  one-step invariant to whole runs.
\<close>

section \<open>Machine types\<close>

type_synonym u8 = "8 word"
type_synonym u16 = "16 word"
type_synonym u32 = "32 word"
type_synonym ulong = "64 word"

named_theorems step_defs \<open>definitions of the operations of the stateful components\<close>
named_theorems inv_defs \<open>definitions of the component invariants\<close>

text \<open>The ranges of the C types \<^verbatim>\<open>int\<close> (s32) and \<^verbatim>\<open>s64\<close> on the arm64 target.\<close>

definition s32_ok :: "int \<Rightarrow> bool" where
  "s32_ok v \<longleftrightarrow> - (2 ^ 31) \<le> v \<and> v < 2 ^ 31"

definition s64_ok :: "int \<Rightarrow> bool" where
  "s64_ok v \<longleftrightarrow> - (2 ^ 63) \<le> v \<and> v < 2 ^ 63"

text \<open>Conversion to \<^verbatim>\<open>int\<close>, and that it keeps every value of the range.\<close>

definition to_s32 :: "int \<Rightarrow> int" where
  "to_s32 v = sint (word_of_int v :: 32 word)"

lemma to_s32_id: "s32_ok v \<Longrightarrow> to_s32 v = v"
  by (simp add: to_s32_def s32_ok_def sint_sbintrunc' signed_take_bit_int_eq_self)

lemma uint_u8_bounds [simp]: "0 \<le> uint (b :: u8)" "uint (b :: u8) \<le> 255" "uint (b :: u8) < 256"
  using uint_lt2p [of b] by simp_all

section \<open>C integer division\<close>

text \<open>C truncates towards zero; \<^verbatim>\<open>sdiv\<close> of the library is that division.\<close>

lemma sdiv_nonneg: "0 \<le> a \<Longrightarrow> 0 < b \<Longrightarrow> a sdiv b = a div b" for a b :: int
  by (simp add: signed_divide_int_def sgn_if)

lemma abs_sdiv_le:
  fixes x n d :: int
  assumes "0 < d" and "0 \<le> n" and "n \<le> d"
  shows "\<bar>(x * n) sdiv d\<bar> \<le> \<bar>x\<bar>"
proof -
  have "\<bar>x * n\<bar> div d \<le> \<bar>x\<bar> * d div d"
    using assms by (intro zdiv_mono1) (auto simp: abs_mult mult_left_mono)
  moreover have "\<bar>(x * n) sdiv d\<bar> = \<bar>x * n\<bar> div d"
    using assms by (auto simp: signed_divide_int_def abs_mult sgn_if pos_imp_zdiv_nonneg_iff)
  ultimately show ?thesis using assms by simp
qed

lemma sdiv_same_sign:
  fixes x n d :: int
  assumes "0 < d" and "0 \<le> n"
  shows "0 \<le> ((x * n) sdiv d) * x"
proof (cases "0 \<le> x")
  case True
  then have "0 \<le> (x * n) sdiv d" using assms by (simp add: sdiv_nonneg pos_imp_zdiv_nonneg_iff)
  with True show ?thesis by simp
next
  case False
  then have "x * n \<le> 0" using assms by (simp add: mult_le_0_iff)
  then have "(x * n) sdiv d = - ((- (x * n)) div d)"
    using assms by (auto simp: signed_divide_int_def sgn_if)
  also have "\<dots> \<le> 0" using assms \<open>x * n \<le> 0\<close> by (simp add: pos_imp_zdiv_nonneg_iff)
  finally show ?thesis using False by (simp add: mult_nonpos_nonpos)
qed

lemma div_bounds:
  fixes a b :: int
  assumes "0 < b"
  shows "a div b * b \<le> a" and "a < (a div b + 1) * b"
proof -
  have "a = a div b * b + a mod b" by simp
  moreover have "0 \<le> a mod b" "a mod b < b" using assms by simp_all
  ultimately show "a div b * b \<le> a" and "a < (a div b + 1) * b"
    unfolding distrib_right mult_1 by linarith+
qed

section \<open>Clamping\<close>

lemma div_mult_mono:
  fixes a b c d :: int
  assumes "a \<le> b" and "0 \<le> c" and "0 < d"
  shows "a * c div d \<le> b * c div d"
  using assms by (intro zdiv_mono1 mult_right_mono) auto

text \<open>An array entry removed by moving the last one into its place.\<close>

lemma butlast_update_mset:
  assumes "i < length ps"
  shows "mset (butlast (ps[i := last ps])) = mset ps - {#ps ! i#}"
proof (cases "i = length ps - 1")
  case True
  with assms show ?thesis by (cases ps rule: rev_cases) auto
next
  case False
  obtain xs x where ps: "ps = xs @ [x]" using assms by (cases ps rule: rev_cases) auto
  with False assms have "i < length xs" by simp
  then show ?thesis by (simp add: ps list_update_append mset_update nth_append)
qed

section \<open>Transition systems\<close>

text \<open>A predicate kept by every step of a run is kept by the run.\<close>

lemma foldl_keeps:
  assumes "\<And>s x. Q s \<Longrightarrow> x \<in> set xs \<Longrightarrow> Q (f s x)" and "Q s"
  shows "Q (foldl f s xs)"
  using assms by (induction xs arbitrary: s) auto

text \<open>
  A component with an event-driven state is a step function, an initial state and an
  invariant; every run from the initial state then satisfies the invariant.
\<close>

locale transition_system =
  fixes step :: "'s \<Rightarrow> 'e \<Rightarrow> 's"
    and start :: "'s"
    and inv :: "'s \<Rightarrow> bool"
  assumes inv_start: "inv start"
    and inv_step: "inv s \<Longrightarrow> inv (step s e)"
begin

lemma inv_run_from: "inv s \<Longrightarrow> inv (foldl step s es)"
  by (induction es arbitrary: s) (auto intro: inv_step)

lemma inv_run: "inv (foldl step start es)"
  by (rule inv_run_from [OF inv_start])

lemma run_preserves:
  assumes "\<And>s e. inv s \<Longrightarrow> P s \<Longrightarrow> P (step s e)" and "P start"
  shows "P (foldl step start es)"
proof -
  have "inv (foldl step s es) \<and> P (foldl step s es)" if "inv s" "P s" for s
    using that by (induction es arbitrary: s) (auto intro: inv_step assms(1))
  then show ?thesis using inv_start assms(2) by blast
qed

end

end
