(* ===== verification/C_Strings.thy ===== *)
theory C_Strings
  imports Zlyme_Prelude "HOL-Library.Sublist"
begin

text \<open>
  C strings as the sources use them: a string is the list of its bytes before the terminating
  NUL, a pointer into it is the suffix it points at. The character classes, decimal
  \<^verbatim>\<open>printf\<close> of integers, \<^verbatim>\<open>strtol\<close> in base 10, and the line loop
  (\<^verbatim>\<open>strchr(p, newline)\<close>, copy, advance) that every configuration parser of the system shares.
\<close>

section \<open>Characters\<close>

abbreviation (input) c_tab :: char where "c_tab \<equiv> CHR 0x09"
abbreviation (input) c_nl :: char where "c_nl \<equiv> CHR 0x0A"
abbreviation (input) c_cr :: char where "c_cr \<equiv> CHR 0x0D"

definition char_val :: "char \<Rightarrow> nat" where
  "char_val c = of_char c"

definition is_digit :: "char \<Rightarrow> bool" where
  "is_digit c \<longleftrightarrow> 48 \<le> char_val c \<and> char_val c \<le> 57"

definition digit_val :: "char \<Rightarrow> nat" where
  "digit_val c = char_val c - 48"

definition is_blank :: "char \<Rightarrow> bool" where
  "is_blank c \<longleftrightarrow> c = CHR '' '' \<or> c = c_tab"

text \<open>\<^verbatim>\<open>isspace\<close> of the C locale.\<close>

definition is_space :: "char \<Rightarrow> bool" where
  "is_space c \<longleftrightarrow> c = CHR '' '' \<or> (9 \<le> char_val c \<and> char_val c \<le> 13)"

text \<open>\<^verbatim>\<open>tolower\<close> of the C locale.\<close>

definition lower :: "char \<Rightarrow> char" where
  "lower c = (if 65 \<le> char_val c \<and> char_val c \<le> 90 then char_of (char_val c + 32) else c)"

section \<open>Decimal numbers\<close>

definition digit_char :: "nat \<Rightarrow> char" where
  "digit_char d = char_of (48 + d)"

text \<open>\<^verbatim>\<open>%u\<close>, and \<^verbatim>\<open>%d\<close> below.\<close>

fun dec :: "nat \<Rightarrow> string" where
  "dec n = (if n < 10 then [digit_char n] else dec (n div 10) @ [digit_char (n mod 10)])"

declare dec.simps [simp del]

definition dec_int :: "int \<Rightarrow> string" where
  "dec_int i = (if i < 0 then ''-'' @ dec (nat (- i)) else dec (nat i))"

definition digits_val :: "string \<Rightarrow> nat" where
  "digits_val ds = foldl (\<lambda>v c. v * 10 + digit_val c) 0 ds"

text \<open>
  \<^verbatim>\<open>strtol(s, &end, 10)\<close>: the value, whether \<open>errno\<close> was set, and the suffix \<open>end\<close> points
  at. Without any digit the value is 0 and \<open>end\<close> is \<open>s\<close>. A value outside the 64-bit range is
  clamped and sets \<open>errno\<close>.
\<close>

definition strtol10 :: "string \<Rightarrow> int \<times> bool \<times> string" where
  "strtol10 s =
     (let s1 = dropWhile is_space s;
          neg = (s1 \<noteq> [] \<and> hd s1 = CHR ''-'');
          s2 = (if s1 \<noteq> [] \<and> (hd s1 = CHR ''-'' \<or> hd s1 = CHR ''+'') then tl s1 else s1);
          ds = takeWhile is_digit s2
      in if ds = [] then (0, False, s)
         else let v = (if neg then - int (digits_val ds) else int (digits_val ds));
                  rest = dropWhile is_digit s2
              in if v < - (2 ^ 63) then (- (2 ^ 63), True, rest)
                 else if v > 2 ^ 63 - 1 then (2 ^ 63 - 1, True, rest)
                 else (v, False, rest))"

section \<open>Lines\<close>

definition line_of :: "string \<Rightarrow> string" where
  "line_of p = takeWhile (\<lambda>c. c \<noteq> c_nl) p"

definition after_line :: "string \<Rightarrow> string" where
  "after_line p = tl (dropWhile (\<lambda>c. c \<noteq> c_nl) p)"

lemma length_after_line: "p \<noteq> [] \<Longrightarrow> length (after_line p) < length p"
proof -
  assume "p \<noteq> []"
  moreover have "length (dropWhile (\<lambda>c. c \<noteq> c_nl) p) \<le> length p" by (rule length_dropWhile_le)
  moreover have "length (after_line p) = length (dropWhile (\<lambda>c. c \<noteq> c_nl) p) - 1"
    by (simp add: after_line_def)
  moreover have "0 < length p" using \<open>p \<noteq> []\<close> by simp
  ultimately show ?thesis by linarith
qed

text \<open>
  The loop \<^verbatim>\<open>while (*p)\<close> over the lines of a text: \<open>step\<close> handles one line and either goes on
  with a new state or leaves the loop.
\<close>

function scan_lines :: "('s \<Rightarrow> string \<Rightarrow> 'e + 's) \<Rightarrow> 's \<Rightarrow> string \<Rightarrow> 'e + 's" where
  "scan_lines step st p =
     (if p = [] then Inr st
      else case step st (line_of p) of Inl e \<Rightarrow> Inl e
           | Inr st' \<Rightarrow> scan_lines step st' (after_line p))"
  by pat_completeness auto
termination
  by (relation "measure (\<lambda>(step, st, p). length p)") (auto simp: length_after_line)

declare scan_lines.simps [simp del]

text \<open>The part of a line before the first \<^verbatim>\<open>=\<close>, and the part after it.\<close>

definition split_eq :: "string \<Rightarrow> (string \<times> string) option" where
  "split_eq line = (if CHR ''='' \<in> set line
     then Some (takeWhile (\<lambda>c. c \<noteq> CHR ''='') line, tl (dropWhile (\<lambda>c. c \<noteq> CHR ''='') line))
     else None)"

section \<open>Facts about decimal numbers\<close>

lemma char_val_char_of: "n < 256 \<Longrightarrow> char_val (char_of n) = n"
  by (simp add: char_val_def)

lemma digit_char_facts:
  assumes "d < 10"
  shows "is_digit (digit_char d)" and "digit_val (digit_char d) = d"
  using assms by (simp_all add: is_digit_def digit_val_def digit_char_def char_val_char_of)

lemma digits_val_snoc [simp]: "digits_val (ds @ [c]) = digits_val ds * 10 + digit_val c"
  and digits_val_Nil [simp]: "digits_val [] = 0"
  by (simp_all add: digits_val_def)

lemma digits_val_dec [simp]: "digits_val (dec n) = n"
proof (induction n rule: dec.induct)
  case (1 n)
  show ?case
    by (subst dec.simps) (use 1 in \<open>auto simp: digits_val_def digit_char_facts\<close>)
qed

lemma dec_digits: "c \<in> set (dec n) \<Longrightarrow> is_digit c"
proof (induction n rule: dec.induct)
  case (1 n)
  then show ?case
    by (subst (asm) (2) dec.simps) (auto simp: digit_char_facts split: if_splits)
qed

lemma dec_not_Nil [simp]: "dec n \<noteq> []" "[] \<noteq> dec n"
  by (subst dec.simps, simp)+

lemma length_dec: "n < 10 ^ k \<Longrightarrow> 0 < k \<Longrightarrow> length (dec n) \<le> k"
proof (induction k arbitrary: n)
  case (Suc k)
  show ?case
  proof (cases "n < 10")
    case True
    then show ?thesis by (subst dec.simps) simp
  next
    case False
    with Suc.prems have "n div 10 < 10 ^ k" and "0 < k" by (auto intro: gr0I)
    then have "length (dec (n div 10)) \<le> k" by (rule Suc.IH)
    with False show ?thesis by (subst dec.simps) simp
  qed
qed simp

lemma is_digit_cases:
  assumes "is_digit c"
  shows "c \<noteq> c_nl" "c \<noteq> c_tab" "c \<noteq> c_cr" "c \<noteq> CHR '' ''" "c \<noteq> CHR ''=''" "c \<noteq> CHR ''-''"
    "c \<noteq> CHR ''+''" "c \<noteq> CHR ''#''" "\<not> is_space c" "\<not> is_blank c"
  using assms by (auto simp: is_digit_def is_space_def is_blank_def char_val_def)

lemmas dec_chars = is_digit_cases [OF dec_digits]

lemma takeWhile_digits_dec [simp]:
  "rest = [] \<or> \<not> is_digit (hd rest) \<Longrightarrow> takeWhile is_digit (dec n @ rest) = dec n"
  "rest = [] \<or> \<not> is_digit (hd rest) \<Longrightarrow> dropWhile is_digit (dec n @ rest) = rest"
  by (cases rest; auto simp: takeWhile_append dropWhile_append dest: dec_digits)+

lemma strtol10_dec:
  assumes "rest = [] \<or> \<not> is_digit (hd rest)" and "n < 2 ^ 63"
  shows "strtol10 (dec n @ rest) = (int n, False, rest)"
proof -
  obtain c cs where d: "dec n = c # cs" by (cases "dec n") auto
  then have "is_digit c" using dec_digits [of c n] by simp
  then have s: "dropWhile is_space (dec n @ rest) = dec n @ rest"
    and h: "hd (dec n @ rest) \<noteq> CHR ''-''" "hd (dec n @ rest) \<noteq> CHR ''+''"
    using d is_digit_cases [of c] by auto
  have "int n < int (2 ^ 63)" using assms(2) by (simp only: of_nat_less_iff)
  then have "\<not> int n > 2 ^ 63 - 1" by simp
  then show ?thesis
    using s h assms(1) by (simp add: strtol10_def Let_def)
qed

lemma strtol10_dec_all: "n < 2 ^ 63 \<Longrightarrow> strtol10 (dec n) = (int n, False, [])"
  using strtol10_dec [of "[]" n] by simp

section \<open>Facts about lines\<close>

lemma line_of_append:
  assumes "c_nl \<notin> set l"
  shows "line_of (l @ c_nl # rest) = l" and "after_line (l @ c_nl # rest) = rest"
  using assms by (auto simp: line_of_def after_line_def takeWhile_append dropWhile_append)

lemma scan_lines_Nil [simp]: "scan_lines step st [] = Inr st"
  by (simp add: scan_lines.simps)

lemma scan_lines_line:
  "c_nl \<notin> set l \<Longrightarrow> scan_lines step st (l @ c_nl # rest) =
     (case step st l of Inl e \<Rightarrow> Inl e | Inr st' \<Rightarrow> scan_lines step st' rest)"
  by (subst scan_lines.simps) (simp add: line_of_append cong: sum.case_cong)

lemma scan_lines_invariant:
  assumes step: "\<And>st l st'. I st \<Longrightarrow> step st l = Inr st' \<Longrightarrow> I st'"
  shows "I st \<Longrightarrow> scan_lines step st p = Inr st' \<Longrightarrow> I st'"
proof (induction p arbitrary: st rule: length_induct)
  case (1 p)
  show ?case
  proof (cases "p = []")
    case False
    then obtain st1 where s1: "step st (line_of p) = Inr st1"
      and s2: "scan_lines step st1 (after_line p) = Inr st'"
      using "1.prems"(2) by (subst (asm) scan_lines.simps) (auto split: sum.splits)
    show ?thesis
      using "1.IH" length_after_line [OF False] step [OF "1.prems"(1) s1] s2 by blast
  qed (use 1 in simp)
qed

lemma split_eq_append [simp]:
  "CHR ''='' \<notin> set k \<Longrightarrow> split_eq (k @ CHR ''='' # v) = Some (k, v)"
  by (auto simp: split_eq_def takeWhile_append dropWhile_append)

text \<open>A text that is a list of complete lines.\<close>

definition lines_text :: "string list \<Rightarrow> string" where
  "lines_text ls = concat (map (\<lambda>l. l @ [c_nl]) ls)"

fun fold_lines :: "('s \<Rightarrow> string \<Rightarrow> 'e + 's) \<Rightarrow> 's \<Rightarrow> string list \<Rightarrow> 'e + 's" where
  "fold_lines step st [] = Inr st"
| "fold_lines step st (l # ls) = (case step st l of Inl e \<Rightarrow> Inl e | Inr st' \<Rightarrow> fold_lines step st' ls)"

lemma scan_lines_text:
  "\<forall>l\<in>set ls. c_nl \<notin> set l \<Longrightarrow> scan_lines step st (lines_text ls) = fold_lines step st ls"
  by (induction ls arbitrary: st) (auto simp: lines_text_def scan_lines_line split: sum.split)

text \<open>A \<^verbatim>\<open>key=number\<close> line.\<close>

definition kv_line :: "string \<Rightarrow> nat \<Rightarrow> string" where
  "kv_line key n = key @ CHR ''='' # dec n"

lemma kv_line_facts:
  assumes "CHR ''='' \<notin> set key" and "c_nl \<notin> set key"
  shows "split_eq (kv_line key n) = Some (key, dec n)" and "c_nl \<notin> set (kv_line key n)"
    and "kv_line key n \<noteq> []"
  using assms dec_chars(1) [of _ n] by (auto simp: kv_line_def)

lemma hd_kv_line: "key \<noteq> [] \<Longrightarrow> hd (kv_line key n) = hd key"
  by (simp add: kv_line_def)

lemma list_all_digits_dec [simp]: "list_all is_digit (dec n)"
  by (auto simp: list_all_iff dec_digits)

section \<open>Reading a file with \<^verbatim>\<open>fgets\<close>\<close>

text \<open>
  The pieces successive calls of \<^verbatim>\<open>fgets\<close> return with a buffer of \<open>n + 2\<close> bytes: up to \<open>n + 1\<close>
  bytes, ending after a newline.
\<close>

function fgets_lines :: "nat \<Rightarrow> string \<Rightarrow> string list" where
  "fgets_lines n s =
     (if s = [] then []
      else let k = Suc (min n (length (line_of s))) in take k s # fgets_lines n (drop k s))"
  by pat_completeness auto
termination
  by (relation "measure (\<lambda>(n, s). length s)") auto

declare fgets_lines.simps [simp del]

lemma fgets_lines_length: "l \<in> set (fgets_lines n s) \<Longrightarrow> l \<noteq> [] \<and> length l \<le> n + 1"
proof (induction n s rule: fgets_lines.induct)
  case (1 n s)
  show ?case
  proof (cases "s = []")
    case False
    have "set (fgets_lines n s) =
        insert (take (Suc (min n (length (line_of s)))) s)
          (set (fgets_lines n (drop (Suc (min n (length (line_of s)))) s)))"
      using False by (subst fgets_lines.simps) (simp add: Let_def)
    with "1.prems" "1.IH" [OF False refl] False show ?thesis by auto
  qed (use "1.prems" in \<open>simp add: fgets_lines.simps\<close>)
qed

section \<open>Copying and cutting\<close>

text \<open>\<^verbatim>\<open>snprintf\<close> of a string into a buffer of \<open>n\<close> bytes.\<close>

definition fit :: "nat \<Rightarrow> string \<Rightarrow> string" where
  "fit n s = take (n - 1) s"

lemma fit_id [simp]: "length s < n \<Longrightarrow> fit n s = s"
  by (simp add: fit_def)

lemma length_fit: "0 < n \<Longrightarrow> length (fit n s) < n"
  by (auto simp: fit_def)

text \<open>\<^verbatim>\<open>strchr\<close> of a separator: the text before it and after it.\<close>

definition cut_at :: "char \<Rightarrow> string \<Rightarrow> (string \<times> string) option" where
  "cut_at c s =
     (if c \<in> set s then Some (takeWhile (\<lambda>x. x \<noteq> c) s, tl (dropWhile (\<lambda>x. x \<noteq> c) s)) else None)"

lemma cut_at_append [simp]: "c \<notin> set a \<Longrightarrow> cut_at c (a @ c # b) = Some (a, b)"
  by (simp add: cut_at_def takeWhile_append dropWhile_append)

lemma cut_at_none [simp]: "c \<notin> set a \<Longrightarrow> cut_at c a = None"
  by (simp add: cut_at_def)

section \<open>Substrings\<close>

text \<open>\<^verbatim>\<open>strstr\<close> as a test.\<close>

definition has_substring :: "string \<Rightarrow> string \<Rightarrow> bool" where
  "has_substring needle hay \<longleftrightarrow> list_ex (prefix needle) (suffixes hay)"

section \<open>Line ends\<close>

text \<open>The loop that drops trailing newlines and carriage returns.\<close>

definition strip_eol :: "string \<Rightarrow> string" where
  "strip_eol line = rev (dropWhile (\<lambda>c. c = c_nl \<or> c = c_cr) (rev line))"

lemma strip_eol_line: "s = [] \<or> last s \<noteq> c_nl \<and> last s \<noteq> c_cr \<Longrightarrow> strip_eol (s @ [c_nl]) = s"
  by (cases s rule: rev_cases) (auto simp: strip_eol_def)

end
