(* ===== verification/Gamepad_Math.thy ===== *)
theory Gamepad_Math
  imports C_Strings
begin

text \<open>
  The arithmetic of the gamepad driver (\<^verbatim>\<open>package/drivers/miyoo-flip-gamepad/src\<close>):
  the median of a sample window, the stability test of a window, the per-axis scaling with its
  deadband, and the scaled radial deadzone. The kernel routines these call are the fields of
  \<open>kernel_api\<close>; the contract the driver relies on is \<open>kernel_ok\<close>.
\<close>

section \<open>Constants and kernel interface\<close>

abbreviation (input) MF_ABS_RANGE :: int where "MF_ABS_RANGE \<equiv> 32767"
abbreviation (input) MF_RAW_DEADBAND :: int where "MF_RAW_DEADBAND \<equiv> 2"
abbreviation (input) MF_BOOT_WINDOW :: nat where "MF_BOOT_WINDOW \<equiv> 31"
abbreviation (input) MF_BOOT_SPREAD :: int where "MF_BOOT_SPREAD \<equiv> 3"
abbreviation (input) MF_BOOT_MATCH :: int where "MF_BOOT_MATCH \<equiv> 2"
abbreviation (input) MF_DZ_MAX_PERCENT :: nat where "MF_DZ_MAX_PERCENT \<equiv> 30"
abbreviation (input) MF_FRAME_LEN :: nat where "MF_FRAME_LEN \<equiv> 6"
abbreviation (input) MF_FRAME_START :: u8 where "MF_FRAME_START \<equiv> 0xff"
abbreviation (input) MF_FRAME_END :: u8 where "MF_FRAME_END \<equiv> 0xfe"

text \<open>
  Routines of the Linux kernel the driver calls: the integer square root and the signed
  64-by-32 division of \<^verbatim>\<open>linux/math.h\<close> and \<^verbatim>\<open>linux/math64.h\<close>, the clock of
  \<^verbatim>\<open>linux/jiffies.h\<close>, and the number parser of \<^verbatim>\<open>linux/kstrtox.h\<close> (base 10, \<open>None\<close> for an error).
\<close>

record kernel_api =
  k_int_sqrt64 :: "int \<Rightarrow> int"
  k_div_s64 :: "int \<Rightarrow> int \<Rightarrow> int"
  k_msecs_to_jiffies :: "nat \<Rightarrow> ulong"
  k_time_before :: "ulong \<Rightarrow> ulong \<Rightarrow> bool"
  k_time_after :: "ulong \<Rightarrow> ulong \<Rightarrow> bool"
  k_kstrtouint :: "string \<Rightarrow> nat option"

text \<open>
  Documented behaviour: \<^verbatim>\<open>int_sqrt64\<close> rounds the root down, \<^verbatim>\<open>div_s64\<close> divides an s64 by a
  nonzero s32 and truncates towards zero.
\<close>

definition kernel_ok :: "kernel_api \<Rightarrow> bool" where
  "kernel_ok K \<longleftrightarrow>
     (\<forall>v. 0 \<le> v \<and> v < 2 ^ 64 \<longrightarrow> 0 \<le> k_int_sqrt64 K v \<and>
        k_int_sqrt64 K v * k_int_sqrt64 K v \<le> v \<and>
        v < (k_int_sqrt64 K v + 1) * (k_int_sqrt64 K v + 1)) \<and>
     (\<forall>a b. s64_ok a \<and> s32_ok b \<and> b \<noteq> 0 \<longrightarrow> k_div_s64 K a b = a sdiv b)"

section \<open>Median and stability of a sample window\<close>

text \<open>The inner loop of the insertion sort: shift larger elements up, then store \<open>v\<close>.\<close>

fun mf_median_shift :: "u8 list \<Rightarrow> nat \<Rightarrow> u8 \<Rightarrow> u8 list" where
  "mf_median_shift tmp 0 v = tmp[0 := v]"
| "mf_median_shift tmp (Suc j) v =
     (if tmp ! j > v then mf_median_shift (tmp[Suc j := tmp ! j]) j v
      else tmp[Suc j := v])"

text \<open>The outer loop, for \<open>i\<close> from its argument up to \<open>n\<close>.\<close>

function mf_median_sort :: "u8 list \<Rightarrow> nat \<Rightarrow> nat \<Rightarrow> u8 list" where
  "mf_median_sort tmp i n =
     (if i < n then mf_median_sort (mf_median_shift tmp i (tmp ! i)) (Suc i) n else tmp)"
  by pat_completeness auto
termination
  by (relation "measure (\<lambda>(tmp, i, n). n - i)") auto

declare mf_median_sort.simps [simp del]

definition mf_median :: "u8 list \<Rightarrow> nat \<Rightarrow> u8" where
  "mf_median src n = mf_median_sort (take n src) 1 n ! (n div 2)"

fun mf_window_lohi :: "u8 list \<Rightarrow> u8 \<Rightarrow> u8 \<Rightarrow> u8 \<times> u8" where
  "mf_window_lohi [] lo hi = (lo, hi)"
| "mf_window_lohi (s # ss) lo hi =
     mf_window_lohi ss (if s < lo then s else lo) (if s > hi then s else hi)"

text \<open>
  \<^verbatim>\<open>hi - lo\<close> is computed in \<open>int\<close> and compared as \<^verbatim>\<open>unsigned int\<close>, so a negative difference
  (an empty window) counts as a large spread.
\<close>

definition mf_window_stable :: "u8 list \<Rightarrow> nat \<Rightarrow> u8 option" where
  "mf_window_stable samples n =
     (let (lo, hi) = mf_window_lohi (take n samples) 255 0
      in if (uint hi - uint lo) mod 2 ^ 32 > MF_BOOT_SPREAD then None
         else Some (mf_median samples n))"

section \<open>Scaling and the radial deadzone\<close>

definition mf_scale_side :: "int \<Rightarrow> int \<Rightarrow> int" where
  "mf_scale_side delta span0 =
     (if delta \<le> MF_RAW_DEADBAND then 0
      else let span = span0 - MF_RAW_DEADBAND
           in if span \<le> 0 then 0
              else let out = ((delta - MF_RAW_DEADBAND) * MF_ABS_RANGE) sdiv span;
                       out = (if out > MF_ABS_RANGE then MF_ABS_RANGE else out)
                   in (if out < 0 then 0 else out))"

text \<open>\<open>mf_scale\<close> reads the three calibration fields of the axis it is given.\<close>

definition mf_scale :: "int \<Rightarrow> int \<Rightarrow> int \<Rightarrow> int \<Rightarrow> int" where
  "mf_scale raw amin runtime_zero amax =
     (if raw \<ge> runtime_zero then mf_scale_side (raw - runtime_zero) (amax - runtime_zero)
      else - mf_scale_side (runtime_zero - raw) (runtime_zero - amin))"

definition mf_clamp_abs :: "int \<Rightarrow> int" where
  "mf_clamp_abs v =
     (let v = (if v > MF_ABS_RANGE then MF_ABS_RANGE else v)
      in if v < - MF_ABS_RANGE then - MF_ABS_RANGE else v)"

definition mf_radial :: "kernel_api \<Rightarrow> int \<Rightarrow> int \<times> int \<Rightarrow> int \<times> int" where
  "mf_radial K pct xy =
     (let (xs, ys) = xy in
      if pct \<le> 0 then xy
      else if xs = 0 \<and> ys = 0 then xy
      else let r = k_int_sqrt64 K (xs * xs + ys * ys) in
        if r = 0 then xy
        else let d = (MF_ABS_RANGE * pct) sdiv 100 in
          if r \<le> d then (0, 0)
          else if r \<ge> MF_ABS_RANGE then xy
          else let num = (r - d) * MF_ABS_RANGE;
                   den = r * (MF_ABS_RANGE - d);
                   ox = to_s32 (k_div_s64 K (xs * num) (to_s32 den));
                   oy = to_s32 (k_div_s64 K (ys * num) (to_s32 den))
               in (mf_clamp_abs ox, mf_clamp_abs oy))"

datatype mf_errno = EINVAL | ERANGE | ENODEV | ENOMEM | EPROBE_DEFER | EIO_OTHER int

text \<open>0 is \<open>None\<close>.\<close>

definition mf_center_in_range :: "int \<Rightarrow> int \<Rightarrow> int \<Rightarrow> mf_errno option" where
  "mf_center_in_range amin zero amax =
     (if amin \<ge> zero \<or> zero \<ge> amax then Some EINVAL
      else if zero - amin \<le> MF_RAW_DEADBAND \<or> amax - zero \<le> MF_RAW_DEADBAND then Some ERANGE
      else None)"

section \<open>The median is the middle of the sorted window\<close>

lemma length_mf_median_shift [simp]: "length (mf_median_shift tmp j v) = length tmp"
  by (induction tmp j v rule: mf_median_shift.induct) auto

lemma insort_snoc_less: "v < y \<Longrightarrow> insort v (xs @ [y]) = insort v xs @ [y]"
  by (induction xs) auto

lemma insort_snoc_ge: "sorted xs \<Longrightarrow> (\<forall>x\<in>set xs. x \<le> v) \<Longrightarrow> insort v xs = xs @ [v]"
proof -
  assume "sorted xs" and "\<forall>x\<in>set xs. x \<le> v"
  then have "sorted (xs @ [v])" by (simp add: sorted_append)
  then have "sort (v # xs) = xs @ [v]" by (intro properties_for_sort) auto
  with \<open>sorted xs\<close> show ?thesis by (simp add: sorted_sort_id)
qed

lemma mf_median_shift_insort:
  "j < length tmp \<Longrightarrow> sorted (take j tmp) \<Longrightarrow>
   mf_median_shift tmp j v = insort v (take j tmp) @ drop (Suc j) tmp"
proof (induction tmp j v rule: mf_median_shift.induct)
  case (1 tmp v)
  then show ?case by (cases tmp) auto
next
  case (2 tmp j v)
  have tk: "take (Suc j) tmp = take j tmp @ [tmp ! j]"
    using "2.prems"(1) by (simp add: take_Suc_conv_app_nth)
  have srt: "sorted (take j tmp)" and le: "\<forall>x\<in>set (take j tmp). x \<le> tmp ! j"
    using "2.prems"(2) by (auto simp: tk sorted_append)
  show ?case
  proof (cases "tmp ! j > v")
    case True
    let ?tmp = "tmp[Suc j := tmp ! j]"
    have "drop (Suc j) ?tmp = tmp ! j # drop (Suc (Suc j)) tmp"
      using "2.prems"(1) by (simp add: drop_update_swap Cons_nth_drop_Suc [symmetric] flip: Cons_nth_drop_Suc)
    with "2.IH" [OF True] "2.prems"(1) srt True show ?thesis
      by (simp add: tk insort_snoc_less)
  next
    case False
    then have "insort v (take (Suc j) tmp) = take (Suc j) tmp @ [v]"
      using "2.prems"(2) le by (intro insort_snoc_ge) (auto simp: tk)
    with False "2.prems"(1) show ?thesis
      by (simp add: upd_conv_take_nth_drop)
  qed
qed

lemma mf_median_sort_sort:
  "i \<le> n \<Longrightarrow> n = length tmp \<Longrightarrow> sorted (take i tmp) \<Longrightarrow> mf_median_sort tmp i n = sort tmp"
proof (induction tmp i n rule: mf_median_sort.induct)
  case (1 tmp i n)
  show ?case
  proof (cases "i < n")
    case True
    let ?t = "mf_median_shift tmp i (tmp ! i)"
    have t: "?t = insort (tmp ! i) (take i tmp) @ drop (Suc i) tmp"
      using 1 True by (intro mf_median_shift_insort) auto
    have "take (Suc i) ?t = insort (tmp ! i) (take i tmp)"
      using 1 True by (simp add: t)
    then have "sorted (take (Suc i) ?t)"
      using "1.prems" by (simp add: sorted_insort)
    then have "mf_median_sort ?t (Suc i) n = sort ?t"
      using 1 True by simp
    moreover have "mset ?t = mset tmp"
    proof -
      have "mset ?t = mset (take i tmp @ tmp ! i # drop (Suc i) tmp)" by (simp add: t)
      then show ?thesis using 1 True by (simp add: id_take_nth_drop [symmetric])
    qed
    then have "sort ?t = sort tmp"
      by (intro properties_for_sort) (simp_all add: mset_sort)
    ultimately show ?thesis
      using True by (simp add: mf_median_sort.simps [of tmp i n])
  next
    case False
    with 1 show ?thesis
      by (subst mf_median_sort.simps) (simp add: sorted_sort_id)
  qed
qed

lemma mf_median_sorted: "1 \<le> n \<Longrightarrow> n \<le> length src \<Longrightarrow> mf_median src n = sort (take n src) ! (n div 2)"
  unfolding mf_median_def
  by (subst mf_median_sort_sort) (auto simp: sorted01)

lemma mf_median_in: "1 \<le> n \<Longrightarrow> n \<le> length src \<Longrightarrow> mf_median src n \<in> set (take n src)"
proof -
  assume n: "1 \<le> n" "n \<le> length src"
  then have "sort (take n src) ! (n div 2) \<in> set (sort (take n src))"
    by (intro nth_mem) simp
  with n show ?thesis by (simp add: mf_median_sorted)
qed

section \<open>A stable window has a small spread\<close>

lemma mf_window_lohi_bounds:
  "mf_window_lohi ss lo hi = (lo', hi') \<Longrightarrow>
   lo' \<le> lo \<and> hi \<le> hi' \<and> (\<forall>s\<in>set ss. lo' \<le> s \<and> s \<le> hi')"
  by (induction ss lo hi rule: mf_window_lohi.induct) (fastforce split: if_splits)+

lemma mf_window_stable_spread:
  assumes "mf_window_stable samples n = Some med" and "1 \<le> n" and "n \<le> length samples"
  shows "med = sort (take n samples) ! (n div 2)"
    and "\<forall>s\<in>set (take n samples). \<bar>uint s - uint med\<bar> \<le> MF_BOOT_SPREAD"
proof -
  obtain lo hi where lh: "mf_window_lohi (take n samples) 255 0 = (lo, hi)"
    by (cases "mf_window_lohi (take n samples) 255 0")
  then have spread: "(uint hi - uint lo) mod 2 ^ 32 \<le> MF_BOOT_SPREAD"
    and med: "med = mf_median samples n"
    using assms(1) by (auto simp: mf_window_stable_def split: if_splits)
  show "med = sort (take n samples) ! (n div 2)"
    using med assms(2,3) by (simp add: mf_median_sorted)
  have mem: "med \<in> set (take n samples)"
    using med assms(2,3) by (simp add: mf_median_in)
  have b: "\<forall>s\<in>set (take n samples). uint lo \<le> uint s \<and> uint s \<le> uint hi"
    using mf_window_lohi_bounds [OF lh] by (simp add: word_le_def)
  then have "0 \<le> uint hi - uint lo" using mem by force
  moreover have "uint hi - uint lo \<le> 255"
    using uint_u8_bounds(2) [of hi] uint_u8_bounds(1) [of lo] by linarith
  ultimately have "uint hi - uint lo \<le> MF_BOOT_SPREAD"
    using spread by (simp add: mod_pos_pos_trivial)
  then have "\<bar>uint s - uint med\<bar> \<le> MF_BOOT_SPREAD" if "s \<in> set (take n samples)" for s
    using bspec [OF b that] bspec [OF b mem] by linarith
  then show "\<forall>s\<in>set (take n samples). \<bar>uint s - uint med\<bar> \<le> MF_BOOT_SPREAD" by blast
qed

section \<open>Scaling\<close>

lemma mf_scale_side_eq:
  assumes "MF_RAW_DEADBAND < delta" and "MF_RAW_DEADBAND < span"
  shows "mf_scale_side delta span =
    min MF_ABS_RANGE ((delta - MF_RAW_DEADBAND) * MF_ABS_RANGE div (span - MF_RAW_DEADBAND))"
proof -
  let ?n = "(delta - 2) * MF_ABS_RANGE" and ?s = "span - 2"
  have "0 \<le> ?n div ?s" and "?n sdiv ?s = ?n div ?s"
    using assms by (auto simp: pos_imp_zdiv_nonneg_iff intro!: sdiv_nonneg)
  then show ?thesis using assms unfolding mf_scale_side_def Let_def min_def by simp
qed

lemma mf_scale_side_range: "0 \<le> mf_scale_side delta span" "mf_scale_side delta span \<le> MF_ABS_RANGE"
  by (auto simp: mf_scale_side_def Let_def)

lemma mf_scale_side_zero: "delta \<le> MF_RAW_DEADBAND \<Longrightarrow> mf_scale_side delta span = 0"
  by (simp add: mf_scale_side_def)

lemma mf_scale_side_full: "MF_RAW_DEADBAND < span \<Longrightarrow> span \<le> delta \<Longrightarrow> mf_scale_side delta span = MF_ABS_RANGE"
proof -
  assume a: "MF_RAW_DEADBAND < span" "span \<le> delta"
  then have "(span - MF_RAW_DEADBAND) * MF_ABS_RANGE div (span - MF_RAW_DEADBAND)
      \<le> (delta - MF_RAW_DEADBAND) * MF_ABS_RANGE div (span - MF_RAW_DEADBAND)"
    by (intro div_mult_mono) auto
  moreover have "(span - 2) * MF_ABS_RANGE div (span - 2) = MF_ABS_RANGE"
    using a by (subst nonzero_mult_div_cancel_left) auto
  ultimately show ?thesis using a by (simp only: mf_scale_side_eq)
qed

lemma mf_scale_side_mono: "a \<le> b \<Longrightarrow> mf_scale_side a span \<le> mf_scale_side b span"
proof (cases "MF_RAW_DEADBAND < a \<and> MF_RAW_DEADBAND < span")
  case True
  assume "a \<le> b"
  with True have "(a - 2) * MF_ABS_RANGE div (span - 2) \<le> (b - 2) * MF_ABS_RANGE div (span - 2)"
    by (intro div_mult_mono) auto
  with True \<open>a \<le> b\<close> show ?thesis by (simp add: mf_scale_side_eq)
next
  case False
  then have "mf_scale_side a span = 0" by (auto simp: mf_scale_side_def)
  then show ?thesis using mf_scale_side_range(1) [of b span] by simp
qed

lemma mf_scale_range: "\<bar>mf_scale raw amin z amax\<bar> \<le> MF_ABS_RANGE"
  using mf_scale_side_range by (auto simp: mf_scale_def abs_le_iff intro: order_trans [of _ 0])

lemma mf_scale_mono: "raw \<le> raw' \<Longrightarrow> mf_scale raw amin z amax \<le> mf_scale raw' amin z amax"
  using mf_scale_side_range(1)
  by (auto simp: mf_scale_def intro!: mf_scale_side_mono intro: order_trans [of _ 0])

lemma mf_center_in_range_None:
  "mf_center_in_range amin z amax = None \<longleftrightarrow> amin + 2 < z \<and> z + 2 < amax"
  by (auto simp: mf_center_in_range_def)

section \<open>The radial deadzone\<close>

lemma mf_clamp_abs_id: "\<bar>v\<bar> \<le> MF_ABS_RANGE \<Longrightarrow> mf_clamp_abs v = v"
  by (auto simp: mf_clamp_abs_def)

lemma mf_clamp_abs_range: "\<bar>mf_clamp_abs v\<bar> \<le> MF_ABS_RANGE"
  by (auto simp: mf_clamp_abs_def Let_def)

text \<open>The deadzone radius \<open>D\<close> and the vector length \<open>r\<close> of the code.\<close>

definition mf_dz_radius :: "int \<Rightarrow> int" where
  "mf_dz_radius pct = (MF_ABS_RANGE * pct) sdiv 100"

lemma mf_dz_radius_bounds: "0 \<le> pct \<Longrightarrow> pct \<le> 30 \<Longrightarrow> 0 \<le> mf_dz_radius pct \<and> mf_dz_radius pct \<le> 9830"
  by (auto simp: mf_dz_radius_def sdiv_nonneg)

text \<open>
  In the region \<open>D < r < M\<close> the numerator never exceeds the denominator, both fit the
  types the code gives them, and no product overflows s64.
\<close>

lemma mf_radial_ratio:
  fixes r d :: int
  assumes "0 \<le> d" and "d < r" and "r < MF_ABS_RANGE"
  shows "0 \<le> (r - d) * MF_ABS_RANGE" and "0 < r * (MF_ABS_RANGE - d)"
    and "(r - d) * MF_ABS_RANGE \<le> r * (MF_ABS_RANGE - d)"
    and "(r - d) * MF_ABS_RANGE \<le> MF_ABS_RANGE * MF_ABS_RANGE"
    and "s32_ok (r * (MF_ABS_RANGE - d))"
proof -
  show "0 \<le> (r - d) * MF_ABS_RANGE" using assms by simp
  show pos: "0 < r * (MF_ABS_RANGE - d)" using assms by (intro mult_pos_pos) auto
  have "d * r \<le> d * MF_ABS_RANGE" using assms by (intro mult_left_mono) auto
  then show "(r - d) * MF_ABS_RANGE \<le> r * (MF_ABS_RANGE - d)" by (simp add: algebra_simps)
  show "(r - d) * MF_ABS_RANGE \<le> MF_ABS_RANGE * MF_ABS_RANGE" using assms by simp
  have "r * (MF_ABS_RANGE - d) \<le> MF_ABS_RANGE * MF_ABS_RANGE" using assms by (intro mult_mono) auto
  with pos show "s32_ok (r * (MF_ABS_RANGE - d))" by (simp add: s32_ok_def)
qed

lemma mf_radial_component:
  fixes x r d :: int
  assumes K: "kernel_ok K" and x: "\<bar>x\<bar> \<le> MF_ABS_RANGE"
    and d: "0 \<le> d" "d < r" "r < MF_ABS_RANGE"
  defines "num \<equiv> (r - d) * MF_ABS_RANGE" and "den \<equiv> r * (MF_ABS_RANGE - d)"
  shows "mf_clamp_abs (to_s32 (k_div_s64 K (x * num) (to_s32 den))) = (x * num) sdiv den"
    and "\<bar>(x * num) sdiv den\<bar> \<le> \<bar>x\<bar>"
proof -
  note ratio = mf_radial_ratio [OF d, folded num_def den_def]
  show small: "\<bar>(x * num) sdiv den\<bar> \<le> \<bar>x\<bar>" using ratio by (intro abs_sdiv_le)
  have "\<bar>x\<bar> * num \<le> MF_ABS_RANGE * (MF_ABS_RANGE * MF_ABS_RANGE)"
    using ratio x by (intro mult_mono) auto
  then have "\<bar>x * num\<bar> \<le> MF_ABS_RANGE * (MF_ABS_RANGE * MF_ABS_RANGE)"
    using ratio by (simp add: abs_mult)
  then have "s64_ok (x * num)" by (simp add: s64_ok_def abs_le_iff)
  then have "k_div_s64 K (x * num) (to_s32 den) = (x * num) sdiv den"
    using K ratio by (simp add: kernel_ok_def to_s32_id)
  moreover have "s32_ok ((x * num) sdiv den)"
    using order_trans [OF small x] unfolding s32_ok_def by (simp add: abs_le_iff)
  ultimately show "mf_clamp_abs (to_s32 (k_div_s64 K (x * num) (to_s32 den))) = (x * num) sdiv den"
    using small x by (simp add: to_s32_id mf_clamp_abs_id)
qed

text \<open>The function with its dead clamps and casts removed.\<close>

definition radial_spec :: "int \<Rightarrow> int \<Rightarrow> int \<times> int \<Rightarrow> int \<times> int" where
  "radial_spec r pct xy =
     (let D = mf_dz_radius pct in
      if pct = 0 then xy
      else if r \<le> D then (0, 0)
      else if r \<ge> MF_ABS_RANGE then xy
      else ((fst xy * ((r - D) * MF_ABS_RANGE)) sdiv (r * (MF_ABS_RANGE - D)),
            (snd xy * ((r - D) * MF_ABS_RANGE)) sdiv (r * (MF_ABS_RANGE - D))))"

lemma mf_radial_spec:
  assumes K: "kernel_ok K" and p: "0 \<le> pct" "pct \<le> 30"
    and x: "\<bar>x\<bar> \<le> MF_ABS_RANGE" and y: "\<bar>y\<bar> \<le> MF_ABS_RANGE"
  shows "mf_radial K pct (x, y) = radial_spec (k_int_sqrt64 K (x * x + y * y)) pct (x, y)"
proof -
  define r where "r = k_int_sqrt64 K (x * x + y * y)"
  define d where "d = mf_dz_radius pct"
  have d: "0 \<le> d" "d \<le> 9830" using mf_dz_radius_bounds [OF p] by (auto simp: d_def)
  have "x * x \<le> MF_ABS_RANGE * MF_ABS_RANGE" "y * y \<le> MF_ABS_RANGE * MF_ABS_RANGE"
    using x y abs_le_square_iff [of x MF_ABS_RANGE] abs_le_square_iff [of y MF_ABS_RANGE]
    by (auto simp: power2_eq_square)
  then have sq: "0 \<le> r \<and> r * r \<le> x * x + y * y \<and> x * x + y * y < (r + 1) * (r + 1)"
    using K unfolding kernel_ok_def r_def by auto
  have r0: "r = 0 \<Longrightarrow> x = 0 \<and> y = 0"
    using sq sum_squares_gt_zero_iff [of x y] by auto
  have z: "x = 0 \<and> y = 0 \<Longrightarrow> r = 0"
    using sq by (auto simp: mult_le_0_iff)
  have rz: "r = 0 \<longleftrightarrow> x = 0 \<and> y = 0" using r0 z by blast
  let ?num = "(r - d) * MF_ABS_RANGE" and ?den = "r * (MF_ABS_RANGE - d)"
  have u: "mf_radial K pct (x, y) = (if pct \<le> 0 then (x, y) else if x = 0 \<and> y = 0 then (x, y)
      else if r = 0 then (x, y) else if r \<le> d then (0, 0) else if MF_ABS_RANGE \<le> r then (x, y)
      else (mf_clamp_abs (to_s32 (k_div_s64 K (x * ?num) (to_s32 ?den))),
            mf_clamp_abs (to_s32 (k_div_s64 K (y * ?num) (to_s32 ?den)))))"
    by (simp only: mf_radial_def r_def d_def mf_dz_radius_def Let_def case_prod_conv)
  have v: "radial_spec r pct (x, y) = (if pct = 0 then (x, y) else if r \<le> d then (0, 0)
      else if MF_ABS_RANGE \<le> r then (x, y)
      else ((x * ?num) sdiv ?den, (y * ?num) sdiv ?den))"
    by (simp only: radial_spec_def d_def Let_def fst_conv snd_conv)
  have "mf_radial K pct (x, y) = radial_spec r pct (x, y)"
  proof (cases "d < r \<and> r < MF_ABS_RANGE")
    case True
    then have "d < r" "r < MF_ABS_RANGE" by auto
    note c = mf_radial_component(1) [OF K x d(1) this] mf_radial_component(1) [OF K y d(1) this]
    show ?thesis unfolding u v c using True p d rz by simp
  next
    case False
    then consider "r \<le> d" | "\<not> r \<le> d" "MF_ABS_RANGE \<le> r" by linarith
    then show ?thesis unfolding u v rz [symmetric] using p d rz by cases (auto simp: rz)
  qed
  then show ?thesis by (simp add: r_def)
qed

lemma isqrt_le_iff:
  fixes r v k :: int
  assumes "0 \<le> r" "r * r \<le> v" "v < (r + 1) * (r + 1)" "0 \<le> k"
  shows "r \<le> k \<longleftrightarrow> v < (k + 1) * (k + 1)" and "k \<le> r \<longleftrightarrow> k * k \<le> v"
proof -
  show "k \<le> r \<longleftrightarrow> k * k \<le> v"
  proof
    assume "k \<le> r"
    then have "k * k \<le> r * r" using assms by (intro mult_mono) auto
    with assms show "k * k \<le> v" by simp
  next
    assume "k * k \<le> v"
    then have "k * k < (r + 1) * (r + 1)" using assms by simp
    then show "k \<le> r" using assms by (smt (verit) mult_mono)
  qed
  show "r \<le> k \<longleftrightarrow> v < (k + 1) * (k + 1)"
  proof
    assume "r \<le> k"
    then have "(r + 1) * (r + 1) \<le> (k + 1) * (k + 1)" using assms by (intro mult_mono) auto
    with assms show "v < (k + 1) * (k + 1)" by simp
  next
    assume "v < (k + 1) * (k + 1)"
    then have "r * r < (k + 1) * (k + 1)" using assms by simp
    then show "r \<le> k" using assms by (smt (verit) mult_mono)
  qed
qed

section \<open>A reference kernel\<close>

text \<open>
  A kernel that satisfies the contract: a digit-by-digit square root, the truncating
  division, one jiffy per millisecond, the signed comparison of clock values and a decimal parser that
  accepts one trailing newline.
\<close>

fun isqrt :: "nat \<Rightarrow> nat" where
  "isqrt n = (if n = 0 then 0
     else let r = 2 * isqrt (n div 4) in if (r + 1) * (r + 1) \<le> n then r + 1 else r)"

declare isqrt.simps [simp del]

lemma isqrt_bounds: "isqrt n * isqrt n \<le> n \<and> n < (isqrt n + 1) * (isqrt n + 1)"
proof (induction n rule: isqrt.induct)
  case (1 n)
  show ?case
  proof (cases "n = 0")
    case True
    then show ?thesis by (subst (1 2 3 4) isqrt.simps) simp
  next
    case False
    let ?q = "isqrt (n div 4)"
    from 1 False have q: "?q * ?q \<le> n div 4" "n div 4 < (?q + 1) * (?q + 1)" by auto
    have up: "n < 4 * ((?q + 1) * (?q + 1))" using q(2) by (simp only: less_mult_imp_div_less div_less_iff_less_mult mult.commute)
    have lo: "4 * (?q * ?q) \<le> n" using q(1) by linarith
    show ?thesis using up lo False
      by (subst (1 2 3 4) isqrt.simps) (simp add: Let_def algebra_simps)
  qed
qed

definition ref_kernel :: kernel_api where
  "ref_kernel = \<lparr>k_int_sqrt64 = (\<lambda>v. int (isqrt (nat v))), k_div_s64 = (sdiv),
     k_msecs_to_jiffies = of_nat,
     k_time_before = (\<lambda>a b. sint (a - b) < 0), k_time_after = (\<lambda>a b. sint (b - a) < 0),
     k_kstrtouint = (\<lambda>s. let ds = takeWhile is_digit s; r = dropWhile is_digit s
        in if ds \<noteq> [] \<and> (r = [] \<or> r = [c_nl]) \<and> digits_val ds < 2 ^ 32 then Some (digits_val ds) else None)\<rparr>"

lemma ref_kernel_ok: "kernel_ok ref_kernel"
proof -
  have "0 \<le> int (isqrt (nat v)) \<and> int (isqrt (nat v)) * int (isqrt (nat v)) \<le> v \<and>
      v < (int (isqrt (nat v)) + 1) * (int (isqrt (nat v)) + 1)" if "0 \<le> v" for v
  proof -
    have "int (isqrt (nat v) * isqrt (nat v)) \<le> int (nat v)"
      and "int (nat v) < int ((isqrt (nat v) + 1) * (isqrt (nat v) + 1))"
      using isqrt_bounds [of "nat v"] by (simp_all only: of_nat_le_iff of_nat_less_iff)
    then show ?thesis using that by (simp add: algebra_simps)
  qed
  then show ?thesis by (simp add: kernel_ok_def ref_kernel_def)
qed

section \<open>Properties\<close>

text \<open>
  A window the driver accepts as stable (\<^verbatim>\<open>mf_window_stable\<close>) has as its
  centre the middle element of the sorted samples, computed by the in-place insertion sort of
  \<^verbatim>\<open>mf_median\<close>, and every sample of the window is within \<open>MF_BOOT_SPREAD\<close> of that centre.
\<close>

theorem mf_window_stable_median:
  assumes "mf_window_stable samples n = Some med" and "1 \<le> n" and "n \<le> length samples"
  shows "med = sort (take n samples) ! (n div 2) \<and>
    (\<forall>s\<in>set (take n samples). \<bar>uint s - uint med\<bar> \<le> 3)"
  using mf_window_stable_spread [OF assms] by blast

theorem mf_window_stable_median_witness:
  "mf_window_stable [101, 99, 100] 3 = Some 100 \<and> (100 :: u8) = sort (take 3 [101, 99, 100]) ! (3 div 2)"
proof -
  have "mf_window_stable [101, 99, 100] 3 = Some 100" by code_simp
  from mf_window_stable_median [OF this] this show ?thesis by simp
qed

text \<open>
  For a centre accepted by \<^verbatim>\<open>mf_center_in_range\<close>, \<^verbatim>\<open>mf_scale\<close> maps the two ends
  of the travel to exactly \<open>-32767\<close> and \<open>32767\<close>, every raw value within the deadband of the
  centre to 0, is monotone in the raw value and never leaves the reported range.
\<close>

theorem mf_scale_correct:
  assumes "mf_center_in_range amin z amax = None"
  shows "mf_scale amin amin z amax = - 32767 \<and> mf_scale amax amin z amax = 32767 \<and>
    (\<forall>raw. \<bar>raw - z\<bar> \<le> 2 \<longrightarrow> mf_scale raw amin z amax = 0) \<and>
    (\<forall>raw raw'. raw \<le> raw' \<longrightarrow> mf_scale raw amin z amax \<le> mf_scale raw' amin z amax) \<and>
    (\<forall>raw. \<bar>mf_scale raw amin z amax\<bar> \<le> 32767)"
proof (intro conjI allI impI)
  have c: "amin + 2 < z" "z + 2 < amax" using assms by (simp_all add: mf_center_in_range_None)
  show "mf_scale amin amin z amax = - 32767" "mf_scale amax amin z amax = 32767"
    using c by (simp_all add: mf_scale_def mf_scale_side_full)
  show "mf_scale raw amin z amax = 0" if "\<bar>raw - z\<bar> \<le> 2" for raw
    using that by (simp add: mf_scale_def mf_scale_side_zero abs_le_iff)
qed (auto intro: mf_scale_mono mf_scale_range)

theorem mf_scale_correct_witness:
  "mf_center_in_range 2 120 239 = None \<and> mf_scale 2 2 120 239 = - 32767 \<and>
   mf_scale 239 2 120 239 = 32767"
proof -
  have "mf_center_in_range 2 120 239 = None" by (simp add: mf_center_in_range_def)
  from mf_scale_correct [OF this] this show ?thesis by blast
qed

text \<open>
  C5 (functional). The radial deadzone of \<^verbatim>\<open>mf_radial\<close>: a vector whose length is at most the
  deadzone radius becomes the origin, a vector at or beyond full scale is unchanged, no
  component is ever amplified or changes its sign, and a zero percentage is the identity. The
  intermediate products fit s64 and the divisor fits s32, so neither a cast nor a clamp of the
  code changes a value.
\<close>

theorem mf_radial_correct:
  assumes K: "kernel_ok K" and p: "0 \<le> pct" "pct \<le> 30"
    and x: "\<bar>x\<bar> \<le> 32767" and y: "\<bar>y\<bar> \<le> 32767"
    and out: "mf_radial K pct (x, y) = (ox, oy)"
  shows "\<bar>ox\<bar> \<le> \<bar>x\<bar> \<and> \<bar>oy\<bar> \<le> \<bar>y\<bar> \<and> 0 \<le> ox * x \<and> 0 \<le> oy * y \<and>
    (pct = 0 \<longrightarrow> (ox, oy) = (x, y)) \<and>
    (0 < pct \<and> x * x + y * y < (mf_dz_radius pct + 1) * (mf_dz_radius pct + 1) \<longrightarrow> (ox, oy) = (0, 0)) \<and>
    (32767 * 32767 \<le> x * x + y * y \<longrightarrow> (ox, oy) = (x, y))"
proof -
  define r where "r = k_int_sqrt64 K (x * x + y * y)"
  define D where "D = mf_dz_radius pct"
  have D: "0 \<le> D" "D \<le> 9830" using mf_dz_radius_bounds [OF p] by (auto simp: D_def)
  have "x * x \<le> 32767 * 32767" "y * y \<le> 32767 * 32767"
    using x y abs_le_square_iff [of x 32767] abs_le_square_iff [of y 32767]
    by (auto simp: power2_eq_square)
  then have "0 \<le> r" "r * r \<le> x * x + y * y" "x * x + y * y < (r + 1) * (r + 1)"
    using K unfolding kernel_ok_def r_def by auto
  note len = isqrt_le_iff [OF this]
  have rD: "x * x + y * y < (D + 1) * (D + 1) \<longleftrightarrow> r \<le> D" using len(1) D by simp
  have rM: "32767 * 32767 \<le> x * x + y * y \<longleftrightarrow> 32767 \<le> r" using len(2) [of 32767] by simp
  have spec: "radial_spec r pct (x, y) = (ox, oy)"
    using out mf_radial_spec [OF K p x y] by (simp add: r_def)
  let ?num = "(r - D) * 32767" and ?den = "r * (32767 - D)"
  consider (id) "(ox, oy) = (x, y)" "pct = 0 \<or> 32767 \<le> r" "pct = 0 \<or> D < r"
    | (zero) "(ox, oy) = (0, 0)" "r \<le> D" "pct \<noteq> 0"
    | (mid) "ox = (x * ?num) sdiv ?den" "oy = (y * ?num) sdiv ?den" "D < r" "r < 32767" "pct \<noteq> 0"
    using spec by (auto simp: radial_spec_def Let_def simp flip: D_def split: if_splits)
  then show ?thesis
  proof cases
    case mid
    note c = mf_radial_component(2) [OF K x D(1) mid(3,4)] mf_radial_component(2) [OF K y D(1) mid(3,4)]
    have "0 \<le> ox * x" "0 \<le> oy * y"
      unfolding mid(1,2) by (rule sdiv_same_sign [OF mf_radial_ratio(2,1) [OF D(1) mid(3,4)]])+
    with c mid rD rM show ?thesis by (simp flip: D_def)
  qed (use rD rM D in \<open>auto simp flip: D_def\<close>)
qed

theorem mf_radial_correct_witness:
  "mf_radial ref_kernel 10 (6000, 8000) = (4482, 5976) \<and> (4482 :: int) \<le> 6000 \<and> (5976 :: int) \<le> 8000"
proof -
  have "mf_radial ref_kernel 10 (6000, 8000) = (4482, 5976)"
    by (simp add: mf_radial_def ref_kernel_def isqrt.simps signed_divide_int_def to_s32_def
        mf_clamp_abs_def)
  from mf_radial_correct [OF ref_kernel_ok _ _ _ _ this] this show ?thesis by simp
qed

end
