(* ===== verification/Gamepad_Pad.thy ===== *)
theory Gamepad_Pad
  imports Gamepad_Math
begin

text \<open>
  The state and the event handlers of the gamepad driver
  (\<^verbatim>\<open>package/drivers/miyoo-flip-gamepad/src/miyoo-flip-gamepad.c\<close>): the UART frame decoder,
  the boot-centre acquisition, the reports to the input core, the calibration and deadzone
  attributes, the rumble worker, the buttons and the power-management hooks. One definition per C function;
  \<open>pad_inv\<close> is the invariant every handler keeps.
\<close>

section \<open>State\<close>

datatype mf_boot_state = MF_BOOT_WAIT | MF_BOOT_SETTLE | MF_BOOT_COLLECT | MF_BOOT_CONFIRM
  | MF_BOOT_ACCEPTED | MF_BOOT_TIMEOUT | MF_BOOT_CANCELLED | MF_BOOT_RANGE_REJECTED

datatype mf_zero_source = MF_ZERO_DEFAULT | MF_ZERO_PERSISTED | MF_ZERO_BOOT | MF_ZERO_APPLY

datatype mf_settle_phase = MF_SETTLE_WAIT | MF_SETTLE_HW | MF_SETTLE_RUN | MF_SETTLE_DONE

datatype mf_axis_id = MF_XL | MF_YL | MF_XR | MF_YR

text \<open>The codes of the input core the driver names, and the events it reports.\<close>

datatype abs_code = ABS_X | ABS_Y | ABS_RX | ABS_RY

datatype input_event = EvAbs abs_code int | EvKey nat int | EvSyn

record mf_axis =
  ax_min :: int
  saved_zero :: int
  runtime_zero :: int
  ax_max :: int
  ax_code :: abs_code
  latest :: u8
  seen_min :: u8
  seen_max :: u8
  seen_valid :: bool
  samples :: "u8 list"
  ax_n :: nat
  candidate :: int
  boot_state :: mf_boot_state
  zero_source :: mf_zero_source
  settled :: bool
  accepted :: bool
  attempts :: nat

record mf_pad =
  reports :: "input_event list"
  axis :: "mf_axis_id \<Rightarrow> mf_axis"
  last_abs :: "mf_axis_id \<Rightarrow> int"
  deadzone_left :: nat
  deadzone_right :: nat
  frame :: "u8 list"
  frame_len :: nat
  boot_first_jiffies :: ulong
  boot_collect_jiffies :: ulong
  boot_started :: bool
  settle_phase :: mf_settle_phase
  valid_frames :: u32
  bad_frames :: u32
  rx_bytes :: u32
  port_open :: bool
  open_errno :: "mf_errno option"

definition mf_axes :: "mf_axis_id list" where
  "mf_axes = [MF_XL, MF_YL, MF_XR, MF_YR]"

text \<open>\<^verbatim>\<open>devm_kzalloc\<close> zeroes the structure before \<open>mf_axis_defaults\<close> fills part of it.\<close>

definition mf_axis_zero :: mf_axis where
  "mf_axis_zero = \<lparr>ax_min = 0, saved_zero = 0, runtime_zero = 0, ax_max = 0, ax_code = ABS_X,
     latest = 0, seen_min = 0, seen_max = 0, seen_valid = False, samples = replicate MF_BOOT_WINDOW 0,
     ax_n = 0, candidate = 0, boot_state = MF_BOOT_WAIT, zero_source = MF_ZERO_DEFAULT,
     settled = False, accepted = False, attempts = 0\<rparr>"

definition mf_axis_defaults :: "mf_axis \<Rightarrow> abs_code \<Rightarrow> mf_axis" where
  "mf_axis_defaults ax code = ax\<lparr>ax_min := 0, saved_zero := 128, runtime_zero := 128, ax_max := 255,
     ax_code := code, latest := 128, candidate := - 1, boot_state := MF_BOOT_WAIT,
     zero_source := MF_ZERO_DEFAULT\<rparr>"

section \<open>Reporting\<close>

definition report :: "input_event \<Rightarrow> mf_pad \<Rightarrow> mf_pad" where
  "report e pad = pad\<lparr>reports := reports pad @ [e]\<rparr>"

definition mf_scale_axis :: "mf_axis \<Rightarrow> int" where
  "mf_scale_axis ax = mf_scale (uint (latest ax)) (ax_min ax) (runtime_zero ax) (ax_max ax)"

definition mf_emit_stick :: "kernel_api \<Rightarrow> mf_pad \<Rightarrow> mf_axis_id \<Rightarrow> mf_axis_id \<Rightarrow> nat \<Rightarrow> mf_pad" where
  "mf_emit_stick K pad x_id y_id pct =
     (let (x, y) = mf_radial K (int pct)
            (mf_scale_axis (axis pad x_id), mf_scale_axis (axis pad y_id));
          pad = pad\<lparr>last_abs := (last_abs pad)(x_id := x, y_id := y)\<rparr>
      in report (EvAbs (ax_code (axis pad y_id)) y) (report (EvAbs (ax_code (axis pad x_id)) x) pad))"

definition mf_report_axes :: "kernel_api \<Rightarrow> mf_pad \<Rightarrow> (mf_axis_id \<Rightarrow> u8) \<Rightarrow> mf_pad" where
  "mf_report_axes K pad raw =
     (let pad = pad\<lparr>axis := (\<lambda>i. (axis pad i)\<lparr>latest := raw i\<rparr>)\<rparr>;
          pad = mf_emit_stick K pad MF_XL MF_YL (deadzone_left pad);
          pad = mf_emit_stick K pad MF_XR MF_YR (deadzone_right pad)
      in report EvSyn pad)"

section \<open>Boot-centre acquisition\<close>

definition mf_note_seen :: "mf_axis \<Rightarrow> u8 \<Rightarrow> mf_axis" where
  "mf_note_seen ax raw =
     (let ax = ax\<lparr>latest := raw\<rparr> in
      if \<not> seen_valid ax then ax\<lparr>seen_min := raw, seen_max := raw, seen_valid := True\<rparr>
      else let ax = (if raw < seen_min ax then ax\<lparr>seen_min := raw\<rparr> else ax)
           in if raw > seen_max ax then ax\<lparr>seen_max := raw\<rparr> else ax)"

definition mf_boot_finished :: "mf_boot_state \<Rightarrow> bool" where
  "mf_boot_finished st \<longleftrightarrow> st = MF_BOOT_ACCEPTED \<or> st = MF_BOOT_TIMEOUT \<or>
     st = MF_BOOT_CANCELLED \<or> st = MF_BOOT_RANGE_REJECTED"

text \<open>The body of the collecting loop of \<^verbatim>\<open>mf_boot_note\<close>, for one axis that is not finished
  and whose budget is not used up: store the sample, and judge a full window.\<close>

definition mf_boot_sample :: "mf_axis \<Rightarrow> u8 \<Rightarrow> mf_axis" where
  "mf_boot_sample ax raw =
     (let ax = ax\<lparr>samples := (samples ax)[ax_n ax := raw], ax_n := Suc (ax_n ax)\<rparr> in
      if ax_n ax < MF_BOOT_WINDOW then ax
      else let ax = ax\<lparr>ax_n := 0, attempts := Suc (attempts ax)\<rparr> in
        case mf_window_stable (samples ax) MF_BOOT_WINDOW of
          None \<Rightarrow> ax\<lparr>candidate := - 1, boot_state := MF_BOOT_COLLECT\<rparr>
        | Some med \<Rightarrow>
            if boot_state ax \<noteq> MF_BOOT_CONFIRM
            then ax\<lparr>candidate := uint med, boot_state := MF_BOOT_CONFIRM\<rparr>
            else if \<bar>uint med - candidate ax\<bar> \<le> MF_BOOT_MATCH
            then (if mf_center_in_range (ax_min ax) (uint med) (ax_max ax) \<noteq> None
                  then ax\<lparr>settled := True, accepted := False, boot_state := MF_BOOT_RANGE_REJECTED\<rparr>
                  else ax\<lparr>runtime_zero := uint med, zero_source := MF_ZERO_BOOT, accepted := True,
                          settled := True, boot_state := MF_BOOT_ACCEPTED\<rparr>)
            else ax\<lparr>candidate := - 1, boot_state := MF_BOOT_COLLECT\<rparr>)"

definition mf_boot_axis :: "bool \<Rightarrow> mf_axis \<Rightarrow> u8 \<Rightarrow> mf_axis" where
  "mf_boot_axis over_budget ax raw =
     (if mf_boot_finished (boot_state ax) then ax
      else if over_budget
      then ax\<lparr>boot_state := MF_BOOT_TIMEOUT, settled := True, accepted := False\<rparr>
      else mf_boot_sample ax raw)"

text \<open>Each loop over the axes touches the axis of its index only, so it is a pointwise update.
  The blocks of \<^verbatim>\<open>mf_boot_note\<close>: the first frame, the end of the settling time, the collecting loop.\<close>

definition mf_boot_begin :: "ulong \<Rightarrow> mf_pad \<Rightarrow> mf_pad" where
  "mf_boot_begin now pad =
     pad\<lparr>boot_started := True, boot_first_jiffies := now, settle_phase := MF_SETTLE_HW,
         axis := (\<lambda>i. if zero_source (axis pad i) = MF_ZERO_APPLY then axis pad i
                       else (axis pad i)\<lparr>boot_state := MF_BOOT_SETTLE\<rparr>)\<rparr>"

definition mf_boot_run :: "ulong \<Rightarrow> mf_pad \<Rightarrow> mf_pad" where
  "mf_boot_run now pad =
     pad\<lparr>boot_collect_jiffies := now, settle_phase := MF_SETTLE_RUN,
         axis := (\<lambda>i. if boot_state (axis pad i) = MF_BOOT_SETTLE
                       then (axis pad i)\<lparr>boot_state := MF_BOOT_COLLECT, ax_n := 0\<rparr>
                       else axis pad i)\<rparr>"

definition mf_boot_collect :: "bool \<Rightarrow> mf_pad \<Rightarrow> (mf_axis_id \<Rightarrow> u8) \<Rightarrow> mf_pad" where
  "mf_boot_collect over pad raw =
     (let pad = pad\<lparr>axis := (\<lambda>i. mf_boot_axis over (axis pad i) (raw i))\<rparr>
      in if list_all (\<lambda>i. mf_boot_finished (boot_state (axis pad i))) mf_axes
         then pad\<lparr>settle_phase := MF_SETTLE_DONE\<rparr> else pad)"

definition mf_boot_note :: "kernel_api \<Rightarrow> ulong \<Rightarrow> mf_pad \<Rightarrow> (mf_axis_id \<Rightarrow> u8) \<Rightarrow> mf_pad" where
  "mf_boot_note K now pad raw =
     (let settle = k_msecs_to_jiffies K 1500;
          budget = k_msecs_to_jiffies K 6000;
          pad = pad\<lparr>axis := (\<lambda>i. mf_note_seen (axis pad i) (raw i))\<rparr>;
          pad = (if boot_started pad then pad else mf_boot_begin now pad)
      in if settle_phase pad = MF_SETTLE_HW \<and> k_time_before K now (boot_first_jiffies pad + settle) then pad
         else let pad = (if settle_phase pad = MF_SETTLE_HW then mf_boot_run now pad else pad)
         in if settle_phase pad \<noteq> MF_SETTLE_RUN then pad
            else mf_boot_collect (k_time_after K now (boot_collect_jiffies pad + budget)) pad raw)"

section \<open>The UART frame decoder\<close>

fun find_start :: "u8 list \<Rightarrow> nat \<Rightarrow> nat option" where
  "find_start [] i = None"
| "find_start (b # bs) i = (if b = MF_FRAME_START then Some i else find_start bs (Suc i))"

definition mf_raw_of_frame :: "u8 list \<Rightarrow> mf_axis_id \<Rightarrow> u8" where
  "mf_raw_of_frame fr i = (case i of MF_XL \<Rightarrow> fr ! 2 | MF_YL \<Rightarrow> fr ! 1 | MF_XR \<Rightarrow> fr ! 4 | MF_YR \<Rightarrow> fr ! 3)"

definition mf_feed :: "kernel_api \<Rightarrow> ulong \<Rightarrow> mf_pad \<Rightarrow> u8 \<Rightarrow> mf_pad" where
  "mf_feed K now pad byte =
     (let pad = pad\<lparr>rx_bytes := rx_bytes pad + 1\<rparr> in
      if frame_len pad = 0
      then (if byte = MF_FRAME_START
            then pad\<lparr>frame := (frame pad)[frame_len pad := byte], frame_len := Suc (frame_len pad)\<rparr>
            else pad)
      else let pad = pad\<lparr>frame := (frame pad)[frame_len pad := byte], frame_len := Suc (frame_len pad)\<rparr> in
        if frame_len pad < MF_FRAME_LEN then pad
        else if frame pad ! (MF_FRAME_LEN - 1) = MF_FRAME_END
        then let pad = pad\<lparr>valid_frames := valid_frames pad + 1\<rparr>;
                 raw = mf_raw_of_frame (frame pad);
                 pad = mf_boot_note K now pad raw;
                 pad = mf_report_axes K pad raw
             in pad\<lparr>frame_len := 0\<rparr>
        else let pad = pad\<lparr>bad_frames := bad_frames pad + 1\<rparr> in
          case find_start (tl (frame pad)) 1 of
            None \<Rightarrow> pad\<lparr>frame_len := 0\<rparr>
          | Some start \<Rightarrow>
              pad\<lparr>frame := drop start (frame pad) @ drop (MF_FRAME_LEN - start) (frame pad),
                  frame_len := MF_FRAME_LEN - start\<rparr>)"

text \<open>Each byte of the buffer comes with the value of \<^verbatim>\<open>jiffies\<close> when it is handled.\<close>

definition mf_receive :: "kernel_api \<Rightarrow> mf_pad \<Rightarrow> (u8 \<times> ulong) list \<Rightarrow> nat \<times> mf_pad" where
  "mf_receive K pad buf =
     (if \<not> port_open pad then (length buf, pad)
      else (length buf, foldl (\<lambda>pad (b, now). mf_feed K now pad b) pad buf))"

section \<open>Opening and closing the port\<close>

text \<open>
  The result of \<^verbatim>\<open>serdev_device_open\<close> is an input. The baud rate and parity calls only log.
  \<open>mf_port_close\<close> also returns whether \<^verbatim>\<open>serdev_device_close\<close> is called.
\<close>

definition mf_port_open :: "mf_pad \<Rightarrow> mf_errno option \<Rightarrow> mf_errno option \<times> mf_pad" where
  "mf_port_open pad ret =
     (case ret of Some e \<Rightarrow> (Some e, pad\<lparr>open_errno := Some e\<rparr>)
      | None \<Rightarrow> (None, pad\<lparr>frame_len := 0, port_open := True, open_errno := None\<rparr>))"

definition mf_port_close :: "mf_pad \<Rightarrow> bool \<times> mf_pad" where
  "mf_port_close pad = (port_open pad, pad\<lparr>port_open := False, frame_len := 0\<rparr>)"

section \<open>Calibration attributes\<close>

definition mf_boot_word :: "mf_boot_state \<Rightarrow> string" where
  "mf_boot_word st = (case st of MF_BOOT_WAIT \<Rightarrow> ''wait'' | MF_BOOT_SETTLE \<Rightarrow> ''settling''
     | MF_BOOT_COLLECT \<Rightarrow> ''collecting'' | MF_BOOT_CONFIRM \<Rightarrow> ''confirm'' | MF_BOOT_ACCEPTED \<Rightarrow> ''accepted''
     | MF_BOOT_TIMEOUT \<Rightarrow> ''timeout'' | MF_BOOT_CANCELLED \<Rightarrow> ''cancelled''
     | MF_BOOT_RANGE_REJECTED \<Rightarrow> ''range-rejected'')"

definition mf_zero_word :: "mf_zero_source \<Rightarrow> string" where
  "mf_zero_word src = (case src of MF_ZERO_DEFAULT \<Rightarrow> ''default'' | MF_ZERO_PERSISTED \<Rightarrow> ''persisted''
     | MF_ZERO_BOOT \<Rightarrow> ''boot'' | MF_ZERO_APPLY \<Rightarrow> ''apply'')"

definition mf_settle_word :: "mf_settle_phase \<Rightarrow> string" where
  "mf_settle_word ph = (case ph of MF_SETTLE_WAIT \<Rightarrow> ''wait'' | MF_SETTLE_HW \<Rightarrow> ''settling''
     | MF_SETTLE_RUN \<Rightarrow> ''collecting'' | MF_SETTLE_DONE \<Rightarrow> ''done'')"

definition raw_axes_show :: "mf_pad \<Rightarrow> string" where
  "raw_axes_show pad =
     ''YL='' @ dec (unat (latest (axis pad MF_YL))) @ '' XL='' @ dec (unat (latest (axis pad MF_XL))) @
     '' YR='' @ dec (unat (latest (axis pad MF_YR))) @ '' XR='' @ dec (unat (latest (axis pad MF_XR))) @ [c_nl]"

fun mf_token_digits :: "string \<Rightarrow> nat \<Rightarrow> nat \<Rightarrow> (nat \<times> string) option" where
  "mf_token_digits [] digits v = Some (v, [])"
| "mf_token_digits (c # s) digits v =
     (if \<not> is_digit c then Some (v, c # s)
      else if Suc digits > 3 then None
      else let v = v * 10 + digit_val c in if v > 255 then None else mf_token_digits s (Suc digits) v)"

definition mf_token_u8 :: "string \<Rightarrow> (int \<times> string) option" where
  "mf_token_u8 pp =
     (let s = dropWhile is_blank pp in
      if s = [] \<or> \<not> is_digit (hd s) then None
      else map_option (\<lambda>(v, rest). (int v, rest)) (mf_token_digits s 0 0))"

definition mf_preflight_axis :: "mf_axis \<Rightarrow> bool \<Rightarrow> int \<Rightarrow> int \<Rightarrow> int \<Rightarrow> mf_errno option" where
  "mf_preflight_axis ax is_apply amin zero amax =
     (if \<not> is_apply \<and> (zero_source ax = MF_ZERO_BOOT \<or> zero_source ax = MF_ZERO_APPLY)
      then mf_center_in_range amin (runtime_zero ax) amax else None)"

definition is_ws :: "char \<Rightarrow> bool" where
  "is_ws c \<longleftrightarrow> c = CHR '' '' \<or> c = c_tab \<or> c = c_nl \<or> c = c_cr"

record cal_req =
  rq_apply :: bool
  rq_xmin :: int
  rq_xzero :: int
  rq_xmax :: int
  rq_ymin :: int
  rq_yzero :: int
  rq_ymax :: int

text \<open>The six numbers of a calibration line; the errors of all tokens are the same \<open>EINVAL\<close>.\<close>

definition mf_six_tokens :: "string \<Rightarrow> ((int \<times> int \<times> int \<times> int \<times> int \<times> int) \<times> string) option" where
  "mf_six_tokens s =
     Option.bind (mf_token_u8 s) (\<lambda>(a, s).
     Option.bind (mf_token_u8 s) (\<lambda>(b, s).
     Option.bind (mf_token_u8 s) (\<lambda>(c, s).
     Option.bind (mf_token_u8 s) (\<lambda>(d, s).
     Option.bind (mf_token_u8 s) (\<lambda>(e, s).
     Option.bind (mf_token_u8 s) (\<lambda>(f, s). Some ((a, b, c, d, e, f), s)))))))"

definition mf_parse_cal :: "string \<Rightarrow> mf_errno + cal_req" where
  "mf_parse_cal buf =
     (let s = dropWhile is_ws buf;
          cmd = takeWhile (\<lambda>c. \<not> is_ws c) s;
          s = dropWhile (\<lambda>c. \<not> is_ws c) s
      in if length cmd > 15 then Inl EINVAL
         else if cmd \<noteq> ''restore'' \<and> cmd \<noteq> ''apply'' then Inl EINVAL
         else case mf_six_tokens s of None \<Rightarrow> Inl EINVAL
           | Some ((xmin, xzero, xmax, ymin, yzero, ymax), s) \<Rightarrow>
               if dropWhile is_ws s \<noteq> [] then Inl EINVAL
               else if mf_center_in_range xmin xzero xmax \<noteq> None \<or> mf_center_in_range ymin yzero ymax \<noteq> None
               then Inl EINVAL
               else Inr \<lparr>rq_apply = (cmd = ''apply''), rq_xmin = xmin, rq_xzero = xzero, rq_xmax = xmax,
                         rq_ymin = ymin, rq_yzero = yzero, rq_ymax = ymax\<rparr>)"

definition mf_install_axis :: "mf_axis \<Rightarrow> int \<Rightarrow> int \<Rightarrow> int \<Rightarrow> bool \<Rightarrow> mf_axis" where
  "mf_install_axis ax amin zero amax is_apply =
     (let ax = ax\<lparr>ax_min := amin, saved_zero := zero, ax_max := amax\<rparr> in
      if is_apply
      then (let ax = ax\<lparr>runtime_zero := zero, zero_source := MF_ZERO_APPLY\<rparr> in
            if \<not> mf_boot_finished (boot_state ax) then ax\<lparr>boot_state := MF_BOOT_CANCELLED\<rparr> else ax)
      else if zero_source ax = MF_ZERO_DEFAULT \<or> zero_source ax = MF_ZERO_PERSISTED
      then ax\<lparr>runtime_zero := zero, zero_source := MF_ZERO_PERSISTED\<rparr>
      else ax)"

definition mf_publish_stick :: "kernel_api \<Rightarrow> mf_pad \<Rightarrow> mf_axis_id \<Rightarrow> mf_axis_id \<Rightarrow> mf_pad" where
  "mf_publish_stick K pad x_id y_id =
     (let pct = (if x_id = MF_XL then deadzone_left pad else deadzone_right pad)
      in report EvSyn (mf_emit_stick K pad x_id y_id pct))"

definition mf_cal_show :: "mf_pad \<Rightarrow> mf_axis_id \<Rightarrow> mf_axis_id \<Rightarrow> string" where
  "mf_cal_show pad x_id y_id =
     (let x = axis pad x_id; y = axis pad y_id in
      ''x_min='' @ dec_int (ax_min x) @ [c_nl] @
      ''x_saved_zero='' @ dec_int (saved_zero x) @ [c_nl] @
      ''x_runtime_zero='' @ dec_int (runtime_zero x) @ [c_nl] @
      ''x_max='' @ dec_int (ax_max x) @ [c_nl] @
      ''x_source='' @ mf_zero_word (zero_source x) @ [c_nl] @
      ''y_min='' @ dec_int (ax_min y) @ [c_nl] @
      ''y_saved_zero='' @ dec_int (saved_zero y) @ [c_nl] @
      ''y_runtime_zero='' @ dec_int (runtime_zero y) @ [c_nl] @
      ''y_max='' @ dec_int (ax_max y) @ [c_nl] @
      ''y_source='' @ mf_zero_word (zero_source y) @ [c_nl])"

definition mf_cal_store :: "kernel_api \<Rightarrow> mf_pad \<Rightarrow> mf_axis_id \<Rightarrow> mf_axis_id \<Rightarrow> string \<Rightarrow>
    (mf_errno + nat) \<times> mf_pad" where
  "mf_cal_store K pad x_id y_id buf =
     (case mf_parse_cal buf of Inl e \<Rightarrow> (Inl EINVAL, pad)
      | Inr rq \<Rightarrow>
        if mf_preflight_axis (axis pad x_id) (rq_apply rq) (rq_xmin rq) (rq_xzero rq) (rq_xmax rq) \<noteq> None \<or>
           mf_preflight_axis (axis pad y_id) (rq_apply rq) (rq_ymin rq) (rq_yzero rq) (rq_ymax rq) \<noteq> None
        then (Inl ERANGE, pad)
        else let pad = pad\<lparr>axis := (axis pad)(x_id := mf_install_axis (axis pad x_id)
                          (rq_xmin rq) (rq_xzero rq) (rq_xmax rq) (rq_apply rq))\<rparr>;
                 pad = pad\<lparr>axis := (axis pad)(y_id := mf_install_axis (axis pad y_id)
                          (rq_ymin rq) (rq_yzero rq) (rq_ymax rq) (rq_apply rq))\<rparr>;
                 pad = (if boot_started pad \<and> list_all (\<lambda>i. mf_boot_finished (boot_state (axis pad i))) mf_axes
                        then pad\<lparr>settle_phase := MF_SETTLE_DONE\<rparr> else pad)
             in (Inr (length buf), mf_publish_stick K pad x_id y_id))"

definition calibration_left_show :: "mf_pad \<Rightarrow> string" where
  "calibration_left_show pad = mf_cal_show pad MF_XL MF_YL"

definition calibration_left_store :: "kernel_api \<Rightarrow> mf_pad \<Rightarrow> string \<Rightarrow> (mf_errno + nat) \<times> mf_pad" where
  "calibration_left_store K pad buf = mf_cal_store K pad MF_XL MF_YL buf"

definition calibration_right_show :: "mf_pad \<Rightarrow> string" where
  "calibration_right_show pad = mf_cal_show pad MF_XR MF_YR"

definition calibration_right_store :: "kernel_api \<Rightarrow> mf_pad \<Rightarrow> string \<Rightarrow> (mf_errno + nat) \<times> mf_pad" where
  "calibration_right_store K pad buf = mf_cal_store K pad MF_XR MF_YR buf"

section \<open>Deadzone attributes\<close>

definition mf_dz_pct :: "mf_pad \<Rightarrow> bool \<Rightarrow> nat" where
  "mf_dz_pct pad right = (if right then deadzone_right pad else deadzone_left pad)"

definition mf_dz_show :: "mf_pad \<Rightarrow> bool \<Rightarrow> string" where
  "mf_dz_show pad right = dec (mf_dz_pct pad right) @ [c_nl]"

definition mf_dz_store :: "kernel_api \<Rightarrow> mf_pad \<Rightarrow> bool \<Rightarrow> string \<Rightarrow> (mf_errno + nat) \<times> mf_pad" where
  "mf_dz_store K pad right buf =
     (case k_kstrtouint K (dropWhile is_blank buf) of None \<Rightarrow> (Inl EINVAL, pad)
      | Some pct \<Rightarrow>
        if pct > MF_DZ_MAX_PERCENT then (Inl EINVAL, pad)
        else let x_id = (if right then MF_XR else MF_XL);
                 y_id = (if right then MF_YR else MF_YL);
                 pad = (if right then pad\<lparr>deadzone_right := pct\<rparr> else pad\<lparr>deadzone_left := pct\<rparr>)
             in (Inr (length buf), mf_publish_stick K pad x_id y_id))"

section \<open>The diagnostic attribute\<close>

text \<open>One line of the tracer: a label and a value for each axis, in the order YL, XL, YR, XR.\<close>

definition tracer_quad :: "string \<Rightarrow> (mf_axis \<Rightarrow> string) \<Rightarrow> mf_pad \<Rightarrow> string" where
  "tracer_quad label f pad =
     label @ '' YL='' @ f (axis pad MF_YL) @ '' XL='' @ f (axis pad MF_XL) @
     '' YR='' @ f (axis pad MF_YR) @ '' XR='' @ f (axis pad MF_XR) @ [c_nl]"

definition errno_text :: "(mf_errno \<Rightarrow> int) \<Rightarrow> mf_errno option \<Rightarrow> string" where
  "errno_text num e = (case e of None \<Rightarrow> dec_int 0 | Some e \<Rightarrow> dec_int (- num e))"

definition tracer_show :: "(mf_errno \<Rightarrow> int) \<Rightarrow> mf_pad \<Rightarrow> nat \<Rightarrow> string" where
  "tracer_show num pad nbuttons =
     tracer_quad ''raw'' (\<lambda>a. dec (unat (latest a))) pad @
     tracer_quad ''seen_min'' (\<lambda>a. dec (unat (seen_min a))) pad @
     tracer_quad ''seen_max'' (\<lambda>a. dec (unat (seen_max a))) pad @
     tracer_quad ''runtime_zero'' (\<lambda>a. dec_int (runtime_zero a)) pad @
     tracer_quad ''source'' (\<lambda>a. mf_zero_word (zero_source a)) pad @
     tracer_quad ''saved_zero'' (\<lambda>a. dec_int (saved_zero a)) pad @
     tracer_quad ''min'' (\<lambda>a. dec_int (ax_min a)) pad @
     tracer_quad ''max'' (\<lambda>a. dec_int (ax_max a)) pad @
     ''abs X='' @ dec_int (last_abs pad MF_XL) @ '' Y='' @ dec_int (last_abs pad MF_YL) @
       '' RX='' @ dec_int (last_abs pad MF_XR) @ '' RY='' @ dec_int (last_abs pad MF_YR) @ [c_nl] @
     ''valid='' @ dec (unat (valid_frames pad)) @ '' bad='' @ dec (unat (bad_frames pad)) @
       '' bytes='' @ dec (unat (rx_bytes pad)) @ [c_nl] @
     tracer_quad ''boot'' (\<lambda>a. mf_boot_word (boot_state a)) pad @
     tracer_quad ''cand'' (\<lambda>a. dec_int (candidate a)) pad @
     tracer_quad ''windows'' (\<lambda>a. dec (attempts a)) pad @
     ''settle='' @ mf_settle_word (settle_phase pad) @ [c_nl] @
     ''buttons='' @ dec nbuttons @ '' port='' @ (if port_open pad then ''open'' else ''closed'') @
       '' open_errno='' @ errno_text num (open_errno pad) @ [c_nl]"

section \<open>The state \<^verbatim>\<open>mf_probe\<close> sets up\<close>

definition mf_pad_init :: mf_pad where
  "mf_pad_init = \<lparr>reports = [],
     axis = (\<lambda>i. mf_axis_defaults mf_axis_zero
        (case i of MF_XL \<Rightarrow> ABS_X | MF_YL \<Rightarrow> ABS_Y | MF_XR \<Rightarrow> ABS_RX | MF_YR \<Rightarrow> ABS_RY)),
     last_abs = (\<lambda>_. 0), deadzone_left = 0, deadzone_right = 0,
     frame = replicate MF_FRAME_LEN 0, frame_len = 0, boot_first_jiffies = 0, boot_collect_jiffies = 0,
     boot_started = False, settle_phase = MF_SETTLE_WAIT, valid_frames = 0, bad_frames = 0, rx_bytes = 0,
     port_open = False, open_errno = Some ENODEV\<rparr>"

end
