(* ===== verification/Gamepad_Inv.thy ===== *)
theory Gamepad_Inv
  imports Gamepad_Pad
begin

text \<open>
  The invariant of the gamepad driver and its proof for every handler: the calibration of each
  axis always brackets its centre, the sample window and the frame buffer are never indexed out
  of range, the acquisition phases and the per-axis states agree, and no report leaves the range
  announced to the input core.
\<close>

section \<open>The invariant\<close>

definition axis_inv :: "mf_axis \<Rightarrow> bool" where
  "axis_inv ax \<longleftrightarrow>
     length (samples ax) = MF_BOOT_WINDOW \<and> ax_n ax < MF_BOOT_WINDOW \<and>
     0 \<le> ax_min ax \<and> ax_max ax \<le> 255 \<and>
     mf_center_in_range (ax_min ax) (runtime_zero ax) (ax_max ax) = None \<and>
     mf_center_in_range (ax_min ax) (saved_zero ax) (ax_max ax) = None \<and>
     (zero_source ax = MF_ZERO_APPLY \<longrightarrow> mf_boot_finished (boot_state ax)) \<and>
     (zero_source ax = MF_ZERO_BOOT \<longrightarrow> boot_state ax = MF_BOOT_ACCEPTED) \<and>
     (zero_source ax = MF_ZERO_DEFAULT \<or> zero_source ax = MF_ZERO_PERSISTED \<longrightarrow>
        runtime_zero ax = saved_zero ax) \<and>
     (boot_state ax = MF_BOOT_CONFIRM \<longrightarrow> 0 \<le> candidate ax \<and> candidate ax \<le> 255) \<and>
     (accepted ax \<longrightarrow> boot_state ax = MF_BOOT_ACCEPTED \<and> settled ax)"

definition phase_inv :: "mf_pad \<Rightarrow> bool" where
  "phase_inv pad \<longleftrightarrow>
     (settle_phase pad = MF_SETTLE_WAIT \<longleftrightarrow> \<not> boot_started pad) \<and>
     (settle_phase pad = MF_SETTLE_WAIT \<longrightarrow>
       (\<forall>i. boot_state (axis pad i) = MF_BOOT_WAIT \<or>
            boot_state (axis pad i) = MF_BOOT_CANCELLED \<and> zero_source (axis pad i) = MF_ZERO_APPLY)) \<and>
     (settle_phase pad = MF_SETTLE_HW \<longrightarrow>
       (\<forall>i. boot_state (axis pad i) = MF_BOOT_SETTLE \<or> mf_boot_finished (boot_state (axis pad i)))) \<and>
     (settle_phase pad = MF_SETTLE_RUN \<longrightarrow>
       (\<forall>i. boot_state (axis pad i) = MF_BOOT_COLLECT \<or> boot_state (axis pad i) = MF_BOOT_CONFIRM \<or>
            mf_boot_finished (boot_state (axis pad i)))) \<and>
     (settle_phase pad = MF_SETTLE_DONE \<longrightarrow> (\<forall>i. mf_boot_finished (boot_state (axis pad i))))"

definition out_inv :: "mf_pad \<Rightarrow> bool" where
  "out_inv pad \<longleftrightarrow> (\<forall>i. \<bar>last_abs pad i\<bar> \<le> MF_ABS_RANGE) \<and>
     (\<forall>c v. EvAbs c v \<in> set (reports pad) \<longrightarrow> \<bar>v\<bar> \<le> MF_ABS_RANGE)"

definition frame_inv :: "mf_pad \<Rightarrow> bool" where
  "frame_inv pad \<longleftrightarrow> length (frame pad) = MF_FRAME_LEN \<and> frame_len pad < MF_FRAME_LEN \<and>
     (0 < frame_len pad \<longrightarrow> frame pad ! 0 = MF_FRAME_START)"

definition pad_inv :: "mf_pad \<Rightarrow> bool" where
  "pad_inv pad \<longleftrightarrow> (\<forall>i. axis_inv (axis pad i)) \<and> phase_inv pad \<and> out_inv pad \<and> frame_inv pad \<and>
     deadzone_left pad \<le> MF_DZ_MAX_PERCENT \<and> deadzone_right pad \<le> MF_DZ_MAX_PERCENT"

lemma mf_axes_all: "list_all P mf_axes \<longleftrightarrow> (\<forall>i. P i)"
proof -
  have "i \<in> set mf_axes" for i by (cases i) (simp_all add: mf_axes_def)
  then show ?thesis by (auto simp: list_all_iff)
qed

lemma mf_boot_finished_simps [simp]:
  "\<not> mf_boot_finished MF_BOOT_WAIT" "\<not> mf_boot_finished MF_BOOT_SETTLE"
  "\<not> mf_boot_finished MF_BOOT_COLLECT" "\<not> mf_boot_finished MF_BOOT_CONFIRM"
  "mf_boot_finished MF_BOOT_ACCEPTED" "mf_boot_finished MF_BOOT_TIMEOUT"
  "mf_boot_finished MF_BOOT_CANCELLED" "mf_boot_finished MF_BOOT_RANGE_REJECTED"
  by (simp_all add: mf_boot_finished_def)

lemma phase_inv_not_started:
  "phase_inv pad \<Longrightarrow> \<not> boot_started pad \<Longrightarrow>
   boot_state (axis pad i) = MF_BOOT_WAIT \<or>
   boot_state (axis pad i) = MF_BOOT_CANCELLED \<and> zero_source (axis pad i) = MF_ZERO_APPLY"
  unfolding phase_inv_def by blast

section \<open>What the reporting functions change\<close>

lemma report_simps [simp]:
  "axis (report e pad) = axis pad" "last_abs (report e pad) = last_abs pad"
  "deadzone_left (report e pad) = deadzone_left pad" "deadzone_right (report e pad) = deadzone_right pad"
  "frame (report e pad) = frame pad" "frame_len (report e pad) = frame_len pad"
  "boot_first_jiffies (report e pad) = boot_first_jiffies pad"
  "boot_collect_jiffies (report e pad) = boot_collect_jiffies pad"
  "boot_started (report e pad) = boot_started pad" "settle_phase (report e pad) = settle_phase pad"
  "valid_frames (report e pad) = valid_frames pad" "bad_frames (report e pad) = bad_frames pad"
  "rx_bytes (report e pad) = rx_bytes pad" "port_open (report e pad) = port_open pad"
  "open_errno (report e pad) = open_errno pad" "reports (report e pad) = reports pad @ [e]"
  by (simp_all add: report_def)

lemma mf_emit_stick_simps [simp]:
  "axis (mf_emit_stick K pad x y p) = axis pad"
  "deadzone_left (mf_emit_stick K pad x y p) = deadzone_left pad"
  "deadzone_right (mf_emit_stick K pad x y p) = deadzone_right pad"
  "frame (mf_emit_stick K pad x y p) = frame pad" "frame_len (mf_emit_stick K pad x y p) = frame_len pad"
  "boot_first_jiffies (mf_emit_stick K pad x y p) = boot_first_jiffies pad"
  "boot_collect_jiffies (mf_emit_stick K pad x y p) = boot_collect_jiffies pad"
  "boot_started (mf_emit_stick K pad x y p) = boot_started pad"
  "settle_phase (mf_emit_stick K pad x y p) = settle_phase pad"
  "valid_frames (mf_emit_stick K pad x y p) = valid_frames pad"
  "bad_frames (mf_emit_stick K pad x y p) = bad_frames pad"
  "rx_bytes (mf_emit_stick K pad x y p) = rx_bytes pad" "port_open (mf_emit_stick K pad x y p) = port_open pad"
  "open_errno (mf_emit_stick K pad x y p) = open_errno pad"
  by (simp_all add: mf_emit_stick_def Let_def split: prod.split)

lemma mf_radial_range:
  assumes "\<bar>x\<bar> \<le> MF_ABS_RANGE" and "\<bar>y\<bar> \<le> MF_ABS_RANGE" and "mf_radial K p (x, y) = (x', y')"
  shows "\<bar>x'\<bar> \<le> MF_ABS_RANGE \<and> \<bar>y'\<bar> \<le> MF_ABS_RANGE"
  using assms mf_clamp_abs_range
  by (auto simp: mf_radial_def Let_def split: if_splits)

lemma mf_emit_stick_out: "out_inv pad \<Longrightarrow> out_inv (mf_emit_stick K pad x y p)"
  using mf_radial_range [OF mf_scale_range mf_scale_range]
  by (auto simp: out_inv_def mf_emit_stick_def mf_scale_axis_def report_def split: prod.splits)

lemma out_inv_sync: "out_inv (report EvSyn pad) = out_inv pad"
  by (simp add: out_inv_def)

section \<open>One axis\<close>

lemma axis_inv_latest [simp]: "axis_inv (ax\<lparr>latest := v\<rparr>) = axis_inv ax"
  by (simp add: axis_inv_def)

lemma mf_note_seen_fields:
  "boot_state (mf_note_seen ax raw) = boot_state ax" "zero_source (mf_note_seen ax raw) = zero_source ax"
  "runtime_zero (mf_note_seen ax raw) = runtime_zero ax" "saved_zero (mf_note_seen ax raw) = saved_zero ax"
  "ax_min (mf_note_seen ax raw) = ax_min ax" "ax_max (mf_note_seen ax raw) = ax_max ax"
  "latest (mf_note_seen ax raw) = raw"
  by (simp_all add: mf_note_seen_def Let_def)

lemma mf_note_seen_inv: "axis_inv ax \<Longrightarrow> axis_inv (mf_note_seen ax raw)"
  by (simp add: axis_inv_def mf_note_seen_def Let_def)

lemma mf_boot_sample_inv:
  "axis_inv ax \<Longrightarrow> \<not> mf_boot_finished (boot_state ax) \<Longrightarrow> axis_inv (mf_boot_sample ax raw)"
  by (auto simp: axis_inv_def mf_boot_sample_def Let_def mf_boot_finished_def split: option.splits)

lemma mf_boot_axis_inv: "axis_inv ax \<Longrightarrow> axis_inv (mf_boot_axis over ax raw)"
  using mf_boot_sample_inv
  by (auto simp: mf_boot_axis_def) (auto simp: axis_inv_def mf_boot_finished_def)

lemma mf_boot_sample_state:
  "boot_state (mf_boot_sample ax raw) \<in>
     {boot_state ax, MF_BOOT_COLLECT, MF_BOOT_CONFIRM, MF_BOOT_RANGE_REJECTED, MF_BOOT_ACCEPTED}"
  by (auto simp: mf_boot_sample_def Let_def split: option.splits)

lemma axis_inv_apply: "axis_inv ax \<Longrightarrow> zero_source ax = MF_ZERO_APPLY \<Longrightarrow> mf_boot_finished (boot_state ax)"
  by (simp add: axis_inv_def)

lemma axis_inv_state:
  "axis_inv ax \<Longrightarrow> boot_state ax = MF_BOOT_WAIT \<Longrightarrow> zero_source ax \<noteq> MF_ZERO_APPLY \<Longrightarrow>
     axis_inv (ax\<lparr>boot_state := MF_BOOT_SETTLE\<rparr>)"
  "axis_inv ax \<Longrightarrow> boot_state ax = MF_BOOT_SETTLE \<Longrightarrow>
     axis_inv (ax\<lparr>boot_state := MF_BOOT_COLLECT, ax_n := 0\<rparr>)"
  by (auto simp: axis_inv_def)

lemma mf_install_axis_inv:
  assumes "axis_inv ax" and "0 \<le> amin" and "amax \<le> 255" and "mf_center_in_range amin zero amax = None"
    and "mf_preflight_axis ax is_apply amin zero amax = None"
  shows "axis_inv (mf_install_axis ax amin zero amax is_apply)"
  using assms
  by (cases "zero_source ax"; cases is_apply)
    (auto simp: axis_inv_def mf_install_axis_def mf_preflight_axis_def mf_boot_finished_def Let_def)

lemma mf_install_axis_finished:
  "mf_boot_finished (boot_state ax) \<Longrightarrow> boot_state (mf_install_axis ax a z b ap) = boot_state ax"
  "boot_state (mf_install_axis ax a z b ap) = boot_state ax \<or>
   boot_state (mf_install_axis ax a z b ap) = MF_BOOT_CANCELLED \<and>
   zero_source (mf_install_axis ax a z b ap) = MF_ZERO_APPLY"
  "zero_source ax = MF_ZERO_APPLY \<Longrightarrow> zero_source (mf_install_axis ax a z b ap) = MF_ZERO_APPLY"
  by (auto simp: mf_install_axis_def Let_def)

section \<open>The boot-centre acquisition\<close>

text \<open>The part of the invariant the acquisition works on.\<close>

definition boot_inv :: "mf_pad \<Rightarrow> bool" where
  "boot_inv pad \<longleftrightarrow> (\<forall>i. axis_inv (axis pad i)) \<and> phase_inv pad"

lemma boot_inv_seen: "boot_inv pad \<Longrightarrow> boot_inv (pad\<lparr>axis := (\<lambda>i. mf_note_seen (axis pad i) (raw i))\<rparr>)"
  by (cases "settle_phase pad") (auto simp: boot_inv_def phase_inv_def mf_note_seen_fields mf_note_seen_inv)

lemma boot_inv_begin:
  assumes "boot_inv pad" and "\<not> boot_started pad"
  shows "boot_inv (mf_boot_begin now pad)"
proof -
  note st = phase_inv_not_started [OF _ assms(2)]
  have "axis_inv (axis (mf_boot_begin now pad) i)" for i
    using assms(1) st [of i] by (auto simp: boot_inv_def mf_boot_begin_def axis_inv_state)
  moreover have "phase_inv (mf_boot_begin now pad)"
    using assms(1) axis_inv_apply by (auto simp: boot_inv_def phase_inv_def mf_boot_begin_def)
  ultimately show ?thesis by (simp add: boot_inv_def)
qed

lemma boot_inv_run:
  assumes "boot_inv pad" and "settle_phase pad = MF_SETTLE_HW"
  shows "boot_inv (mf_boot_run now pad)"
proof -
  have "axis_inv (axis pad i)" for i using assms(1) by (simp add: boot_inv_def)
  then have "axis_inv (axis (mf_boot_run now pad) i)" for i
    by (simp add: mf_boot_run_def axis_inv_state)
  moreover have "phase_inv (mf_boot_run now pad)"
    using assms by (auto simp: boot_inv_def phase_inv_def mf_boot_run_def)
  ultimately show ?thesis by (simp add: boot_inv_def)
qed

lemma mf_boot_axis_state:
  assumes "boot_state ax = MF_BOOT_COLLECT \<or> boot_state ax = MF_BOOT_CONFIRM \<or> mf_boot_finished (boot_state ax)"
  shows "boot_state (mf_boot_axis over ax raw) = MF_BOOT_COLLECT \<or>
    boot_state (mf_boot_axis over ax raw) = MF_BOOT_CONFIRM \<or>
    mf_boot_finished (boot_state (mf_boot_axis over ax raw))"
  using assms mf_boot_sample_state [of ax raw] by (auto simp: mf_boot_axis_def mf_boot_finished_def)

lemma boot_inv_collect:
  assumes "boot_inv pad" and "settle_phase pad = MF_SETTLE_RUN"
  shows "boot_inv (mf_boot_collect over pad raw)"
proof -
  have "axis_inv (mf_boot_axis over (axis pad i) (raw i))" for i
    using assms(1) by (simp add: boot_inv_def mf_boot_axis_inv)
  then have "axis_inv (axis (mf_boot_collect over pad raw) i)" for i
    by (simp add: mf_boot_collect_def Let_def)
  moreover have "phase_inv (mf_boot_collect over pad raw)"
    using assms mf_boot_axis_state
    by (simp add: boot_inv_def phase_inv_def mf_boot_collect_def Let_def mf_axes_all)
  ultimately show ?thesis by (simp add: boot_inv_def)
qed

lemma mf_boot_phases [simp]:
  "settle_phase (mf_boot_begin now pad) = MF_SETTLE_HW" "settle_phase (mf_boot_run now pad) = MF_SETTLE_RUN"
  by (simp_all add: mf_boot_begin_def mf_boot_run_def)

lemma mf_boot_note_inv:
  assumes "boot_inv pad"
  shows "boot_inv (mf_boot_note K now pad raw)"
proof -
  define p1 where "p1 = pad\<lparr>axis := (\<lambda>i. mf_note_seen (axis pad i) (raw i))\<rparr>"
  define p2 where "p2 = (if boot_started p1 then p1 else mf_boot_begin now p1)"
  define p3 where "p3 = (if settle_phase p2 = MF_SETTLE_HW then mf_boot_run now p2 else p2)"
  have "boot_inv p1" using assms by (simp add: p1_def boot_inv_seen)
  then have i2: "boot_inv p2" by (simp add: p2_def boot_inv_begin)
  then have "boot_inv p3" by (simp add: p3_def boot_inv_run)
  with i2 show ?thesis
    unfolding mf_boot_note_def Let_def p1_def [symmetric] p2_def [symmetric] p3_def [symmetric]
    by (simp add: boot_inv_collect)
qed

lemma mf_boot_note_other [simp]:
  "reports (mf_boot_note K now pad raw) = reports pad" "last_abs (mf_boot_note K now pad raw) = last_abs pad"
  "deadzone_left (mf_boot_note K now pad raw) = deadzone_left pad"
  "deadzone_right (mf_boot_note K now pad raw) = deadzone_right pad"
  "frame (mf_boot_note K now pad raw) = frame pad" "frame_len (mf_boot_note K now pad raw) = frame_len pad"
  "valid_frames (mf_boot_note K now pad raw) = valid_frames pad"
  "bad_frames (mf_boot_note K now pad raw) = bad_frames pad"
  "rx_bytes (mf_boot_note K now pad raw) = rx_bytes pad"
  "port_open (mf_boot_note K now pad raw) = port_open pad"
  "open_errno (mf_boot_note K now pad raw) = open_errno pad"
  by (simp_all add: mf_boot_note_def Let_def mf_boot_begin_def mf_boot_run_def mf_boot_collect_def)

section \<open>Reporting a frame\<close>

lemma mf_report_axes_axis [simp]:
  "axis (mf_report_axes K pad raw) = (\<lambda>i. (axis pad i)\<lparr>latest := raw i\<rparr>)"
  by (simp add: mf_report_axes_def Let_def)

lemma mf_report_axes_other [simp]:
  "deadzone_left (mf_report_axes K pad raw) = deadzone_left pad"
  "deadzone_right (mf_report_axes K pad raw) = deadzone_right pad"
  "frame (mf_report_axes K pad raw) = frame pad" "frame_len (mf_report_axes K pad raw) = frame_len pad"
  "boot_first_jiffies (mf_report_axes K pad raw) = boot_first_jiffies pad"
  "boot_collect_jiffies (mf_report_axes K pad raw) = boot_collect_jiffies pad"
  "boot_started (mf_report_axes K pad raw) = boot_started pad"
  "settle_phase (mf_report_axes K pad raw) = settle_phase pad"
  "valid_frames (mf_report_axes K pad raw) = valid_frames pad"
  "bad_frames (mf_report_axes K pad raw) = bad_frames pad"
  "rx_bytes (mf_report_axes K pad raw) = rx_bytes pad" "port_open (mf_report_axes K pad raw) = port_open pad"
  "open_errno (mf_report_axes K pad raw) = open_errno pad"
  by (simp_all add: mf_report_axes_def Let_def)

lemma boot_inv_latest: "boot_inv (pad\<lparr>axis := (\<lambda>i. (axis pad i)\<lparr>latest := raw i\<rparr>)\<rparr>) = boot_inv pad"
  by (simp add: boot_inv_def phase_inv_def)

lemma mf_report_axes_boot: "boot_inv pad \<Longrightarrow> boot_inv (mf_report_axes K pad raw)"
  by (simp add: boot_inv_def phase_inv_def)

lemma mf_report_axes_out: "out_inv pad \<Longrightarrow> out_inv (mf_report_axes K pad raw)"
proof -
  assume "out_inv pad"
  then have "out_inv (pad\<lparr>axis := (\<lambda>i. (axis pad i)\<lparr>latest := raw i\<rparr>)\<rparr>)" by (simp add: out_inv_def)
  then show ?thesis
    by (simp add: mf_report_axes_def Let_def out_inv_sync mf_emit_stick_out)
qed

section \<open>Every handler keeps the invariant\<close>

lemma pad_inv_alt:
  "pad_inv pad \<longleftrightarrow> boot_inv pad \<and> out_inv pad \<and> frame_inv pad \<and>
     deadzone_left pad \<le> MF_DZ_MAX_PERCENT \<and> deadzone_right pad \<le> MF_DZ_MAX_PERCENT"
  by (auto simp: pad_inv_def boot_inv_def)

text \<open>Fields the parts of the invariant do not read.\<close>

lemma inv_irrelevant [simp]:
  "boot_inv (pad\<lparr>rx_bytes := a\<rparr>) = boot_inv pad" "out_inv (pad\<lparr>rx_bytes := a\<rparr>) = out_inv pad"
  "boot_inv (pad\<lparr>valid_frames := a\<rparr>) = boot_inv pad" "out_inv (pad\<lparr>valid_frames := a\<rparr>) = out_inv pad"
  "boot_inv (pad\<lparr>bad_frames := a\<rparr>) = boot_inv pad" "out_inv (pad\<lparr>bad_frames := a\<rparr>) = out_inv pad"
  "boot_inv (pad\<lparr>frame := f\<rparr>) = boot_inv pad" "out_inv (pad\<lparr>frame := f\<rparr>) = out_inv pad"
  "boot_inv (pad\<lparr>frame_len := n\<rparr>) = boot_inv pad" "out_inv (pad\<lparr>frame_len := n\<rparr>) = out_inv pad"
  "boot_inv (pad\<lparr>port_open := b\<rparr>) = boot_inv pad" "out_inv (pad\<lparr>port_open := b\<rparr>) = out_inv pad"
  "boot_inv (pad\<lparr>open_errno := e\<rparr>) = boot_inv pad" "out_inv (pad\<lparr>open_errno := e\<rparr>) = out_inv pad"
  "boot_inv (pad\<lparr>deadzone_left := d\<rparr>) = boot_inv pad" "out_inv (pad\<lparr>deadzone_left := d\<rparr>) = out_inv pad"
  "boot_inv (pad\<lparr>deadzone_right := d\<rparr>) = boot_inv pad" "out_inv (pad\<lparr>deadzone_right := d\<rparr>) = out_inv pad"
  "boot_inv (report ev pad) = boot_inv pad" "boot_inv (mf_emit_stick K pad x y p) = boot_inv pad"
  by (simp_all add: boot_inv_def out_inv_def phase_inv_def)

lemma out_inv_cong: "reports p = reports q \<Longrightarrow> last_abs p = last_abs q \<Longrightarrow> out_inv p = out_inv q"
  by (simp add: out_inv_def)

section \<open>The frame decoder against its specification\<close>

text \<open>
  The abstract decoder keeps the bytes since the start byte it believes in; six bytes that end
  in the end byte are a frame, six others are dropped up to the next start byte.
\<close>

definition dec_feed :: "u8 list \<Rightarrow> u8 \<Rightarrow> u8 list \<times> u8 list option" where
  "dec_feed p b =
     (if p = [] then (if b = MF_FRAME_START then ([b], None) else ([], None))
      else let q = p @ [b] in
        if length q < MF_FRAME_LEN then (q, None)
        else if b = MF_FRAME_END then ([], Some q)
        else (dropWhile (\<lambda>c. c \<noteq> MF_FRAME_START) (tl q), None))"

definition frame_abs :: "mf_pad \<Rightarrow> u8 list" where
  "frame_abs pad = take (frame_len pad) (frame pad)"

lemma find_start_None: "find_start bs i = None \<longleftrightarrow> MF_FRAME_START \<notin> set bs"
  by (induction bs i rule: find_start.induct) auto

lemma find_start_Some:
  "find_start bs i = Some j \<Longrightarrow> i \<le> j \<and> j < i + length bs \<and> bs ! (j - i) = MF_FRAME_START \<and>
     dropWhile (\<lambda>c. c \<noteq> MF_FRAME_START) bs = drop (j - i) bs"
proof (induction bs i rule: find_start.induct)
  case (2 b bs i)
  show ?case
  proof (cases "b = MF_FRAME_START")
    case False
    with 2 have IH: "Suc i \<le> j" "j < Suc i + length bs" "bs ! (j - Suc i) = MF_FRAME_START"
      "dropWhile (\<lambda>c. c \<noteq> MF_FRAME_START) bs = drop (j - Suc i) bs" by simp_all
    then have "j - i = Suc (j - Suc i)" by arith
    with IH False show ?thesis by simp
  qed (use 2 in simp)
qed simp

lemma frame_snoc:
  assumes "length fr = MF_FRAME_LEN" and "n < MF_FRAME_LEN"
  shows "take (Suc n) (fr[n := b]) = take n fr @ [b]"
  using assms by (simp add: take_Suc_conv_app_nth)

lemma mf_resync:
  assumes len: "length fr = MF_FRAME_LEN" and st: "find_start (tl fr) 1 = Some start"
  shows "length (drop start fr @ drop (MF_FRAME_LEN - start) fr) = MF_FRAME_LEN"
    and "(drop start fr @ drop (MF_FRAME_LEN - start) fr) ! 0 = MF_FRAME_START"
    and "take (MF_FRAME_LEN - start) (drop start fr @ drop (MF_FRAME_LEN - start) fr) =
      dropWhile (\<lambda>c. c \<noteq> MF_FRAME_START) (tl fr)"
    and "MF_FRAME_LEN - start < MF_FRAME_LEN"
proof -
  have s: "1 \<le> start" "start < 6" "tl fr ! (start - 1) = MF_FRAME_START"
    "dropWhile (\<lambda>c. c \<noteq> MF_FRAME_START) (tl fr) = drop (start - 1) (tl fr)"
    using find_start_Some [OF st] len by auto
  have "drop (start - 1) (tl fr) = drop start fr" using s(1) by (simp add: drop_Suc flip: drop_Suc)
  with s len show "take (6 - start) (drop start fr @ drop (6 - start) fr) =
      dropWhile (\<lambda>c. c \<noteq> MF_FRAME_START) (tl fr)" by simp
  have "fr ! start = MF_FRAME_START" using s len by (simp add: nth_tl)
  then show "(drop start fr @ drop (6 - start) fr) ! 0 = MF_FRAME_START"
    using s len by (simp add: nth_append)
qed (use len find_start_Some [OF st] in auto)

text \<open>The five cases of \<^verbatim>\<open>mf_feed\<close>.\<close>

lemma mf_feed_idle: "frame_len pad = 0 \<Longrightarrow> b \<noteq> MF_FRAME_START \<Longrightarrow>
    mf_feed K now pad b = pad\<lparr>rx_bytes := rx_bytes pad + 1\<rparr>"
  by (simp add: mf_feed_def)

lemma mf_feed_start: "frame_len pad = 0 \<Longrightarrow>
    mf_feed K now pad MF_FRAME_START =
      pad\<lparr>rx_bytes := rx_bytes pad + 1, frame := (frame pad)[0 := MF_FRAME_START], frame_len := 1\<rparr>"
  by (simp add: mf_feed_def)

lemma mf_feed_more: "0 < frame_len pad \<Longrightarrow> Suc (frame_len pad) < MF_FRAME_LEN \<Longrightarrow>
    mf_feed K now pad b = pad\<lparr>rx_bytes := rx_bytes pad + 1,
      frame := (frame pad)[frame_len pad := b], frame_len := Suc (frame_len pad)\<rparr>"
  by (simp add: mf_feed_def)

lemma mf_feed_valid: "frame_len pad = 5 \<Longrightarrow> length (frame pad) = MF_FRAME_LEN \<Longrightarrow>
    mf_feed K now pad MF_FRAME_END =
      (let pad = pad\<lparr>rx_bytes := rx_bytes pad + 1, frame := (frame pad)[5 := MF_FRAME_END],
                     frame_len := 6, valid_frames := valid_frames pad + 1\<rparr>;
           raw = mf_raw_of_frame (frame pad)
       in (mf_report_axes K (mf_boot_note K now pad raw) raw)\<lparr>frame_len := 0\<rparr>)"
  by (simp add: mf_feed_def Let_def)

lemma mf_feed_bad: "frame_len pad = 5 \<Longrightarrow> length (frame pad) = MF_FRAME_LEN \<Longrightarrow> b \<noteq> MF_FRAME_END \<Longrightarrow>
    mf_feed K now pad b =
      (let fr = (frame pad)[5 := b];
           pad = pad\<lparr>rx_bytes := rx_bytes pad + 1, frame := fr, frame_len := 6, bad_frames := bad_frames pad + 1\<rparr>
       in case find_start (tl fr) 1 of None \<Rightarrow> pad\<lparr>frame_len := 0\<rparr>
          | Some start \<Rightarrow> pad\<lparr>frame := drop start fr @ drop (MF_FRAME_LEN - start) fr,
                                 frame_len := MF_FRAME_LEN - start\<rparr>)"
  by (simp add: mf_feed_def Let_def split: option.split)

lemma frame_inv_cases:
  assumes "frame_inv pad"
  obtains "frame_len pad = 0" | "0 < frame_len pad" "Suc (frame_len pad) < MF_FRAME_LEN"
    | "frame_len pad = 5" "length (frame pad) = MF_FRAME_LEN"
  using assms unfolding frame_inv_def by linarith

lemma mf_feed_frame:
  assumes inv: "frame_inv pad"
  shows "frame_inv (mf_feed K now pad b) \<and> frame_abs (mf_feed K now pad b) = fst (dec_feed (frame_abs pad) b)"
  using inv
proof (cases rule: frame_inv_cases)
  case 1
  then show ?thesis using inv
    by (cases "b = MF_FRAME_START")
      (auto simp: mf_feed_idle mf_feed_start frame_inv_def frame_abs_def dec_feed_def take_Suc_conv_app_nth)
next
  case 2
  then have "frame_abs pad \<noteq> []" "length (frame_abs pad) = frame_len pad"
    using inv by (auto simp: frame_inv_def frame_abs_def)
  with 2 show ?thesis using inv
    by (simp add: mf_feed_more frame_inv_def dec_feed_def) (simp add: frame_abs_def frame_snoc)
next
  case 3
  then have q: "frame_abs pad @ [b] = (frame pad)[5 := b]" "frame_abs pad \<noteq> []" "length (frame_abs pad) = 5"
    using frame_snoc [of "frame pad" 5 b] by (auto simp: frame_abs_def)
  have len: "length ((frame pad)[5 := b]) = 6" using 3 by simp
  show ?thesis
  proof (cases "b = MF_FRAME_END")
    case True
    with 3 q show ?thesis by (simp add: mf_feed_valid Let_def dec_feed_def frame_inv_def frame_abs_def)
  next
    case False
    have drop_none: "MF_FRAME_START \<notin> set xs \<Longrightarrow> dropWhile (\<lambda>c. c \<noteq> MF_FRAME_START) xs = []" for xs
      by (auto simp: dropWhile_eq_Nil_conv)
    show ?thesis
    proof (cases "find_start (tl ((frame pad)[5 := b])) 1")
      case None
      then have "dropWhile (\<lambda>c. c \<noteq> MF_FRAME_START) (tl ((frame pad)[5 := b])) = []"
        by (intro drop_none) (simp add: find_start_None)
      with None 3 q False show ?thesis
        by (simp add: mf_feed_bad Let_def dec_feed_def frame_inv_def frame_abs_def
            del: One_nat_def dropWhile_eq_Nil_conv)
    next
      case (Some start)
      define nf where "nf = drop start ((frame pad)[5 := b]) @ drop (6 - start) ((frame pad)[5 := b])"
      note r = mf_resync [OF len Some, folded nf_def]
      have "frame (mf_feed K now pad b) = nf" "frame_len (mf_feed K now pad b) = 6 - start"
        using Some by (simp_all add: mf_feed_bad [OF 3 False] nf_def Let_def del: One_nat_def)
      moreover have "fst (dec_feed (frame_abs pad) b) =
          dropWhile (\<lambda>c. c \<noteq> MF_FRAME_START) (tl ((frame pad)[5 := b]))"
        using q 3 False by (simp add: dec_feed_def Let_def)
      ultimately show ?thesis using r by (simp only: frame_inv_def frame_abs_def) simp
    qed
  qed
qed

lemma mf_feed_rest:
  assumes "frame_inv pad"
  shows "boot_inv pad \<Longrightarrow> boot_inv (mf_feed K now pad b)"
    and "out_inv pad \<Longrightarrow> out_inv (mf_feed K now pad b)"
    and "deadzone_left (mf_feed K now pad b) = deadzone_left pad"
    and "deadzone_right (mf_feed K now pad b) = deadzone_right pad"
proof -
  have out: "out_inv p \<Longrightarrow> out_inv (mf_boot_note K now p raw)" for p raw
    by (simp add: out_inv_def)
  show "boot_inv pad \<Longrightarrow> boot_inv (mf_feed K now pad b)"
    "out_inv pad \<Longrightarrow> out_inv (mf_feed K now pad b)"
    "deadzone_left (mf_feed K now pad b) = deadzone_left pad"
    "deadzone_right (mf_feed K now pad b) = deadzone_right pad"
    using out by (simp_all add: mf_feed_def Let_def mf_boot_note_inv mf_report_axes_boot mf_report_axes_out
        split: option.split)
qed

lemma mf_feed_inv: "pad_inv pad \<Longrightarrow> pad_inv (mf_feed K now pad b)"
  by (simp add: pad_inv_alt mf_feed_rest mf_feed_frame)

lemma mf_receive_inv: "pad_inv pad \<Longrightarrow> pad_inv (snd (mf_receive K pad buf))"
proof -
  assume "pad_inv pad"
  then have "pad_inv (foldl (\<lambda>pad (b, now). mf_feed K now pad b) pad buf)"
    by (induction buf arbitrary: pad) (auto simp: mf_feed_inv)
  with \<open>pad_inv pad\<close> show ?thesis by (simp add: mf_receive_def)
qed

section \<open>The attribute writers\<close>

lemma mf_publish_stick_simps [simp]:
  "axis (mf_publish_stick K pad x y) = axis pad"
  "deadzone_left (mf_publish_stick K pad x y) = deadzone_left pad"
  "deadzone_right (mf_publish_stick K pad x y) = deadzone_right pad"
  "frame (mf_publish_stick K pad x y) = frame pad" "frame_len (mf_publish_stick K pad x y) = frame_len pad"
  "settle_phase (mf_publish_stick K pad x y) = settle_phase pad"
  "boot_started (mf_publish_stick K pad x y) = boot_started pad"
  "boot_inv (mf_publish_stick K pad x y) = boot_inv pad"
  "frame_inv (mf_publish_stick K pad x y) = frame_inv pad"
  by (simp_all add: mf_publish_stick_def frame_inv_def)

lemma mf_publish_stick_out: "out_inv pad \<Longrightarrow> out_inv (mf_publish_stick K pad x y)"
  by (simp add: mf_publish_stick_def out_inv_sync mf_emit_stick_out)

lemma mf_dz_store_inv: "pad_inv pad \<Longrightarrow> pad_inv (snd (mf_dz_store K pad right buf))"
  by (auto simp: mf_dz_store_def pad_inv_alt Let_def frame_inv_def mf_publish_stick_out split: option.split)

lemma mf_token_digits_range: "v \<le> 255 \<Longrightarrow> mf_token_digits s d v = Some (w, r) \<Longrightarrow> w \<le> 255"
  by (induction s d v rule: mf_token_digits.induct) (auto simp: Let_def split: if_splits)

lemma mf_token_u8_range: "mf_token_u8 s = Some (v, r) \<Longrightarrow> 0 \<le> v \<and> v \<le> 255"
  by (auto simp: mf_token_u8_def Let_def dest: mf_token_digits_range [of 0, simplified] split: if_splits)

lemma mf_six_tokens_range:
  "mf_six_tokens s = Some ((a, b, c, d, e, f), r) \<Longrightarrow> 0 \<le> a \<and> c \<le> 255 \<and> 0 \<le> d \<and> f \<le> 255"
  unfolding mf_six_tokens_def by (auto simp: bind_eq_Some_conv dest: mf_token_u8_range)

lemma mf_parse_cal_range:
  assumes "mf_parse_cal buf = Inr rq"
  shows "0 \<le> rq_xmin rq" "rq_xmax rq \<le> 255" "0 \<le> rq_ymin rq" "rq_ymax rq \<le> 255"
    "mf_center_in_range (rq_xmin rq) (rq_xzero rq) (rq_xmax rq) = None"
    "mf_center_in_range (rq_ymin rq) (rq_yzero rq) (rq_ymax rq) = None"
  using assms
  by (auto simp: mf_parse_cal_def Let_def split: if_splits option.splits dest!: mf_six_tokens_range)

text \<open>The pad after an accepted calibration write, before the stick is published.\<close>

definition cal_installed :: "mf_pad \<Rightarrow> mf_axis_id \<Rightarrow> mf_axis_id \<Rightarrow> cal_req \<Rightarrow> mf_pad" where
  "cal_installed pad x_id y_id rq =
     (let pad = pad\<lparr>axis := (axis pad)(x_id := mf_install_axis (axis pad x_id)
                          (rq_xmin rq) (rq_xzero rq) (rq_xmax rq) (rq_apply rq))\<rparr>;
          pad = pad\<lparr>axis := (axis pad)(y_id := mf_install_axis (axis pad y_id)
                          (rq_ymin rq) (rq_yzero rq) (rq_ymax rq) (rq_apply rq))\<rparr>
      in if boot_started pad \<and> list_all (\<lambda>i. mf_boot_finished (boot_state (axis pad i))) mf_axes
         then pad\<lparr>settle_phase := MF_SETTLE_DONE\<rparr> else pad)"

definition cal_rejected :: "mf_pad \<Rightarrow> mf_axis_id \<Rightarrow> mf_axis_id \<Rightarrow> cal_req \<Rightarrow> bool" where
  "cal_rejected pad x_id y_id rq \<longleftrightarrow>
     mf_preflight_axis (axis pad x_id) (rq_apply rq) (rq_xmin rq) (rq_xzero rq) (rq_xmax rq) \<noteq> None \<or>
     mf_preflight_axis (axis pad y_id) (rq_apply rq) (rq_ymin rq) (rq_yzero rq) (rq_ymax rq) \<noteq> None"

lemma mf_cal_store_eq:
  "mf_cal_store K pad x_id y_id buf =
     (case mf_parse_cal buf of Inl e \<Rightarrow> (Inl EINVAL, pad)
      | Inr rq \<Rightarrow> if cal_rejected pad x_id y_id rq then (Inl ERANGE, pad)
          else (Inr (length buf), mf_publish_stick K (cal_installed pad x_id y_id rq) x_id y_id))"
  unfolding mf_cal_store_def cal_installed_def cal_rejected_def Let_def ..

lemma cal_installed_fields [simp]:
  "x_id \<noteq> y_id \<Longrightarrow> axis (cal_installed pad x_id y_id rq) =
     (axis pad)(x_id := mf_install_axis (axis pad x_id) (rq_xmin rq) (rq_xzero rq) (rq_xmax rq) (rq_apply rq),
                y_id := mf_install_axis (axis pad y_id) (rq_ymin rq) (rq_yzero rq) (rq_ymax rq) (rq_apply rq))"
  "frame (cal_installed pad x_id y_id rq) = frame pad" "frame_len (cal_installed pad x_id y_id rq) = frame_len pad"
  "boot_started (cal_installed pad x_id y_id rq) = boot_started pad"
  "deadzone_left (cal_installed pad x_id y_id rq) = deadzone_left pad"
  "deadzone_right (cal_installed pad x_id y_id rq) = deadzone_right pad"
  "out_inv (cal_installed pad x_id y_id rq) = out_inv pad"
  "frame_inv (cal_installed pad x_id y_id rq) = frame_inv pad"
  by (simp_all add: cal_installed_def Let_def out_inv_def frame_inv_def)

lemma cal_installed_phase:
  "x_id \<noteq> y_id \<Longrightarrow> settle_phase (cal_installed pad x_id y_id rq) =
     (if boot_started pad \<and> (\<forall>i. mf_boot_finished (boot_state (axis (cal_installed pad x_id y_id rq) i)))
      then MF_SETTLE_DONE else settle_phase pad)"
proof -
  assume "x_id \<noteq> y_id"
  then have "axis (cal_installed pad x_id y_id rq) = axis (pad\<lparr>axis := (axis pad)(x_id := mf_install_axis (axis pad x_id)
        (rq_xmin rq) (rq_xzero rq) (rq_xmax rq) (rq_apply rq), y_id := mf_install_axis (axis pad y_id)
        (rq_ymin rq) (rq_yzero rq) (rq_ymax rq) (rq_apply rq))\<rparr>)" (is "_ = axis ?p") by simp
  moreover have "settle_phase (cal_installed pad x_id y_id rq) =
      (if boot_started pad \<and> list_all (\<lambda>i. mf_boot_finished (boot_state (axis ?p i))) mf_axes then MF_SETTLE_DONE else settle_phase pad)"
    using \<open>x_id \<noteq> y_id\<close> by (simp add: cal_installed_def Let_def fun_upd_other del: fun_upd_apply)
  ultimately show ?thesis by (simp only: mf_axes_all)
qed

lemma install_state_kept:
  assumes "\<And>i. boot_state (f i) = boot_state (axis pad i) \<or>
      boot_state (f i) = MF_BOOT_CANCELLED \<and> zero_source (f i) = MF_ZERO_APPLY"
    and "\<And>i. zero_source (axis pad i) = MF_ZERO_APPLY \<Longrightarrow> zero_source (f i) = MF_ZERO_APPLY"
    and "phase_inv pad"
  shows "phase_inv (pad\<lparr>axis := f, settle_phase := (if boot_started pad \<and>
      (\<forall>i. mf_boot_finished (boot_state (f i))) then MF_SETTLE_DONE else settle_phase pad)\<rparr>)"
  using assms unfolding phase_inv_def
  by (simp, metis mf_boot_finished_simps)

lemma cal_installed_boot:
  assumes inv: "boot_inv pad" and ne: "x_id \<noteq> y_id" and rq: "mf_parse_cal buf = Inr rq"
    and ok: "\<not> cal_rejected pad x_id y_id rq"
  shows "boot_inv (cal_installed pad x_id y_id rq)"
proof -
  let ?pad = "cal_installed pad x_id y_id rq"
  have "axis_inv (axis ?pad i)" for i
    using inv ok ne mf_parse_cal_range [OF rq]
    by (auto simp: boot_inv_def cal_rejected_def intro!: mf_install_axis_inv)
  moreover have "phase_inv (pad\<lparr>axis := axis ?pad, settle_phase := settle_phase ?pad\<rparr>)"
    unfolding cal_installed_phase [OF ne]
    using inv ne mf_install_axis_finished
    by (intro install_state_kept) (auto simp: boot_inv_def)
  ultimately show ?thesis
    by (simp add: boot_inv_def phase_inv_def)
qed

lemma mf_cal_store_inv:
  assumes "pad_inv pad" and "x_id \<noteq> y_id"
  shows "pad_inv (snd (mf_cal_store K pad x_id y_id buf))"
  using assms cal_installed_boot
  by (auto simp: mf_cal_store_eq pad_inv_alt mf_publish_stick_out split: sum.split)

end
