(* ===== verification/Gamepad_Props.thy ===== *)
theory Gamepad_Props
  imports Gamepad_Inv
begin

text \<open>
  The driver as a transition system over its entry points (received bytes, the two calibration
  files, the two deadzone files, opening and closing the port), and the properties that hold of
  every run: the invariant, the self-synchronisation of the frame decoder, the authority of an
  applied calibration, and the outcome of the boot-centre acquisition.
\<close>

section \<open>The transition system\<close>

datatype mf_event = EvReceive "(u8 \<times> ulong) list" | EvCalLeft string | EvCalRight string
  | EvDeadzone bool string | EvOpen "mf_errno option" | EvClose

fun mf_step :: "kernel_api \<Rightarrow> mf_pad \<Rightarrow> mf_event \<Rightarrow> mf_pad" where
  "mf_step K pad (EvReceive buf) = snd (mf_receive K pad buf)"
| "mf_step K pad (EvCalLeft buf) = snd (calibration_left_store K pad buf)"
| "mf_step K pad (EvCalRight buf) = snd (calibration_right_store K pad buf)"
| "mf_step K pad (EvDeadzone right buf) = snd (mf_dz_store K pad right buf)"
| "mf_step K pad (EvOpen ret) = snd (mf_port_open pad ret)"
| "mf_step K pad EvClose = snd (mf_port_close pad)"

lemma mf_pad_init_inv: "pad_inv mf_pad_init"
  by (simp add: pad_inv_def phase_inv_def out_inv_def frame_inv_def axis_inv_def mf_pad_init_def
      mf_axis_defaults_def mf_axis_zero_def mf_center_in_range_def)

lemma mf_step_inv: "pad_inv pad \<Longrightarrow> pad_inv (mf_step K pad e)"
proof (cases e)
  case (EvOpen ret)
  assume "pad_inv pad"
  with EvOpen show ?thesis
    by (cases ret) (auto simp: mf_port_open_def pad_inv_alt frame_inv_def)
next
  case EvClose
  assume "pad_inv pad"
  with EvClose show ?thesis by (simp add: mf_port_close_def pad_inv_alt frame_inv_def)
qed (simp_all add: mf_receive_inv mf_dz_store_inv mf_cal_store_inv calibration_left_store_def
      calibration_right_store_def)

interpretation pad_sys: transition_system "mf_step K" mf_pad_init pad_inv for K
  by unfold_locales (rule mf_pad_init_inv, rule mf_step_inv)

text \<open>
  C1 (invariant). In every state the driver can reach through its entry points, each axis has
  a calibration that strictly brackets its runtime and its saved centre by more than the
  deadband, the sample index and the frame index stay inside their arrays, a partial frame
  begins with the start byte, the acquisition phase agrees with the per-axis states, the
  deadzones are at most 30 percent and every reported absolute value is within \<open>\<plusminus>32767\<close>.
\<close>

theorem mf_run_inv: "pad_inv (foldl (mf_step K) mf_pad_init es)"
  by (rule pad_sys.inv_run)

section \<open>Self-synchronisation of the frame decoder\<close>

lemma mf_feed_decoded:
  assumes inv: "frame_inv pad"
  shows "valid_frames (mf_feed K now pad b) =
      valid_frames pad + (if snd (dec_feed (frame_abs pad) b) = None then 0 else 1)"
    and "snd (dec_feed (frame_abs pad) b) = Some q \<Longrightarrow>
      latest (axis (mf_feed K now pad b) i) = mf_raw_of_frame q i"
proof -
  have "valid_frames (mf_feed K now pad b) =
      valid_frames pad + (if snd (dec_feed (frame_abs pad) b) = None then 0 else 1) \<and>
    (snd (dec_feed (frame_abs pad) b) = Some q \<longrightarrow>
      latest (axis (mf_feed K now pad b) i) = mf_raw_of_frame q i)"
    using inv
  proof (cases rule: frame_inv_cases)
    case 1
    then show ?thesis
      by (cases "b = MF_FRAME_START") (simp_all add: mf_feed_idle mf_feed_start dec_feed_def frame_abs_def)
  next
    case 2
    then have "frame_abs pad \<noteq> []" "length (frame_abs pad) = frame_len pad"
      using inv by (auto simp: frame_inv_def frame_abs_def)
    with 2 show ?thesis by (simp add: mf_feed_more dec_feed_def Let_def)
  next
    case 3
    then have q: "frame_abs pad @ [b] = (frame pad)[5 := b]" "frame_abs pad \<noteq> []" "length (frame_abs pad) = 5"
      using frame_snoc [of "frame pad" 5 b] by (auto simp: frame_abs_def)
    then show ?thesis using 3
      by (cases "b = MF_FRAME_END")
        (simp_all add: mf_feed_valid mf_feed_bad dec_feed_def Let_def split: option.split)
  qed
  then show "valid_frames (mf_feed K now pad b) =
      valid_frames pad + (if snd (dec_feed (frame_abs pad) b) = None then 0 else 1)"
    and "snd (dec_feed (frame_abs pad) b) = Some q \<Longrightarrow>
      latest (axis (mf_feed K now pad b) i) = mf_raw_of_frame q i" by blast+
qed

text \<open>
  While a clean frame \<open>fr\<close> (start byte first, neither marker among the next four bytes) is fed,
  the bytes kept end in the part of \<open>fr\<close> fed so far.
\<close>

definition synced :: "u8 list \<Rightarrow> u8 list \<Rightarrow> bool" where
  "synced p fed \<longleftrightarrow> (\<exists>g. p = g @ fed \<and> (g = [] \<or> hd g = MF_FRAME_START)) \<and> length p < MF_FRAME_LEN"

lemma dropWhile_to_start:
  "fed \<noteq> [] \<Longrightarrow> hd fed = MF_FRAME_START \<Longrightarrow>
   \<exists>g'. dropWhile (\<lambda>c. c \<noteq> MF_FRAME_START) (g @ fed) = g' @ fed \<and> (g' = [] \<or> hd g' = MF_FRAME_START)"
proof (induction g)
  case Nil
  then show ?case by (cases fed) auto
next
  case (Cons a g)
  then show ?case by (cases "a = MF_FRAME_START") (auto intro: exI [of _ "a # g"])
qed

lemma synced_step:
  assumes s: "synced p fed" and b: "b \<noteq> MF_FRAME_END" and l: "length fed < 5"
    and h: "hd (fed @ [b]) = MF_FRAME_START"
  shows "synced (fst (dec_feed p b)) (fed @ [b]) \<and> snd (dec_feed p b) = None"
proof (cases "p = []")
  case True
  with s h show ?thesis by (auto simp: synced_def dec_feed_def)
next
  case False
  obtain g where g: "p = g @ fed" "g = [] \<or> hd g = MF_FRAME_START" "length p < 6"
    using s by (auto simp: synced_def)
  show ?thesis
  proof (cases "length p < 5")
    case True
    with False g show ?thesis by (auto simp: dec_feed_def synced_def Let_def)
  next
    case len: False
    then have "g \<noteq> []" using g l by auto
    obtain g' where g': "dropWhile (\<lambda>c. c \<noteq> MF_FRAME_START) (tl g @ (fed @ [b])) = g' @ fed @ [b]"
      "g' = [] \<or> hd g' = MF_FRAME_START"
      using dropWhile_to_start [of "fed @ [b]" "tl g"] h by auto
    have "length (g' @ fed @ [b]) \<le> length (tl g @ (fed @ [b]))"
      using length_dropWhile_le [of "\<lambda>c. c \<noteq> MF_FRAME_START" "tl g @ (fed @ [b])"] unfolding g'(1) .
    then have "length (g' @ fed @ [b]) < 6" using g \<open>g \<noteq> []\<close> by (cases g) auto
    moreover have "fst (dec_feed p b) = g' @ fed @ [b]" "snd (dec_feed p b) = None"
      using False len b g \<open>g \<noteq> []\<close> g'(1) by (simp_all add: dec_feed_def Let_def)
    ultimately show ?thesis using g'(2) by (auto simp: synced_def)
  qed
qed

lemma synced_feed:
  assumes "frame_inv pad" "synced (frame_abs pad) fed" "b \<noteq> MF_FRAME_END" "length fed < 5"
    "hd (fed @ [b]) = MF_FRAME_START"
  shows "frame_inv (mf_feed K now pad b)" "synced (frame_abs (mf_feed K now pad b)) (fed @ [b])"
    "valid_frames (mf_feed K now pad b) = valid_frames pad"
  using assms synced_step [OF assms(2-5)] mf_feed_frame [OF assms(1)] mf_feed_decoded(1) [OF assms(1)]
  by simp_all

lemma synced_start:
  assumes "frame_inv pad"
  shows "synced (frame_abs pad) []"
proof -
  have "frame pad \<noteq> []" using assms by (auto simp: frame_inv_def)
  then show ?thesis using assms
    by (cases "frame_len pad") (auto simp: synced_def frame_inv_def frame_abs_def hd_conv_nth)
qed

text \<open>Feeding a list of bytes with their clock values.\<close>

definition mf_feeds :: "kernel_api \<Rightarrow> mf_pad \<Rightarrow> (u8 \<times> ulong) list \<Rightarrow> mf_pad" where
  "mf_feeds K pad buf = foldl (\<lambda>pad (b, now). mf_feed K now pad b) pad buf"

lemma mf_feeds_simps [simp]:
  "mf_feeds K pad [] = pad" "mf_feeds K pad ((b, t) # buf) = mf_feeds K (mf_feed K t pad b) buf"
  by (simp_all add: mf_feeds_def)

lemma dec_feed_end:
  assumes "synced p fed" and "length fed = 5"
  shows "dec_feed p MF_FRAME_END = ([], Some (fed @ [MF_FRAME_END]))"
proof -
  from assms have "p = fed" by (auto simp: synced_def)
  with assms(2) show ?thesis by (auto simp: dec_feed_def Let_def)
qed

lemma synced_feeds:
  assumes "frame_inv pad" "synced (frame_abs pad) fed" "fed \<noteq> []" "hd fed = MF_FRAME_START"
    and "\<forall>(b, t)\<in>set buf. b \<noteq> MF_FRAME_END" and "length fed + length buf \<le> 5"
  shows "frame_inv (mf_feeds K pad buf) \<and> synced (frame_abs (mf_feeds K pad buf)) (fed @ map fst buf) \<and>
    valid_frames (mf_feeds K pad buf) = valid_frames pad"
  using assms
proof (induction buf arbitrary: pad fed)
  case (Cons bt buf)
  obtain b t where bt: "bt = (b, t)" by (cases bt)
  note s = synced_feed [OF Cons.prems(1,2), where b = b and K = K and now = t]
  have "frame_inv (mf_feed K t pad b)" "synced (frame_abs (mf_feed K t pad b)) (fed @ [b])"
    "valid_frames (mf_feed K t pad b) = valid_frames pad"
    using s Cons.prems by (auto simp: bt)
  then show ?case
    using Cons.IH [of "mf_feed K t pad b" "fed @ [b]"] Cons.prems by (simp add: bt)
qed simp

text \<open>
  C2 (safety). The decoder is self-synchronising: in whatever partial frame a disturbance left
  it, the next frame \<^verbatim>\<open>FF YL XL YR XR FE\<close> whose payload contains neither marker byte is decoded
  exactly once, leaves the decoder at a frame boundary and sets the latest sample of every axis
  to its byte of that frame.
\<close>

theorem mf_decoder_resyncs:
  assumes inv: "pad_inv pad"
    and clean: "yl \<notin> {0xff, 0xfe}" "xl \<notin> {0xff, 0xfe}" "yr \<notin> {0xff, 0xfe}" "xr \<notin> {0xff, 0xfe}"
    and pad': "pad' = mf_feeds K pad [(0xff, t0), (yl, t1), (xl, t2), (yr, t3), (xr, t4), (0xfe, t5)]"
  shows "frame_len pad' = 0 \<and> valid_frames pad' = valid_frames pad + 1 \<and>
    latest (axis pad' MF_XL) = xl \<and> latest (axis pad' MF_YL) = yl \<and>
    latest (axis pad' MF_XR) = xr \<and> latest (axis pad' MF_YR) = yr"
proof -
  have i0: "frame_inv pad" using inv by (simp add: pad_inv_def)
  define p1 where "p1 = mf_feed K t0 pad 0xff"
  define p5 where "p5 = mf_feeds K p1 [(yl, t1), (xl, t2), (yr, t3), (xr, t4)]"
  have s1: "frame_inv p1" "synced (frame_abs p1) [0xff]" "valid_frames p1 = valid_frames pad"
    using synced_feed [OF i0 synced_start [OF i0], where b = "0xff"] by (simp_all add: p1_def)
  have s5': "frame_inv p5" "synced (frame_abs p5) [0xff, yl, xl, yr, xr]" "valid_frames p5 = valid_frames pad"
    using synced_feeds [OF s1(1,2), where K = K and buf = "[(yl, t1), (xl, t2), (yr, t3), (xr, t4)]"]
      s1 clean by (auto simp: p5_def)
  have d: "dec_feed (frame_abs p5) 0xfe = ([], Some [0xff, yl, xl, yr, xr, 0xfe])"
    using dec_feed_end [OF s5'(2)] by simp
  have p': "pad' = mf_feed K t5 p5 0xfe"
    by (simp add: pad' p1_def p5_def)
  have "frame_abs pad' = []" "frame_inv pad'"
    using mf_feed_frame [OF s5'(1), of K t5 "0xfe"] d by (simp_all add: p')
  then have "frame_len pad' = 0" by (auto simp: frame_abs_def frame_inv_def)
  moreover have "valid_frames pad' = valid_frames pad + 1"
    using mf_feed_decoded(1) [OF s5'(1), of K t5 "0xfe"] d s5'(3) by (simp add: p')
  moreover have "latest (axis pad' i) = mf_raw_of_frame [0xff, yl, xl, yr, xr, 0xfe] i" for i
    using mf_feed_decoded(2) [OF s5'(1)] d by (simp add: p')
  ultimately show ?thesis by (simp add: mf_raw_of_frame_def)
qed

theorem mf_decoder_resyncs_witness:
  "frame_len (mf_feeds ref_kernel (mf_feeds ref_kernel mf_pad_init [(0xff, 0), (7, 0), (0xff, 0)])
     [(0xff, 1), (10, 1), (20, 1), (30, 1), (40, 1), (0xfe, 1)]) = 0"
proof -
  have "pad_inv (mf_feeds ref_kernel mf_pad_init [(0xff, 0), (7, 0), (0xff, 0)])"
    by (simp add: mf_feed_inv mf_pad_init_inv)
  from mf_decoder_resyncs [OF this _ _ _ _ refl, of 10 20 30 40] show ?thesis by simp
qed

section \<open>An applied calibration is authoritative\<close>

text \<open>The calibration of an axis together with where its centre came from.\<close>

definition axis_cal :: "mf_axis \<Rightarrow> int \<times> int \<times> int \<times> int \<times> mf_zero_source \<times> mf_boot_state" where
  "axis_cal ax = (ax_min ax, saved_zero ax, runtime_zero ax, ax_max ax, zero_source ax, boot_state ax)"

lemma axis_cal_note_seen: "axis_cal (mf_note_seen ax raw) = axis_cal ax"
  by (simp add: axis_cal_def mf_note_seen_fields)

lemma mf_boot_run_finished:
  "mf_boot_finished (boot_state (axis pad i)) \<Longrightarrow> axis (mf_boot_run now pad) i = axis pad i"
  by (auto simp: mf_boot_run_def)

lemma mf_boot_collect_finished:
  "mf_boot_finished (boot_state (axis pad i)) \<Longrightarrow> axis (mf_boot_collect over pad raw) i = axis pad i"
  by (simp add: mf_boot_collect_def mf_boot_axis_def Let_def)

lemma mf_boot_note_finished:
  assumes inv: "boot_inv pad" and fin: "mf_boot_finished (boot_state (axis pad i))"
  shows "axis_cal (axis (mf_boot_note K now pad raw) i) = axis_cal (axis pad i)"
proof -
  define p1 where "p1 = pad\<lparr>axis := (\<lambda>i. mf_note_seen (axis pad i) (raw i))\<rparr>"
  define p2 where "p2 = (if boot_started p1 then p1 else mf_boot_begin now p1)"
  define p3 where "p3 = (if settle_phase p2 = MF_SETTLE_HW then mf_boot_run now p2 else p2)"
  have a1: "axis p1 i = mf_note_seen (axis pad i) (raw i)" by (simp add: p1_def)
  have f1: "mf_boot_finished (boot_state (axis p1 i))" using fin by (simp add: a1 mf_note_seen_fields)
  have "\<not> boot_started pad \<Longrightarrow> zero_source (axis pad i) = MF_ZERO_APPLY"
    using inv fin phase_inv_not_started [of pad i] by (auto simp: boot_inv_def)
  then have a2: "axis p2 i = axis p1 i"
    by (simp add: p2_def p1_def mf_boot_begin_def mf_note_seen_fields)
  then have a3: "axis p3 i = axis p1 i" using f1 by (simp add: p3_def mf_boot_run_finished)
  have "axis (mf_boot_note K now pad raw) i = axis p1 i"
    unfolding mf_boot_note_def Let_def p1_def [symmetric] p2_def [symmetric] p3_def [symmetric]
    using a2 a3 f1 by (simp add: mf_boot_collect_finished)
  then show ?thesis by (simp add: a1 axis_cal_note_seen)
qed

lemma mf_feed_finished:
  assumes "pad_inv pad" and "mf_boot_finished (boot_state (axis pad i))"
  shows "axis_cal (axis (mf_feed K now pad b) i) = axis_cal (axis pad i)"
proof -
  have "boot_inv pad" using assms(1) by (simp add: pad_inv_alt)
  then show ?thesis using assms(2)
    by (simp add: mf_feed_def Let_def mf_boot_note_finished split: option.split)
      (simp add: axis_cal_def mf_boot_note_finished [unfolded axis_cal_def])
qed

lemma axis_cal_finished:
  "axis_cal a = axis_cal b \<Longrightarrow> mf_boot_finished (boot_state a) = mf_boot_finished (boot_state b)"
  by (simp add: axis_cal_def)

lemma mf_receive_finished:
  assumes "pad_inv pad" and "mf_boot_finished (boot_state (axis pad i))"
  shows "axis_cal (axis (snd (mf_receive K pad buf)) i) = axis_cal (axis pad i)"
proof -
  have "axis_cal (axis (foldl (\<lambda>pad (b, now). mf_feed K now pad b) pad buf) i) = axis_cal (axis pad i)"
    using assms
  proof (induction buf arbitrary: pad)
    case (Cons bt buf)
    then show ?case
      by (cases bt) (simp add: mf_feed_inv mf_feed_finished axis_cal_finished [OF mf_feed_finished])
  qed simp
  then show ?thesis by (simp add: mf_receive_def)
qed

fun is_cal_left :: "mf_event \<Rightarrow> bool" where
  "is_cal_left (EvCalLeft _) = True"
| "is_cal_left _ = False"

lemma mf_step_left_finished:
  assumes inv: "pad_inv pad" and fin: "mf_boot_finished (boot_state (axis pad i))"
    and i: "i = MF_XL \<or> i = MF_YL" and e: "\<not> is_cal_left e"
  shows "axis_cal (axis (mf_step K pad e) i) = axis_cal (axis pad i)"
proof (cases e)
  case (EvReceive buf)
  with mf_receive_finished [OF inv fin] show ?thesis by simp
next
  case (EvDeadzone right buf)
  then show ?thesis by (simp add: mf_dz_store_def Let_def split: option.split)
next
  case (EvOpen ret)
  then show ?thesis by (cases ret) (simp_all add: mf_port_open_def)
qed (use i e in \<open>auto simp: calibration_right_store_def mf_cal_store_eq mf_port_close_def split: sum.split\<close>)

lemma mf_run_left_finished:
  assumes "pad_inv pad" and "mf_boot_finished (boot_state (axis pad i))"
    and "i = MF_XL \<or> i = MF_YL" and "\<forall>e\<in>set es. \<not> is_cal_left e"
  shows "axis_cal (axis (foldl (mf_step K) pad es) i) = axis_cal (axis pad i)"
  using assms
proof (induction es arbitrary: pad)
  case (Cons e es)
  note st = mf_step_left_finished [OF Cons.prems(1,2,3), of e K]
  with Cons show ?case
    by (simp add: mf_step_inv axis_cal_finished [OF st])
qed simp

text \<open>
  C3 (safety). "Apply is authoritative for this boot": once an \<^verbatim>\<open>apply\<close> line written to
  \<^verbatim>\<open>calibration_left\<close> is accepted, the left stick keeps exactly the written minimum, centre and
  maximum on both axes through any sequence of received frames (the boot-centre acquisition
  included), right-stick calibrations, deadzone writes, port closes and re-opens, until the
  next write to \<^verbatim>\<open>calibration_left\<close>.
\<close>

theorem mf_apply_authoritative:
  assumes inv: "pad_inv pad"
    and st: "calibration_left_store K pad buf = (Inr n, pad')"
    and rq: "mf_parse_cal buf = Inr rq" "rq_apply rq"
    and es: "\<forall>e\<in>set es. \<not> is_cal_left e"
    and fin: "fin = foldl (mf_step K) pad' es"
  shows "ax_min (axis fin MF_XL) = rq_xmin rq \<and> runtime_zero (axis fin MF_XL) = rq_xzero rq \<and>
    ax_max (axis fin MF_XL) = rq_xmax rq \<and>
    ax_min (axis fin MF_YL) = rq_ymin rq \<and> runtime_zero (axis fin MF_YL) = rq_yzero rq \<and>
    ax_max (axis fin MF_YL) = rq_ymax rq"
proof -
  have p': "pad' = mf_publish_stick K (cal_installed pad MF_XL MF_YL rq) MF_XL MF_YL"
    using st rq by (simp add: calibration_left_store_def mf_cal_store_eq split: if_splits)
  have inv': "pad_inv pad'"
    using mf_cal_store_inv [OF inv, of MF_XL MF_YL K buf] st by (simp add: calibration_left_store_def)
  have f: "mf_boot_finished (boot_state (axis pad' MF_XL))" "mf_boot_finished (boot_state (axis pad' MF_YL))"
    using rq by (simp_all add: p' mf_install_axis_def Let_def)
  have "axis_cal (axis fin MF_XL) = axis_cal (axis pad' MF_XL)"
    "axis_cal (axis fin MF_YL) = axis_cal (axis pad' MF_YL)"
    using mf_run_left_finished [OF inv' f(1) _ es, of K] mf_run_left_finished [OF inv' f(2) _ es, of K]
    by (simp_all add: fin)
  then show ?thesis using rq by (simp add: axis_cal_def p' mf_install_axis_def Let_def)
qed

abbreviation (input) demo_apply :: string where
  "demo_apply \<equiv> ''apply 10 120 240 12 125 235''"

lemma demo_apply_parse: "mf_parse_cal demo_apply = Inr \<lparr>rq_apply = True, rq_xmin = 10, rq_xzero = 120,
    rq_xmax = 240, rq_ymin = 12, rq_yzero = 125, rq_ymax = 235\<rparr>"
  by code_simp

lemma demo_apply_store:
  "calibration_left_store K mf_pad_init demo_apply =
     (Inr 27, snd (calibration_left_store K mf_pad_init demo_apply))"
  by (simp add: calibration_left_store_def mf_cal_store_eq demo_apply_parse cal_rejected_def
      mf_preflight_axis_def)

theorem mf_apply_authoritative_witness:
  "runtime_zero (axis (foldl (mf_step ref_kernel) (snd (calibration_left_store ref_kernel mf_pad_init demo_apply))
     [EvReceive [(0xff, 0), (1, 0)], EvClose]) MF_XL) = 120"
  using mf_apply_authoritative [OF mf_pad_init_inv demo_apply_store demo_apply_parse _ _ refl,
      of "[EvReceive [(0xff, 0), (1, 0)], EvClose]" ref_kernel]
  by simp

section \<open>Calibration writes\<close>

definition installed_as :: "mf_axis \<Rightarrow> bool \<Rightarrow> int \<Rightarrow> int \<Rightarrow> int \<Rightarrow> mf_axis \<Rightarrow> bool" where
  "installed_as ax is_apply lo z hi ax' \<longleftrightarrow>
     ax_min ax' = lo \<and> saved_zero ax' = z \<and> ax_max ax' = hi \<and>
     (if is_apply
      then runtime_zero ax' = z \<and> zero_source ax' = MF_ZERO_APPLY \<and> mf_boot_finished (boot_state ax')
      else if zero_source ax \<in> {MF_ZERO_DEFAULT, MF_ZERO_PERSISTED}
      then runtime_zero ax' = z \<and> zero_source ax' = MF_ZERO_PERSISTED
      else runtime_zero ax' = runtime_zero ax \<and> zero_source ax' = zero_source ax \<and>
        mf_center_in_range lo (runtime_zero ax) hi = None)"

lemma mf_install_axis_correct:
  "mf_preflight_axis ax ap lo z hi = None \<Longrightarrow> installed_as ax ap lo z hi (mf_install_axis ax lo z hi ap)"
  by (cases "zero_source ax"; cases ap)
    (auto simp: installed_as_def mf_install_axis_def mf_preflight_axis_def Let_def)

text \<open>
  A write to a calibration file: a rejected line leaves the whole driver state
  unchanged. An accepted line installs the ends and the saved centre of both axes; an
  \<^verbatim>\<open>apply\<close> also sets the runtime centre and ends that axis's acquisition; a \<^verbatim>\<open>restore\<close> adopts the
  supplied centre only while the runtime centre is the default or a persisted one, and
  otherwise keeps the boot or applied centre, which then still fits the new ends.
\<close>

theorem mf_cal_store_correct:
  assumes ne: "x_id \<noteq> y_id" and st: "mf_cal_store K pad x_id y_id buf = (res, pad')"
  shows "case res of Inl e \<Rightarrow> pad' = pad
    | Inr n \<Rightarrow> n = length buf \<and> (\<exists>rq. mf_parse_cal buf = Inr rq \<and>
        installed_as (axis pad x_id) (rq_apply rq) (rq_xmin rq) (rq_xzero rq) (rq_xmax rq) (axis pad' x_id) \<and>
        installed_as (axis pad y_id) (rq_apply rq) (rq_ymin rq) (rq_yzero rq) (rq_ymax rq) (axis pad' y_id) \<and>
        (\<forall>i. i \<noteq> x_id \<and> i \<noteq> y_id \<longrightarrow> axis pad' i = axis pad i))"
proof (cases "mf_parse_cal buf")
  case (Inl e)
  with st show ?thesis by (auto simp: mf_cal_store_eq)
next
  case (Inr rq)
  with st ne show ?thesis
    by (auto simp: mf_cal_store_eq cal_rejected_def mf_install_axis_correct split: if_splits)
qed

theorem mf_cal_store_correct_witness:
  "runtime_zero (axis (snd (mf_cal_store ref_kernel mf_pad_init MF_XL MF_YL demo_apply)) MF_YL) = 125"
proof -
  have "mf_cal_store ref_kernel mf_pad_init MF_XL MF_YL demo_apply =
      (Inr 27, snd (mf_cal_store ref_kernel mf_pad_init MF_XL MF_YL demo_apply))"
    using demo_apply_store [of ref_kernel] by (simp add: calibration_left_store_def)
  from mf_cal_store_correct [OF _ this] show ?thesis by (simp add: demo_apply_parse installed_as_def)
qed

section \<open>Boot-centre acquisition\<close>

text \<open>
  The acquisition moves the runtime centre of an axis only when it accepts:
  the axis was confirming a candidate, the new window of 31 samples is tight (each within 3 of
  its median), the median agrees with the candidate of the previous window within 2 and lies
  inside the active range by more than the deadband; the new centre is that median, which is
  the 16th smallest sample. Otherwise the calibration of the axis is untouched.
\<close>

theorem mf_boot_sample_accepts:
  assumes inv: "axis_inv ax" and open_st: "\<not> mf_boot_finished (boot_state ax)"
    and ax': "ax' = mf_boot_sample ax raw"
  shows "if boot_state ax' = MF_BOOT_ACCEPTED
    then boot_state ax = MF_BOOT_CONFIRM \<and> ax_n ax = 30 \<and>
      runtime_zero ax' = uint (sort (samples ax') ! 15) \<and>
      (\<forall>s\<in>set (samples ax'). \<bar>uint s - runtime_zero ax'\<bar> \<le> 3) \<and>
      \<bar>runtime_zero ax' - candidate ax\<bar> \<le> 2 \<and>
      ax_min ax + 2 < runtime_zero ax' \<and> runtime_zero ax' + 2 < ax_max ax \<and>
      zero_source ax' = MF_ZERO_BOOT
    else runtime_zero ax' = runtime_zero ax \<and> zero_source ax' = zero_source ax"
proof -
  define sm where "sm = (samples ax)[30 := raw]"
  have len: "length sm = 31" and n: "ax_n ax < 31" using inv by (simp_all add: sm_def axis_inv_def)
  have st: "mf_window_stable sm 31 = Some med \<Longrightarrow>
      med = sort sm ! 15 \<and> (\<forall>s\<in>set sm. \<bar>uint s - uint med\<bar> \<le> 3)" for med
    using mf_window_stable_spread [of sm 31 med] len by simp
  have na: "boot_state ax \<noteq> MF_BOOT_ACCEPTED" using open_st by auto
  show ?thesis
  proof (cases "Suc (ax_n ax) < 31")
    case True
    with na show ?thesis by (simp add: ax' mf_boot_sample_def)
  next
    case False
    then have n30: "ax_n ax = 30" using n by simp
    have e: "mf_boot_sample ax raw = (let ax = ax\<lparr>samples := sm, ax_n := 0, attempts := Suc (attempts ax)\<rparr> in
        case mf_window_stable sm 31 of None \<Rightarrow> ax\<lparr>candidate := - 1, boot_state := MF_BOOT_COLLECT\<rparr>
        | Some med \<Rightarrow>
            if boot_state ax \<noteq> MF_BOOT_CONFIRM then ax\<lparr>candidate := uint med, boot_state := MF_BOOT_CONFIRM\<rparr>
            else if \<bar>uint med - candidate ax\<bar> \<le> 2
            then (if mf_center_in_range (ax_min ax) (uint med) (ax_max ax) \<noteq> None
                  then ax\<lparr>settled := True, accepted := False, boot_state := MF_BOOT_RANGE_REJECTED\<rparr>
                  else ax\<lparr>runtime_zero := uint med, zero_source := MF_ZERO_BOOT, accepted := True,
                          settled := True, boot_state := MF_BOOT_ACCEPTED\<rparr>)
            else ax\<lparr>candidate := - 1, boot_state := MF_BOOT_COLLECT\<rparr>)"
      by (simp add: mf_boot_sample_def n30 Let_def sm_def)
    show ?thesis
    proof (cases "mf_window_stable sm 31")
      case None
      with n30 show ?thesis by (simp add: ax' e Let_def)
    next
      case (Some med)
      with st [OF Some] n30 show ?thesis
        by (simp add: ax' e Let_def) (auto simp: mf_center_in_range_None)
    qed
  qed
qed

definition demo_confirming :: mf_axis where
  "demo_confirming = (mf_axis_defaults mf_axis_zero ABS_X)\<lparr>samples := replicate 31 120, ax_n := 30,
     candidate := 121, boot_state := MF_BOOT_CONFIRM\<rparr>"

theorem mf_boot_sample_accepts_witness:
  "boot_state (mf_boot_sample demo_confirming 120) = MF_BOOT_ACCEPTED \<and>
   runtime_zero (mf_boot_sample demo_confirming 120) + 2 < 255"
proof -
  have i: "axis_inv demo_confirming" "\<not> mf_boot_finished (boot_state demo_confirming)"
    by (simp_all add: demo_confirming_def axis_inv_def mf_axis_defaults_def mf_axis_zero_def
        mf_center_in_range_def)
  have a: "boot_state (mf_boot_sample demo_confirming 120) = MF_BOOT_ACCEPTED" by code_simp
  from mf_boot_sample_accepts [OF i refl, of 120] a show ?thesis
    by (simp add: demo_confirming_def mf_axis_defaults_def)
qed

text \<open>
  The acquisition ends: the first frame that arrives after the collecting budget
  puts every axis in a final state and the pad in the done phase, without moving any centre.
\<close>

theorem mf_boot_budget_ends:
  assumes inv: "pad_inv pad" and run: "settle_phase pad = MF_SETTLE_RUN"
    and late: "k_time_after K now (boot_collect_jiffies pad + k_msecs_to_jiffies K 6000)"
    and pad': "pad' = mf_boot_note K now pad raw"
  shows "settle_phase pad' = MF_SETTLE_DONE \<and>
    (\<forall>i. mf_boot_finished (boot_state (axis pad' i)) \<and> runtime_zero (axis pad' i) = runtime_zero (axis pad i))"
proof -
  have st: "boot_started pad" using inv run by (simp add: pad_inv_def phase_inv_def)
  let ?p = "pad\<lparr>axis := (\<lambda>i. mf_note_seen (axis pad i) (raw i))\<rparr>"
  have e: "pad' = mf_boot_collect True ?p raw"
    using run st late by (simp add: pad' mf_boot_note_def Let_def)
  have f: "mf_boot_finished (boot_state (mf_boot_axis True ax r)) \<and>
      runtime_zero (mf_boot_axis True ax r) = runtime_zero ax" for ax r
    by (simp add: mf_boot_axis_def)
  have "axis pad' i = mf_boot_axis True (mf_note_seen (axis pad i) (raw i)) (raw i)" for i
    by (simp add: e mf_boot_collect_def Let_def)
  moreover have "settle_phase pad' = MF_SETTLE_DONE"
    using f by (simp add: e mf_boot_collect_def Let_def mf_axes_all)
  ultimately show ?thesis using f by (simp add: mf_note_seen_fields)
qed

definition demo_running :: mf_pad where
  "demo_running = mf_boot_run 2000 (mf_boot_begin 0 mf_pad_init)"

theorem mf_boot_budget_ends_witness:
  "settle_phase demo_running = MF_SETTLE_RUN \<and>
   settle_phase (mf_boot_note ref_kernel 8001 demo_running (\<lambda>_. 128)) = MF_SETTLE_DONE"
proof -
  have "boot_inv mf_pad_init" "\<not> boot_started mf_pad_init"
    using mf_pad_init_inv by (simp add: pad_inv_alt, simp add: mf_pad_init_def)
  then have "boot_inv demo_running" by (simp add: demo_running_def boot_inv_begin boot_inv_run)
  moreover have "out_inv demo_running" "frame_inv demo_running" "deadzone_left demo_running = 0"
    "deadzone_right demo_running = 0"
    by (simp_all add: demo_running_def mf_boot_run_def mf_boot_begin_def mf_pad_init_def out_inv_def frame_inv_def)
  ultimately have "pad_inv demo_running" by (simp add: pad_inv_alt)
  moreover have "k_time_after ref_kernel 8001 (boot_collect_jiffies demo_running + k_msecs_to_jiffies ref_kernel 6000)"
    by (simp add: demo_running_def mf_boot_run_def ref_kernel_def)
  ultimately show ?thesis
    using mf_boot_budget_ends [of demo_running ref_kernel 8001, OF _ _ _ refl] by (simp add: demo_running_def)
qed

end
