(* ===== verification/Gamepad_Device.thy ===== *)
theory Gamepad_Device
  imports Gamepad_Props
begin

text \<open>
  The rest of the gamepad driver: the GPIO buttons with their debounce work, the rumble motor
  behind the PWM, and the probe, remove, suspend and resume hooks. Results of kernel calls are
  inputs: the GPIO, IRQ and registration results come with the call, the PWM core is a record of
  two functions.
\<close>

section \<open>Buttons\<close>

record mf_btn =
  btn_code :: nat
  btn_label :: string
  debounce_ms :: nat
  btn_irq :: "nat option"
  btn_gpio :: nat
  btn_work_in :: "nat option"

text \<open>A child node of the firmware description, with the result of requesting its GPIO line.\<close>

record fw_node =
  has_gpios :: bool
  fw_code :: "nat option"
  fw_label :: "string option"
  fw_debounce :: "nat option"
  fw_gpio :: "mf_errno + nat"

fun mf_buttons_setup :: "fw_node list \<Rightarrow> mf_btn list \<Rightarrow> mf_errno option \<Rightarrow> mf_errno option \<times> mf_btn list" where
  "mf_buttons_setup [] btns ret = (ret, btns)"
| "mf_buttons_setup (nd # nds) btns ret =
     (if \<not> has_gpios nd then mf_buttons_setup nds btns ret
      else if length btns \<ge> 17 then mf_buttons_setup nds btns ret
      else case fw_code nd of None \<Rightarrow> mf_buttons_setup nds btns (Some EINVAL)
        | Some code \<Rightarrow>
          (case fw_gpio nd of Inl e \<Rightarrow> mf_buttons_setup nds btns (Some e)
           | Inr line \<Rightarrow> mf_buttons_setup nds
               (btns @ [\<lparr>btn_code = code, btn_label = (case fw_label nd of Some l \<Rightarrow> l | None \<Rightarrow> ''button''),
                  debounce_ms = (case fw_debounce nd of Some d \<Rightarrow> d | None \<Rightarrow> 10), btn_irq = None,
                  btn_gpio = line, btn_work_in = None\<rparr>]) ret))"

text \<open>\<open>irq_of\<close> is \<^verbatim>\<open>gpiod_to_irq\<close>, \<open>request\<close> the result of \<^verbatim>\<open>devm_request_irq\<close>.\<close>

fun mf_buttons_irqs :: "(nat \<Rightarrow> mf_errno + nat) \<Rightarrow> (nat \<Rightarrow> mf_errno option) \<Rightarrow> mf_btn list \<Rightarrow> mf_btn list \<Rightarrow>
    mf_errno option \<times> mf_btn list" where
  "mf_buttons_irqs irq_of request done [] = (None, done)"
| "mf_buttons_irqs irq_of request done (b # bs) =
     (case irq_of (btn_gpio b) of Inl e \<Rightarrow> (Some e, done @ b\<lparr>btn_irq := None\<rparr> # bs)
      | Inr irq \<Rightarrow>
        (case request irq of Some e \<Rightarrow> (Some e, done @ b\<lparr>btn_irq := None\<rparr> # bs)
         | None \<Rightarrow> mf_buttons_irqs irq_of request (done @ [b\<lparr>btn_irq := Some irq\<rparr>]) bs))"

text \<open>An edge (re)arms the delayed work; a zero interval waits one millisecond.\<close>

definition mf_btn_irq :: "mf_btn \<Rightarrow> mf_btn" where
  "mf_btn_irq b = b\<lparr>btn_work_in := Some (if debounce_ms b \<noteq> 0 then debounce_ms b else 1)\<rparr>"

text \<open>\<open>level\<close> is the GPIO value read, negative for an error.\<close>

definition mf_btn_work :: "int \<Rightarrow> mf_btn \<Rightarrow> mf_pad \<Rightarrow> mf_btn \<times> mf_pad" where
  "mf_btn_work level b pad =
     (let b = b\<lparr>btn_work_in := None\<rparr> in
      if level < 0 then (b, pad) else (b, report EvSyn (report (EvKey (btn_code b) level) pad)))"

text \<open>The disabled IRQ numbers, and the buttons with their work cancelled.\<close>

definition mf_buttons_stop :: "mf_btn list \<Rightarrow> nat list \<times> mf_btn list" where
  "mf_buttons_stop btns = (List.map_filter btn_irq btns, map (\<lambda>b. b\<lparr>btn_work_in := None\<rparr>) btns)"

section \<open>Rumble\<close>

record pwm_state =
  pwm_enabled :: bool
  pwm_duty :: nat
  pwm_period :: nat

text \<open>The PWM core: setting a relative duty cycle of a state, and the result of applying a state.\<close>

record pwm_api =
  pw_rel :: "pwm_state \<Rightarrow> nat \<Rightarrow> nat \<Rightarrow> mf_errno + pwm_state"
  pw_apply :: "pwm_state \<Rightarrow> mf_errno option"

record mf_rumble =
  pwm :: "pwm_state option"
  rumble_level :: u16
  rumble_ok :: bool
  rumble_work_pending :: bool

definition pwm_apply_might_sleep :: "pwm_api \<Rightarrow> pwm_state \<Rightarrow> mf_rumble \<Rightarrow> mf_errno option \<times> mf_rumble" where
  "pwm_apply_might_sleep P st r =
     (case pw_apply P st of Some e \<Rightarrow> (Some e, r) | None \<Rightarrow> (None, r\<lparr>pwm := Some st\<rparr>))"

definition mf_pwm_off :: "pwm_api \<Rightarrow> mf_rumble \<Rightarrow> mf_errno option \<times> mf_rumble" where
  "mf_pwm_off P r = (case pwm r of None \<Rightarrow> (None, r)
     | Some st \<Rightarrow> pwm_apply_might_sleep P (st\<lparr>pwm_enabled := False, pwm_duty := 0\<rparr>) r)"

definition mf_pwm_level :: "pwm_api \<Rightarrow> mf_rumble \<Rightarrow> u16 \<Rightarrow> mf_errno option \<times> mf_rumble" where
  "mf_pwm_level P r level = (case pwm r of None \<Rightarrow> (Some ENODEV, r)
     | Some st \<Rightarrow> if level = 0 then mf_pwm_off P r
         else (case pw_rel P st (unat level) 0xffff of Inl e \<Rightarrow> (Some e, r)
               | Inr st' \<Rightarrow> pwm_apply_might_sleep P (st'\<lparr>pwm_enabled := True\<rparr>) r))"

definition mf_rumble_work :: "pwm_api \<Rightarrow> mf_rumble \<Rightarrow> mf_rumble" where
  "mf_rumble_work P r = snd (mf_pwm_level P (r\<lparr>rumble_work_pending := False\<rparr>) (rumble_level r))"

definition mf_rumble_play :: "u16 \<Rightarrow> u16 \<Rightarrow> mf_rumble \<Rightarrow> mf_rumble" where
  "mf_rumble_play strong weak r =
     (let level = (if strong = 0 then weak else strong)
      in r\<lparr>rumble_level := level, rumble_work_pending := True\<rparr>)"

definition mf_rumble_stop :: "pwm_api \<Rightarrow> mf_rumble \<Rightarrow> mf_rumble" where
  "mf_rumble_stop P r = (if \<not> rumble_ok r then r
     else snd (mf_pwm_off P (r\<lparr>rumble_work_pending := False, rumble_level := 0\<rparr>)))"

definition mf_rumble_quiesce :: "pwm_api \<Rightarrow> mf_rumble \<Rightarrow> mf_rumble" where
  "mf_rumble_quiesce P r = (if \<not> rumble_ok r then r
     else snd (mf_pwm_off P (r\<lparr>rumble_work_pending := False\<rparr>)))"

definition mf_input_close :: "pwm_api \<Rightarrow> mf_rumble \<Rightarrow> mf_rumble" where
  "mf_input_close P r = mf_rumble_stop P r"

text \<open>\<open>got\<close> is the result of \<^verbatim>\<open>devm_pwm_get\<close> with the initial state of \<^verbatim>\<open>pwm_init_state\<close>.\<close>

definition mf_pwm_prepare :: "pwm_api \<Rightarrow> mf_errno + pwm_state \<Rightarrow> mf_rumble \<Rightarrow> mf_errno option \<times> mf_rumble" where
  "mf_pwm_prepare P got r =
     (case got of Inl e \<Rightarrow> (if e = EPROBE_DEFER then (Some e, r\<lparr>pwm := None\<rparr>) else (None, r\<lparr>pwm := None\<rparr>))
      | Inr st \<Rightarrow>
        (let st' = st\<lparr>pwm_enabled := False, pwm_duty := 0\<rparr> in
         case pw_apply P st' of Some e \<Rightarrow> (None, r\<lparr>pwm := None\<rparr>)
         | None \<Rightarrow> (None, r\<lparr>pwm := Some st', rumble_ok := True\<rparr>)))"

section \<open>Probe, remove, suspend, resume\<close>

record mf_dev =
  dev_pad :: mf_pad
  dev_rumble :: mf_rumble
  dev_buttons :: "mf_btn list"

text \<open>What the kernel answers during one probe.\<close>

record probe_env =
  pe_alloc_pad :: bool
  pe_alloc_input :: bool
  pe_nodes :: "fw_node list"
  pe_pwm :: "mf_errno + pwm_state"
  pe_ff :: "mf_errno option"
  pe_register :: "mf_errno option"
  pe_level :: "nat \<Rightarrow> int"
  pe_irq_of :: "nat \<Rightarrow> mf_errno + nat"
  pe_request :: "nat \<Rightarrow> mf_errno option"
  pe_group :: "mf_errno option"
  pe_open :: "mf_errno option"

definition mf_rumble_init :: mf_rumble where
  "mf_rumble_init = \<lparr>pwm = None, rumble_level = 0, rumble_ok = False, rumble_work_pending = False\<rparr>"

text \<open>The initial state of the keys, reported after registration.\<close>

definition mf_report_keys :: "(nat \<Rightarrow> int) \<Rightarrow> mf_btn list \<Rightarrow> mf_pad \<Rightarrow> mf_pad" where
  "mf_report_keys level btns pad =
     report EvSyn (fold (\<lambda>b pad. if level (btn_gpio b) \<ge> 0
        then report (EvKey (btn_code b) (level (btn_gpio b))) pad else pad) btns pad)"

definition mf_probe :: "pwm_api \<Rightarrow> probe_env \<Rightarrow> mf_errno + mf_dev" where
  "mf_probe P env =
     (if \<not> pe_alloc_pad env then Inl ENOMEM
      else if \<not> pe_alloc_input env then Inl ENOMEM
      else let (ret, btns) = mf_buttons_setup (pe_nodes env) [] None in
        if btns = [] then Inl (case ret of Some e \<Rightarrow> e | None \<Rightarrow> ENODEV)
        else case mf_pwm_prepare P (pe_pwm env) mf_rumble_init of
          (Some e, _) \<Rightarrow> Inl e
        | (None, r) \<Rightarrow>
          let r = (if rumble_ok r \<and> pe_ff env \<noteq> None then r\<lparr>rumble_ok := False\<rparr> else r) in
          case pe_register env of Some e \<Rightarrow> Inl e
          | None \<Rightarrow>
            let pad = mf_report_keys (pe_level env) btns mf_pad_init in
            case mf_buttons_irqs (pe_irq_of env) (pe_request env) [] btns of
              (Some e, _) \<Rightarrow> Inl e
            | (None, btns) \<Rightarrow>
              (case pe_group env of Some e \<Rightarrow> Inl e
               | None \<Rightarrow> Inr \<lparr>dev_pad = snd (mf_port_open pad (pe_open env)),
                               dev_rumble = r, dev_buttons = btns\<rparr>))"

definition mf_remove :: "pwm_api \<Rightarrow> mf_dev \<Rightarrow> mf_dev" where
  "mf_remove P d = d\<lparr>dev_pad := snd (mf_port_close (dev_pad d)),
     dev_rumble := mf_rumble_stop P (dev_rumble d),
     dev_buttons := snd (mf_buttons_stop (dev_buttons d))\<rparr>"

definition mf_suspend :: "pwm_api \<Rightarrow> mf_dev \<Rightarrow> mf_dev" where
  "mf_suspend P d = d\<lparr>dev_rumble := mf_rumble_quiesce P (dev_rumble d),
     dev_pad := snd (mf_port_close (dev_pad d))\<rparr>"

definition mf_resume :: "pwm_api \<Rightarrow> mf_errno option \<Rightarrow> mf_dev \<Rightarrow> mf_dev" where
  "mf_resume P ret d =
     (let r = dev_rumble d;
          r = (if rumble_ok r \<and> rumble_level r \<noteq> 0 then snd (mf_pwm_level P r (rumble_level r)) else r)
      in d\<lparr>dev_rumble := r, dev_pad := snd (mf_port_open (dev_pad d) ret)\<rparr>)"

section \<open>Buttons and probe\<close>

lemma mf_buttons_setup_count:
  "length btns \<le> 17 \<Longrightarrow> mf_buttons_setup nds btns ret = (ret', btns') \<Longrightarrow> length btns' \<le> 17"
  by (induction nds btns ret rule: mf_buttons_setup.induct) (auto split: if_splits option.splits sum.splits)

lemma mf_buttons_irqs_all:
  "mf_buttons_irqs irq_of request done bs = (None, bs') \<Longrightarrow> \<forall>b\<in>set done. btn_irq b \<noteq> None \<Longrightarrow>
   length bs' = length done + length bs \<and> (\<forall>b\<in>set bs'. btn_irq b \<noteq> None)"
  by (induction irq_of request "done" bs rule: mf_buttons_irqs.induct) (auto split: sum.splits option.splits)

lemma mf_report_keys_inv: "pad_inv pad \<Longrightarrow> pad_inv (mf_report_keys level btns pad)"
proof -
  have key: "pad_inv (report (EvKey c v) p) = pad_inv p" "pad_inv (report EvSyn p) = pad_inv p" for c v p
    by (auto simp: pad_inv_def phase_inv_def out_inv_def frame_inv_def)
  assume "pad_inv pad"
  then have "pad_inv (fold (\<lambda>b pad. if level (btn_gpio b) \<ge> 0
      then report (EvKey (btn_code b) (level (btn_gpio b))) pad else pad) btns pad)"
    by (induction btns arbitrary: pad) (simp_all add: key)
  then show ?thesis by (simp add: mf_report_keys_def key)
qed

lemma mf_pwm_prepare_off:
  "mf_pwm_prepare P got mf_rumble_init = (None, r) \<Longrightarrow>
   (case pwm r of None \<Rightarrow> True | Some st \<Rightarrow> \<not> pwm_enabled st \<and> pwm_duty st = 0) \<and> (rumble_ok r \<longrightarrow> pwm r \<noteq> None) \<and>
   rumble_level r = 0 \<and> \<not> rumble_work_pending r"
  by (auto simp: mf_pwm_prepare_def mf_rumble_init_def Let_def split: sum.splits option.splits if_splits)

text \<open>
  A successful probe leaves a device that satisfies the pad invariant, with
  between one and seventeen buttons, an interrupt on each of them, a motor that is off, and the
  port open exactly when the serial device could be opened.
\<close>

theorem mf_probe_correct:
  assumes "mf_probe P env = Inr d"
  shows "pad_inv (dev_pad d) \<and> 1 \<le> length (dev_buttons d) \<and> length (dev_buttons d) \<le> 17 \<and>
    (\<forall>b\<in>set (dev_buttons d). btn_irq b \<noteq> None) \<and>
    (case pwm (dev_rumble d) of None \<Rightarrow> True | Some st \<Rightarrow> \<not> pwm_enabled st) \<and>
    (port_open (dev_pad d) \<longleftrightarrow> pe_open env = None)"
proof -
  obtain ret btns r btns' where b: "mf_buttons_setup (pe_nodes env) [] None = (ret, btns)" "btns \<noteq> []"
    and r: "mf_pwm_prepare P (pe_pwm env) mf_rumble_init = (None, r)"
    and irq: "mf_buttons_irqs (pe_irq_of env) (pe_request env) [] btns = (None, btns')"
    and d: "dev_pad d = snd (mf_port_open (mf_report_keys (pe_level env) btns mf_pad_init) (pe_open env))"
      "dev_buttons d = btns'" "pwm (dev_rumble d) = pwm r"
    using assms by (auto simp: mf_probe_def Let_def split: if_splits prod.splits option.splits)
  have "pad_inv (dev_pad d)"
    using mf_step_inv [OF mf_report_keys_inv [OF mf_pad_init_inv], where e = "EvOpen (pe_open env)"] d by simp
  moreover have "port_open (mf_report_keys l bs mf_pad_init) = False" for l bs
  proof -
    have "port_open (fold (\<lambda>b pad. if l (btn_gpio b) \<ge> 0 then report (EvKey (btn_code b) (l (btn_gpio b))) pad
        else pad) bs p) = port_open p" for p
      by (induction bs arbitrary: p) simp_all
    then show ?thesis by (simp add: mf_report_keys_def mf_pad_init_def)
  qed
  ultimately show ?thesis
    using mf_buttons_setup_count [OF _ b(1)] mf_buttons_irqs_all [OF irq] b(2) mf_pwm_prepare_off [OF r] d
    by (auto simp: mf_port_open_def Suc_le_eq split: option.splits)
qed

definition demo_pwm :: pwm_api where
  "demo_pwm = \<lparr>pw_rel = (\<lambda>st n s. Inr (st\<lparr>pwm_duty := pwm_period st * n div s\<rparr>)), pw_apply = (\<lambda>_. None)\<rparr>"

definition demo_env :: probe_env where
  "demo_env = \<lparr>pe_alloc_pad = True, pe_alloc_input = True,
     pe_nodes = [\<lparr>has_gpios = True, fw_code = Some 304, fw_label = None, fw_debounce = None, fw_gpio = Inr 3\<rparr>],
     pe_pwm = Inr \<lparr>pwm_enabled = True, pwm_duty = 7, pwm_period = 1000\<rparr>, pe_ff = None, pe_register = None,
     pe_level = (\<lambda>_. 0), pe_irq_of = (\<lambda>g. Inr (g + 40)), pe_request = (\<lambda>_. None), pe_group = None,
     pe_open = None\<rparr>"

theorem mf_probe_correct_witness:
  "\<exists>d. mf_probe demo_pwm demo_env = Inr d \<and> length (dev_buttons d) \<le> 17 \<and> port_open (dev_pad d)"
proof -
  obtain d where d: "mf_probe demo_pwm demo_env = Inr d"
    by (simp add: mf_probe_def demo_env_def demo_pwm_def mf_pwm_prepare_def Let_def)
  from mf_probe_correct [OF d] d show ?thesis by (simp add: demo_env_def)
qed

section \<open>The motor across suspend\<close>

text \<open>
  A PWM core that does what its documentation says: applying a state succeeds, and a relative
  duty cycle sets the duty to a function \<open>rel\<close> of the period and the level.
\<close>

definition pwm_works :: "pwm_api \<Rightarrow> (nat \<Rightarrow> nat \<Rightarrow> nat) \<Rightarrow> bool" where
  "pwm_works P rel \<longleftrightarrow> (\<forall>st. pw_apply P st = None) \<and>
     (\<forall>st n. pw_rel P st n 0xffff = Inr (st\<lparr>pwm_duty := rel (pwm_period st) n\<rparr>))"

definition motor_at :: "(nat \<Rightarrow> nat \<Rightarrow> nat) \<Rightarrow> nat \<Rightarrow> u16 \<Rightarrow> pwm_state" where
  "motor_at rel period level = (if level = 0 then \<lparr>pwm_enabled = False, pwm_duty = 0, pwm_period = period\<rparr>
     else \<lparr>pwm_enabled = True, pwm_duty = rel period (unat level), pwm_period = period\<rparr>)"

lemma mf_pwm_level_works:
  "pwm_works P rel \<Longrightarrow> pwm r = Some st \<Longrightarrow>
   mf_pwm_level P r level = (None, r\<lparr>pwm := Some (motor_at rel (pwm_period st) level)\<rparr>)"
  by (cases st) (simp add: mf_pwm_level_def mf_pwm_off_def pwm_apply_might_sleep_def pwm_works_def motor_at_def)

lemma mf_pwm_off_works:
  "pwm_works P rel \<Longrightarrow> pwm r = Some st \<Longrightarrow>
   mf_pwm_off P r = (None, r\<lparr>pwm := Some (motor_at rel (pwm_period st) 0)\<rparr>)"
  by (cases st) (simp add: mf_pwm_off_def pwm_apply_might_sleep_def pwm_works_def motor_at_def)

text \<open>
  Suspend stops the motor, cancels the pending work, closes the port and
  keeps the requested level; resume then drives the motor at exactly that level, the state the
  cancelled work would have produced, so an effect that was still active restarts and one that
  was stopped does not. Closing the device instead drops the level and leaves the motor off.
\<close>

theorem mf_suspend_resume_motor:
  assumes P: "pwm_works P rel" and ok: "rumble_ok (dev_rumble d)" and st: "pwm (dev_rumble d) = Some st"
    and s: "s = mf_suspend P d" and r: "r = mf_resume P ret s"
  shows "pwm (dev_rumble s) = Some (motor_at rel (pwm_period st) 0) \<and> \<not> rumble_work_pending (dev_rumble s) \<and>
    rumble_level (dev_rumble s) = rumble_level (dev_rumble d) \<and> \<not> port_open (dev_pad s) \<and>
    pwm (dev_rumble r) = Some (motor_at rel (pwm_period st) (rumble_level (dev_rumble d))) \<and>
    pwm (dev_rumble r) = pwm (mf_rumble_work P (dev_rumble d)) \<and>
    pwm (mf_input_close P (dev_rumble d)) = Some (motor_at rel (pwm_period st) 0) \<and>
    rumble_level (mf_input_close P (dev_rumble d)) = 0"
proof -
  have q: "dev_rumble s = (dev_rumble d)\<lparr>rumble_work_pending := False, pwm := Some (motor_at rel (pwm_period st) 0)\<rparr>"
    using ok st by (simp add: s mf_suspend_def mf_rumble_quiesce_def mf_pwm_off_works [OF P])
  have per: "pwm_period (motor_at rel p l) = p" for p l by (simp add: motor_at_def)
  have "pwm (dev_rumble r) = Some (motor_at rel (pwm_period st) (rumble_level (dev_rumble d)))"
    using ok by (simp add: r mf_resume_def Let_def q mf_pwm_level_works [OF P] per)
  moreover have "pwm (mf_rumble_work P (dev_rumble d)) = Some (motor_at rel (pwm_period st) (rumble_level (dev_rumble d)))"
    using st by (simp add: mf_rumble_work_def mf_pwm_level_works [OF P])
  moreover have "\<not> port_open (dev_pad s)" by (simp add: s mf_suspend_def mf_port_close_def)
  ultimately show ?thesis
    using q ok st by (simp add: mf_input_close_def mf_rumble_stop_def mf_pwm_off_works [OF P])
qed

definition demo_dev :: mf_dev where
  "demo_dev = \<lparr>dev_pad = mf_pad_init,
     dev_rumble = \<lparr>pwm = Some \<lparr>pwm_enabled = False, pwm_duty = 0, pwm_period = 65535\<rparr>,
       rumble_level = 500, rumble_ok = True, rumble_work_pending = True\<rparr>, dev_buttons = []\<rparr>"

theorem mf_suspend_resume_motor_witness:
  "pwm (dev_rumble (mf_resume demo_pwm None (mf_suspend demo_pwm demo_dev))) =
     Some \<lparr>pwm_enabled = True, pwm_duty = 500, pwm_period = 65535\<rparr>"
proof -
  have "pwm_works demo_pwm (\<lambda>p n. p * n div 0xffff)" by (simp add: pwm_works_def demo_pwm_def)
  from mf_suspend_resume_motor [OF this _ _ refl refl, of demo_dev] show ?thesis
    by (simp add: demo_dev_def motor_at_def)
qed

end
