(* ===== verification/Joystick_Cal.thy ===== *)
theory Joystick_Cal
  imports C_Strings
begin

text \<open>
  The calibration library of the joystick tool
  (\<^verbatim>\<open>package/system/nextui/zlyme/joystick-cal/cal_logic.c\<close>): the parsers of the calibration file,
  of the driver's raw sample line and of the deadzone file, the capture of a range and a centre,
  the printers, and the commit of a calibration to the driver and to the file system.
\<close>

section \<open>Data\<close>

record cal_cfg =
  x_min :: int
  x_max :: int
  x_zero :: int
  y_min :: int
  y_max :: int
  y_zero :: int

record cal_cap =
  cp_x_min :: int
  cp_x_max :: int
  cp_y_min :: int
  cp_y_max :: int
  range_n :: int
  zx_sum :: int
  zy_sum :: int
  zero_n :: int
  zx_lo :: int
  zx_hi :: int
  zy_lo :: int
  zy_hi :: int

abbreviation (input) CAL_DEADBAND :: int where "CAL_DEADBAND \<equiv> 2"
abbreviation (input) CAL_MIN_SPAN :: int where "CAL_MIN_SPAN \<equiv> 40"
abbreviation (input) CAL_CENTER_SAMPLES :: int where "CAL_CENTER_SAMPLES \<equiv> 12"
abbreviation (input) CAL_CENTER_SPREAD :: int where "CAL_CENTER_SPREAD \<equiv> 3"

text \<open>The checks return true where the code returns 0.\<close>

definition cal_center_ok :: "int \<Rightarrow> int \<Rightarrow> int \<Rightarrow> bool" where
  "cal_center_ok mn zero mx =
     (if mn < 0 \<or> zero < 0 \<or> mx < 0 \<or> mn > 255 \<or> zero > 255 \<or> mx > 255 then False
      else if \<not> (mn < zero \<and> zero < mx) then False
      else if zero - mn \<le> CAL_DEADBAND \<or> mx - zero \<le> CAL_DEADBAND then False
      else True)"

definition cal_cfg_ok :: "cal_cfg \<Rightarrow> bool" where
  "cal_cfg_ok cfg = (if \<not> cal_center_ok (x_min cfg) (x_zero cfg) (x_max cfg) then False
     else if \<not> cal_center_ok (y_min cfg) (y_zero cfg) (y_max cfg) then False else True)"

section \<open>The calibration file\<close>

abbreviation (input) e_invalid :: string where "e_invalid \<equiv> ''invalid field''"
abbreviation (input) e_duplicate :: string where "e_duplicate \<equiv> ''duplicate field''"
abbreviation (input) e_missing :: string where "e_missing \<equiv> ''missing field''"

definition cal_keys :: "string list" where
  "cal_keys = [''x_min'', ''x_max'', ''y_min'', ''y_max'', ''x_zero'', ''y_zero'']"

fun key_index :: "string \<Rightarrow> string list \<Rightarrow> nat \<Rightarrow> nat option" where
  "key_index k [] i = None"
| "key_index k (x # xs) i = (if k = x then Some i else key_index k xs (Suc i))"

text \<open>A slot is set once: \<open>None\<close> is the failure of \<^verbatim>\<open>field_set\<close>.\<close>

definition field_set :: "int option list \<Rightarrow> nat \<Rightarrow> int \<Rightarrow> int option list option" where
  "field_set slots i v = (if slots ! i \<noteq> None then None else Some (slots[i := Some v]))"

definition cal_parse_line :: "int option list \<Rightarrow> string \<Rightarrow> string + int option list" where
  "cal_parse_line slots line =
     (if length line \<ge> 64 then Inl e_invalid
      else if line = [] \<or> hd line = CHR ''#'' then Inr slots
      else case split_eq line of None \<Rightarrow> Inl e_invalid
        | Some (key, val) \<Rightarrow>
          if key = [] \<or> val = [] then Inl e_invalid
          else if \<not> list_all is_digit val then Inl e_invalid
          else let (v, errno, end) = strtol10 val in
            if errno \<or> end \<noteq> [] \<or> v < 0 \<or> v > 255 then Inl e_invalid
            else case key_index key cal_keys 0 of None \<Rightarrow> Inl e_invalid
              | Some i \<Rightarrow> (case field_set slots i v of None \<Rightarrow> Inl e_duplicate | Some slots' \<Rightarrow> Inr slots'))"

text \<open>The error, \<open>None\<close> for success, and the structure \<open>cfg\<close> points at afterwards. It is written
  before the final range check, so that check can fail with the fields already stored.\<close>

definition cal_parse :: "string option \<Rightarrow> cal_cfg \<Rightarrow> string option \<times> cal_cfg" where
  "cal_parse text cfg =
     (case text of None \<Rightarrow> (Some e_invalid, cfg)
      | Some p \<Rightarrow>
        (case scan_lines cal_parse_line (replicate 6 None) p of Inl e \<Rightarrow> (Some e, cfg)
         | Inr slots \<Rightarrow>
           if None \<in> set slots then (Some e_missing, cfg)
           else let v = (\<lambda>i. the (slots ! i));
                    cfg = \<lparr>x_min = v 0, x_max = v 1, x_zero = v 4, y_min = v 2, y_max = v 3, y_zero = v 5\<rparr>
                in if \<not> cal_cfg_ok cfg then (Some e_invalid, cfg) else (None, cfg)))"

section \<open>The raw sample line\<close>

definition cal_map_stick :: "bool \<Rightarrow> int \<Rightarrow> int \<Rightarrow> int \<Rightarrow> int \<Rightarrow> int \<times> int" where
  "cal_map_stick right yl xl yr xr = (if right then (xr, yr) else (xl, yl))"

abbreviation (input) e_malformed :: string where "e_malformed \<equiv> ''malformed raw''"
abbreviation (input) e_incomplete :: string where "e_incomplete \<equiv> ''incomplete raw''"

definition raw_keys :: "string list" where
  "raw_keys = [''YL'', ''XL'', ''YR'', ''XR'']"

definition is_key_char :: "char \<Rightarrow> bool" where
  "is_key_char c \<longleftrightarrow> c \<noteq> CHR ''='' \<and> c \<noteq> CHR '' '' \<and> c \<noteq> c_tab \<and> c \<noteq> c_nl"

text \<open>One turn of the token loop after the blanks: \<open>p\<close> is not at the end of the line.\<close>

definition raw_token :: "int option list \<Rightarrow> string \<Rightarrow> string + (int option list \<times> string)" where
  "raw_token slots p =
     (let key = takeWhile is_key_char p; p = dropWhile is_key_char p in
      if length key > 7 then Inl e_malformed
      else if p = [] \<or> hd p \<noteq> CHR ''='' \<or> key = [] then Inl e_malformed
      else let p = tl p in
        if p = [] \<or> \<not> is_digit (hd p) then Inl e_malformed
        else let (v, errno, end) = strtol10 p in
          if errno \<or> end = p \<or> v < 0 \<or> v > 255 then Inl e_malformed
          else case key_index key raw_keys 0 of None \<Rightarrow> Inl e_malformed
            | Some i \<Rightarrow> if slots ! i \<noteq> None then Inl e_malformed else Inr (slots[i := Some v], end))"

lemma strtol10_rest: "length (snd (snd (strtol10 s))) \<le> length s"
proof -
  let ?s1 = "dropWhile is_space s"
  have "length (dropWhile is_digit (tl ?s1)) \<le> length s" "length (dropWhile is_digit ?s1) \<le> length s"
    using length_dropWhile_le [of is_digit "tl ?s1"] length_dropWhile_le [of is_digit ?s1]
      length_dropWhile_le [of is_space s] by auto
  then show ?thesis by (simp add: strtol10_def Let_def)
qed

lemma raw_token_shrinks: "raw_token slots p = Inr (slots', p') \<Longrightarrow> length p' < length p"
proof -
  assume r: "raw_token slots p = Inr (slots', p')"
  let ?q = "dropWhile is_key_char p"
  have q: "?q \<noteq> []" and p': "p' = snd (snd (strtol10 (tl ?q)))"
    using r by (auto simp: raw_token_def Let_def split: if_splits prod.splits option.splits)
  have "length p' \<le> length (tl ?q)" unfolding p' by (rule strtol10_rest)
  also have "\<dots> < length ?q" using q by simp
  also have "\<dots> \<le> length p" by (rule length_dropWhile_le)
  finally show ?thesis .
qed

function raw_tokens :: "int option list \<Rightarrow> string \<Rightarrow> string + (int option list \<times> string)" where
  "raw_tokens slots p =
     (if p = [] \<or> hd p = c_nl then Inr (slots, p)
      else let q = dropWhile is_blank p in
        if q = [] \<or> hd q = c_nl then Inr (slots, q)
        else case raw_token slots q of Inl e \<Rightarrow> Inl e
          | Inr (slots', r) \<Rightarrow> raw_tokens slots' r)"
  by pat_completeness auto
termination
proof (relation "measure (\<lambda>(slots, p). length p)", goal_cases)
  case (2 slots p q sp slots' r)
  then have "length r < length q" by (intro raw_token_shrinks [of slots q slots']) simp
  also have "\<dots> \<le> length p" using 2 by (simp add: length_dropWhile_le)
  finally show ?case by simp
qed simp

declare raw_tokens.simps [simp del]

definition cal_parse_raw :: "string option \<Rightarrow> string + (int \<times> int \<times> int \<times> int)" where
  "cal_parse_raw text =
     (case text of None \<Rightarrow> Inl e_malformed
      | Some t \<Rightarrow>
        let p = dropWhile is_blank t in
        if p = [] \<or> hd p = c_nl then Inl e_incomplete
        else case raw_tokens (replicate 4 None) p of Inl e \<Rightarrow> Inl e
          | Inr (slots, p) \<Rightarrow>
            let p = (if p \<noteq> [] \<and> hd p = c_nl then tl p else p);
                p = dropWhile (\<lambda>c. is_blank c \<or> c = c_nl) p
            in if p \<noteq> [] then Inl e_malformed
               else if None \<in> set slots then Inl e_incomplete
               else Inr (the (slots ! 0), the (slots ! 1), the (slots ! 2), the (slots ! 3)))"

section \<open>The deadzone file\<close>

definition dz_num :: "string \<Rightarrow> int option" where
  "dz_num s = (if s = [] then None
     else let (v, errno, end) = strtol10 s in
       if errno \<or> end = s \<or> end \<noteq> [] \<or> v < 0 \<or> v > 30 then None else Some v)"

record dz_state =
  dz_l :: int
  dz_r :: int
  dz_seen_l :: bool
  dz_seen_r :: bool
  dz_bad :: bool

definition dz_line :: "dz_state \<Rightarrow> string \<Rightarrow> unit + dz_state" where
  "dz_line st line0 =
     (if length line0 \<ge> 64 then Inr (st\<lparr>dz_bad := True\<rparr>)
      else if line0 = [] \<or> hd line0 = CHR ''#'' then Inr st
      else let line = (if last line0 = c_cr then butlast line0 else line0) in
        case split_eq line of None \<Rightarrow> Inr (st\<lparr>dz_bad := True\<rparr>)
        | Some (key, val) \<Rightarrow>
          if key = [] then Inr (st\<lparr>dz_bad := True\<rparr>)
          else if key = ''left''
          then (case (if dz_seen_l st then None else dz_num val) of
                  None \<Rightarrow> Inr (st\<lparr>dz_l := 0, dz_bad := True, dz_seen_l := True\<rparr>)
                | Some v \<Rightarrow> Inr (st\<lparr>dz_l := v, dz_seen_l := True\<rparr>))
          else if key = ''right''
          then (case (if dz_seen_r st then None else dz_num val) of
                  None \<Rightarrow> Inr (st\<lparr>dz_r := 0, dz_bad := True, dz_seen_r := True\<rparr>)
                | Some v \<Rightarrow> Inr (st\<lparr>dz_r := v, dz_seen_r := True\<rparr>))
          else Inr (st\<lparr>dz_bad := True\<rparr>))"

definition dz_init :: dz_state where
  "dz_init = \<lparr>dz_l = 0, dz_r = 0, dz_seen_l = False, dz_seen_r = False, dz_bad = False\<rparr>"

text \<open>The result is whether the text was bad, and the two percentages. The line loop never
  leaves early.\<close>

definition cal_parse_deadzone :: "string option \<Rightarrow> bool \<times> int \<times> int" where
  "cal_parse_deadzone text =
     (case scan_lines dz_line dz_init (case text of None \<Rightarrow> [] | Some t \<Rightarrow> t) of
        Inr st \<Rightarrow> (dz_bad st, dz_l st, dz_r st)
      | Inl _ \<Rightarrow> (True, 0, 0))"

section \<open>Capture\<close>

definition cal_cap_reset :: cal_cap where
  "cal_cap_reset = \<lparr>cp_x_min = 255, cp_x_max = 0, cp_y_min = 255, cp_y_max = 0, range_n = 0,
     zx_sum = 0, zy_sum = 0, zero_n = 0, zx_lo = 255, zx_hi = 0, zy_lo = 255, zy_hi = 0\<rparr>"

definition cal_cap_add_range :: "cal_cap \<Rightarrow> int \<Rightarrow> int \<Rightarrow> cal_cap" where
  "cal_cap_add_range cap x y =
     (if x < 0 \<or> x > 255 \<or> y < 0 \<or> y > 255 then cap
      else let cap = (if x < cp_x_min cap then cap\<lparr>cp_x_min := x\<rparr> else cap);
               cap = (if x > cp_x_max cap then cap\<lparr>cp_x_max := x\<rparr> else cap);
               cap = (if y < cp_y_min cap then cap\<lparr>cp_y_min := y\<rparr> else cap);
               cap = (if y > cp_y_max cap then cap\<lparr>cp_y_max := y\<rparr> else cap)
           in cap\<lparr>range_n := range_n cap + 1\<rparr>)"

definition cal_cap_add_center :: "cal_cap \<Rightarrow> int \<Rightarrow> int \<Rightarrow> cal_cap" where
  "cal_cap_add_center cap x y =
     (if x < 0 \<or> x > 255 \<or> y < 0 \<or> y > 255 then cap
      else let cap = cap\<lparr>zx_sum := zx_sum cap + x, zy_sum := zy_sum cap + y\<rparr>;
               cap = (if zero_n cap = 0 \<or> x < zx_lo cap then cap\<lparr>zx_lo := x\<rparr> else cap);
               cap = (if x > zx_hi cap then cap\<lparr>zx_hi := x\<rparr> else cap);
               cap = (if zero_n cap = 0 \<or> y < zy_lo cap then cap\<lparr>zy_lo := y\<rparr> else cap);
               cap = (if y > zy_hi cap then cap\<lparr>zy_hi := y\<rparr> else cap)
           in cap\<lparr>zero_n := zero_n cap + 1\<rparr>)"

definition cal_center_window_reset :: "cal_cap \<Rightarrow> cal_cap" where
  "cal_center_window_reset cap = cap\<lparr>zx_sum := 0, zy_sum := 0, zero_n := 0, zx_lo := 255, zy_lo := 255,
     zx_hi := 0, zy_hi := 0\<rparr>"

definition cal_range_ready :: "cal_cap option \<Rightarrow> bool" where
  "cal_range_ready capo = (case capo of None \<Rightarrow> False | Some cap \<Rightarrow>
     if range_n cap < 20 then False
     else if cp_x_max cap - cp_x_min cap < CAL_MIN_SPAN then False
     else if cp_y_max cap - cp_y_min cap < CAL_MIN_SPAN then False else True)"

definition cal_center_window_stable :: "cal_cap option \<Rightarrow> bool" where
  "cal_center_window_stable capo = (case capo of None \<Rightarrow> False | Some cap \<Rightarrow>
     if zero_n cap < CAL_CENTER_SAMPLES then False
     else if zx_hi cap - zx_lo cap > CAL_CENTER_SPREAD then False
     else if zy_hi cap - zy_lo cap > CAL_CENTER_SPREAD then False else True)"

text \<open>As in the parser, the fields are stored before the last check.\<close>

definition cal_cap_finish :: "cal_cap option \<Rightarrow> cal_cfg \<Rightarrow> string option \<times> cal_cfg" where
  "cal_cap_finish capo cfg =
     (case capo of None \<Rightarrow> (Some ''Not enough movement'', cfg) | Some cap \<Rightarrow>
      if range_n cap < 20 then (Some ''Not enough movement'', cfg)
      else if cp_x_max cap - cp_x_min cap < CAL_MIN_SPAN \<or> cp_y_max cap - cp_y_min cap < CAL_MIN_SPAN
      then (Some ''Insufficient movement'', cfg)
      else if zero_n cap < CAL_CENTER_SAMPLES then (Some ''Not enough center samples'', cfg)
      else if zx_hi cap - zx_lo cap > CAL_CENTER_SPREAD \<or> zy_hi cap - zy_lo cap > CAL_CENTER_SPREAD
      then (Some ''Unstable center'', cfg)
      else let cfg = \<lparr>x_min = cp_x_min cap, x_max = cp_x_max cap, x_zero = zx_sum cap sdiv zero_n cap,
                      y_min = cp_y_min cap, y_max = cp_y_max cap, y_zero = zy_sum cap sdiv zero_n cap\<rparr>
           in if \<not> cal_cfg_ok cfg then (Some ''Center is outside the captured range'', cfg) else (None, cfg))"

section \<open>Printing and committing\<close>

text \<open>\<open>None\<close> when the output does not fit the buffer of \<open>len\<close> bytes.\<close>

definition c_snprintf :: "nat \<Rightarrow> string \<Rightarrow> string option" where
  "c_snprintf len s = (if length s \<ge> len then None else Some s)"

definition cal_format :: "cal_cfg \<Rightarrow> nat \<Rightarrow> string option" where
  "cal_format cfg len = c_snprintf len
     (''x_min='' @ dec_int (x_min cfg) @ [c_nl] @ ''x_max='' @ dec_int (x_max cfg) @ [c_nl] @
      ''y_min='' @ dec_int (y_min cfg) @ [c_nl] @ ''y_max='' @ dec_int (y_max cfg) @ [c_nl] @
      ''x_zero='' @ dec_int (x_zero cfg) @ [c_nl] @ ''y_zero='' @ dec_int (y_zero cfg) @ [c_nl])"

definition cal_apply_line :: "cal_cfg \<Rightarrow> nat \<Rightarrow> string option" where
  "cal_apply_line cfg len = c_snprintf len
     (''apply '' @ dec_int (x_min cfg) @ '' '' @ dec_int (x_zero cfg) @ '' '' @ dec_int (x_max cfg) @ '' '' @
      dec_int (y_min cfg) @ '' '' @ dec_int (y_zero cfg) @ '' '' @ dec_int (y_max cfg) @ [c_nl])"

text \<open>
  A file system maps paths to contents. The outcome of each system call is an input;
  \<open>wr_part\<close> is what a failed write left in the file.
\<close>

type_synonym fs = "string \<rightharpoonup> string"

record io_env =
  io_open :: bool
  io_write :: bool
  io_part :: string
  io_close :: bool
  io_rename :: bool

text \<open>The file systems after each system call, first to last, and whether all succeeded.\<close>

definition cal_write_atomic :: "io_env \<Rightarrow> string \<Rightarrow> cal_cfg \<Rightarrow> fs \<Rightarrow> bool \<times> fs list" where
  "cal_write_atomic io path cfg fs =
     (case cal_format cfg 256 of None \<Rightarrow> (False, [fs])
      | Some body \<Rightarrow>
        (case c_snprintf 512 (path @ ''.tmp'') of None \<Rightarrow> (False, [fs])
         | Some tmp \<Rightarrow>
           if \<not> io_open io then (False, [fs])
           else let fs1 = fs(tmp \<mapsto> []) in
             if \<not> io_write io
             then (False, [fs, fs1, fs1(tmp \<mapsto> io_part io), fs1(tmp := None)])
             else let fs2 = fs1(tmp \<mapsto> body) in
               if \<not> io_close io then (False, [fs, fs1, fs2, fs2(tmp := None)])
               else if \<not> io_rename io then (False, [fs, fs1, fs2, fs2(tmp := None)])
               else (True, [fs, fs1, fs2, (fs2(path \<mapsto> body))(tmp := None)])))"

text \<open>The exit code, the message, the device and the file system. \<open>app\<close> is the callback that
  writes the driver's attribute.\<close>

definition cal_commit :: "cal_cfg \<Rightarrow> ('d \<Rightarrow> string \<Rightarrow> bool \<times> 'd) option \<Rightarrow> 'd \<Rightarrow> io_env \<Rightarrow> string \<Rightarrow> fs \<Rightarrow>
    nat \<times> string \<times> 'd \<times> fs" where
  "cal_commit cfg app d io path fs =
     (case (if cal_cfg_ok cfg then cal_apply_line cfg 128 else None) of
        None \<Rightarrow> (1, ''Invalid calibration'', d, fs)
      | Some line \<Rightarrow>
        (case (case app of None \<Rightarrow> (False, d) | Some f \<Rightarrow> f d line) of
           (False, d) \<Rightarrow> (1, ''Apply failed'', d, fs)
         | (True, d) \<Rightarrow>
           (case cal_write_atomic io path cfg fs of
              (False, states) \<Rightarrow> (2, ''Applied for this boot but save failed'', d, last states)
            | (True, states) \<Rightarrow> (0, ''Calibration saved'', d, last states))))"

section \<open>The calibration file round trip\<close>

lemma cal_center_ok_iff:
  "cal_center_ok mn z mx \<longleftrightarrow> 0 \<le> mn \<and> mn + 2 < z \<and> z + 2 < mx \<and> mx \<le> 255"
  by (auto simp: cal_center_ok_def)

lemma cal_cfg_ok_iff:
  "cal_cfg_ok cfg \<longleftrightarrow> cal_center_ok (x_min cfg) (x_zero cfg) (x_max cfg) \<and>
     cal_center_ok (y_min cfg) (y_zero cfg) (y_max cfg)"
  by (simp add: cal_cfg_ok_def)

lemma dec_int_nat: "0 \<le> i \<Longrightarrow> dec_int i = dec (nat i)"
  by (simp add: dec_int_def)

lemma length_dec_u8: "n \<le> 255 \<Longrightarrow> length (dec n) \<le> 3"
  by (rule length_dec) auto

lemma cal_key_facts:
  "key \<in> set cal_keys \<Longrightarrow> CHR ''='' \<notin> set key \<and> c_nl \<notin> set key \<and> key \<noteq> [] \<and> hd key \<noteq> CHR ''#'' \<and> length key \<le> 6"
  by (auto simp: cal_keys_def)

lemma key_index_mem: "key_index k ks i = Some j \<Longrightarrow> k \<in> set ks \<and> j < i + length ks"
  by (induction k ks i rule: key_index.induct) (auto split: if_splits)

lemma cal_parse_line_kv:
  assumes k: "key_index key cal_keys 0 = Some i" and u: "slots ! i = None" and n: "n \<le> 255"
  shows "cal_parse_line slots (kv_line key n) = Inr (slots[i := Some (int n)])"
proof -
  note f = cal_key_facts [OF key_index_mem [OF k, THEN conjunct1]]
  have "length (kv_line key n) < 64" using length_dec_u8 [OF n] f by (simp add: kv_line_def)
  moreover have "strtol10 (dec n) = (int n, False, [])" using n by (intro strtol10_dec_all) simp
  ultimately show ?thesis
    using f k u n
    by (simp add: cal_parse_line_def kv_line_facts hd_kv_line field_set_def)
qed

definition cal_lines :: "cal_cfg \<Rightarrow> string list" where
  "cal_lines cfg = [kv_line ''x_min'' (nat (x_min cfg)), kv_line ''x_max'' (nat (x_max cfg)),
     kv_line ''y_min'' (nat (y_min cfg)), kv_line ''y_max'' (nat (y_max cfg)),
     kv_line ''x_zero'' (nat (x_zero cfg)), kv_line ''y_zero'' (nat (y_zero cfg))]"

lemma cal_cfg_ok_bounds:
  assumes "cal_cfg_ok cfg"
  shows "0 \<le> x_min cfg" "x_min cfg \<le> 255" "0 \<le> x_max cfg" "x_max cfg \<le> 255" "0 \<le> x_zero cfg" "x_zero cfg \<le> 255"
    "0 \<le> y_min cfg" "y_min cfg \<le> 255" "0 \<le> y_max cfg" "y_max cfg \<le> 255" "0 \<le> y_zero cfg" "y_zero cfg \<le> 255"
  using assms by (auto simp: cal_cfg_ok_iff cal_center_ok_iff)

lemma cal_format_lines:
  assumes "cal_cfg_ok cfg"
  shows "cal_format cfg 256 = Some (lines_text (cal_lines cfg))"
proof -
  note b = cal_cfg_ok_bounds [OF assms]
  have "length (dec (nat v)) \<le> 3" if "0 \<le> v" "v \<le> 255" for v :: int
    using that by (intro length_dec_u8) simp
  note l = this [OF b(1,2)] this [OF b(3,4)] this [OF b(5,6)] this [OF b(7,8)] this [OF b(9,10)] this [OF b(11,12)]
  then show ?thesis
    using b by (simp add: cal_format_def c_snprintf_def lines_text_def cal_lines_def kv_line_def dec_int_nat)
qed

lemma cal_keys_no_nl: "l \<in> set (cal_lines cfg) \<Longrightarrow> c_nl \<notin> set l"
  by (auto simp: cal_lines_def kv_line_def dest: dec_chars(1))

lemma fold_cal_lines:
  assumes "cal_cfg_ok cfg"
  shows "fold_lines cal_parse_line (replicate 6 None) (cal_lines cfg) =
    Inr [Some (x_min cfg), Some (x_max cfg), Some (y_min cfg), Some (y_max cfg), Some (x_zero cfg), Some (y_zero cfg)]"
proof -
  note b = cal_cfg_ok_bounds [OF assms]
  have i: "key_index ''x_min'' cal_keys 0 = Some 0" "key_index ''x_max'' cal_keys 0 = Some 1"
    "key_index ''y_min'' cal_keys 0 = Some 2" "key_index ''y_max'' cal_keys 0 = Some 3"
    "key_index ''x_zero'' cal_keys 0 = Some 4" "key_index ''y_zero'' cal_keys 0 = Some 5"
    by (simp_all add: cal_keys_def)
  have "replicate 6 None = [None, None, None, None, None, None :: int option]" by (simp add: numeral_eq_Suc)
  then show ?thesis
    using b by (simp add: cal_lines_def cal_parse_line_kv [OF i(1)] cal_parse_line_kv [OF i(2)]
        cal_parse_line_kv [OF i(3)] cal_parse_line_kv [OF i(4)] cal_parse_line_kv [OF i(5)] cal_parse_line_kv [OF i(6)])
qed

text \<open>
  C6 (roundtrip). A valid calibration survives the file: the text \<^verbatim>\<open>cal_format\<close> writes fits its
  buffer, and \<^verbatim>\<open>cal_parse\<close> reads back exactly the same six numbers.
\<close>

theorem cal_format_parse:
  assumes "cal_cfg_ok cfg"
  shows "\<exists>text. cal_format cfg 256 = Some text \<and> cal_parse (Some text) cfg0 = (None, cfg)"
proof -
  have "scan_lines cal_parse_line (replicate 6 None) (lines_text (cal_lines cfg)) =
      Inr [Some (x_min cfg), Some (x_max cfg), Some (y_min cfg), Some (y_max cfg), Some (x_zero cfg), Some (y_zero cfg)]"
    using scan_lines_text cal_keys_no_nl fold_cal_lines [OF assms] by metis
  then have "cal_parse (Some (lines_text (cal_lines cfg))) cfg0 = (None, cfg)"
    using assms by (cases cfg) (simp add: cal_parse_def Let_def numeral_eq_Suc)
  then show ?thesis using cal_format_lines [OF assms] by blast
qed

theorem cal_format_parse_witness:
  "\<exists>text. cal_format \<lparr>x_min = 5, x_max = 250, x_zero = 128, y_min = 6, y_max = 240, y_zero = 120\<rparr> 256 = Some text \<and>
     cal_parse (Some text) \<lparr>x_min = 0, x_max = 0, x_zero = 0, y_min = 0, y_max = 0, y_zero = 0\<rparr> =
       (None, \<lparr>x_min = 5, x_max = 250, x_zero = 128, y_min = 6, y_max = 240, y_zero = 120\<rparr>)"
  by (rule cal_format_parse) (simp add: cal_cfg_ok_def cal_center_ok_def)

section \<open>The deadzone file\<close>

definition dz_inv :: "dz_state \<Rightarrow> bool" where
  "dz_inv st \<longleftrightarrow> 0 \<le> dz_l st \<and> dz_l st \<le> 30 \<and> 0 \<le> dz_r st \<and> dz_r st \<le> 30"

lemma dz_num_range: "dz_num s = Some v \<Longrightarrow> 0 \<le> v \<and> v \<le> 30"
  by (auto simp: dz_num_def split: if_splits prod.splits)

lemma dz_line_inv: "dz_inv st \<Longrightarrow> dz_line st l = Inr st' \<Longrightarrow> dz_inv st'"
  by (auto simp: dz_line_def dz_inv_def Let_def dest: dz_num_range split: if_splits option.splits prod.splits)

lemma dz_line_total: "\<exists>st'. dz_line st l = Inr st'"
  by (auto simp: dz_line_def Let_def split: option.split prod.split)

lemma scan_dz_total: "\<exists>st'. scan_lines dz_line st p = Inr st'"
proof (induction p arbitrary: st rule: length_induct)
  case (1 p)
  obtain st1 where "dz_line st (line_of p) = Inr st1" using dz_line_total by blast
  with 1 length_after_line [of p] show ?case
    by (subst scan_lines.simps) (cases "p = []"; simp)
qed

lemma dz_line_kv:
  assumes n: "n \<le> 30"
  shows "\<not> dz_seen_l st \<Longrightarrow> dz_line st (kv_line ''left'' n) = Inr (st\<lparr>dz_l := int n, dz_seen_l := True\<rparr>)"
    and "\<not> dz_seen_r st \<Longrightarrow> dz_line st (kv_line ''right'' n) = Inr (st\<lparr>dz_r := int n, dz_seen_r := True\<rparr>)"
proof -
  have "dz_num (dec n) = Some (int n)"
    using n strtol10_dec_all [of n] by (simp add: dz_num_def)
  moreover have "last (kv_line k n) \<noteq> c_cr" for k
    using dec_chars(3) [of "last (dec n)" n] by (simp add: kv_line_def)
  moreover have "length (dec n) \<le> 3" using n by (intro length_dec_u8) simp
  ultimately show "\<not> dz_seen_l st \<Longrightarrow> dz_line st (kv_line ''left'' n) = Inr (st\<lparr>dz_l := int n, dz_seen_l := True\<rparr>)"
    and "\<not> dz_seen_r st \<Longrightarrow> dz_line st (kv_line ''right'' n) = Inr (st\<lparr>dz_r := int n, dz_seen_r := True\<rparr>)"
    using kv_line_facts(1) [of "''left''" n] kv_line_facts(1) [of "''right''" n]
    by (simp_all add: dz_line_def Let_def) (simp_all add: kv_line_def)
qed

lemma cal_parse_deadzone_bounds:
  "case cal_parse_deadzone text of (bad, l, r) \<Rightarrow> 0 \<le> l \<and> l \<le> 30 \<and> 0 \<le> r \<and> r \<le> 30"
proof -
  let ?t = "case text of None \<Rightarrow> [] | Some t \<Rightarrow> t"
  obtain st where st: "scan_lines dz_line dz_init ?t = Inr st" using scan_dz_total by blast
  have "dz_inv st"
    by (rule scan_lines_invariant [where I = dz_inv, OF dz_line_inv _ st]) (auto simp: dz_inv_def dz_init_def)
  with st show ?thesis by (simp add: cal_parse_deadzone_def dz_inv_def)
qed

lemma cal_parse_deadzone_written:
  assumes "l \<le> 30" and "r \<le> 30"
  shows "cal_parse_deadzone (Some (lines_text [kv_line ''left'' l, kv_line ''right'' r])) = (False, int l, int r)"
proof -
  have "scan_lines dz_line dz_init (lines_text [kv_line ''left'' l, kv_line ''right'' r]) =
      fold_lines dz_line dz_init [kv_line ''left'' l, kv_line ''right'' r]"
    by (rule scan_lines_text) (simp add: kv_line_facts)
  also have "\<dots> = Inr \<lparr>dz_l = int l, dz_r = int r, dz_seen_l = True, dz_seen_r = True, dz_bad = False\<rparr>"
    using assms by (simp add: dz_line_kv dz_init_def)
  finally show ?thesis by (simp add: cal_parse_deadzone_def)
qed

text \<open>
  Whatever the deadzone file contains, \<^verbatim>\<open>cal_parse_deadzone\<close> returns two
  percentages between 0 and 30 (the range the driver accepts); a file with one line for each
  side, each with a number up to 30, is read back exactly and reported as good.
\<close>

theorem cal_parse_deadzone_correct:
  assumes "l \<le> 30" and "r \<le> 30"
  shows "(\<forall>text. case cal_parse_deadzone text of (bad, a, b) \<Rightarrow> 0 \<le> a \<and> a \<le> 30 \<and> 0 \<le> b \<and> b \<le> 30) \<and>
    cal_parse_deadzone (Some (lines_text [kv_line ''left'' l, kv_line ''right'' r])) = (False, int l, int r)"
  using cal_parse_deadzone_bounds cal_parse_deadzone_written [OF assms] by blast

theorem cal_parse_deadzone_correct_witness:
  "cal_parse_deadzone (Some (lines_text [kv_line ''left'' 5, kv_line ''right'' 30])) = (False, 5, 30)"
  using cal_parse_deadzone_correct [of 5 30] by simp

section \<open>Capturing a calibration\<close>

datatype cap_event = RangeSample int int | CenterSample int int | WindowReset

fun cap_step :: "cal_cap \<Rightarrow> cap_event \<Rightarrow> cal_cap" where
  "cap_step cap (RangeSample x y) = cal_cap_add_range cap x y"
| "cap_step cap (CenterSample x y) = cal_cap_add_center cap x y"
| "cap_step cap WindowReset = cal_center_window_reset cap"

definition on_pad :: "int \<Rightarrow> int \<Rightarrow> bool" where
  "on_pad x y \<longleftrightarrow> 0 \<le> x \<and> x \<le> 255 \<and> 0 \<le> y \<and> y \<le> 255"

text \<open>The usable range samples, and the usable centre samples since the last window reset.\<close>

fun cap_samples :: "(int \<times> int) list \<times> (int \<times> int) list \<Rightarrow> cap_event \<Rightarrow> (int \<times> int) list \<times> (int \<times> int) list" where
  "cap_samples (rs, cs) (RangeSample x y) = (if on_pad x y then ((x, y) # rs, cs) else (rs, cs))"
| "cap_samples (rs, cs) (CenterSample x y) = (if on_pad x y then (rs, (x, y) # cs) else (rs, cs))"
| "cap_samples (rs, cs) WindowReset = (rs, [])"

definition lo_of :: "int list \<Rightarrow> int" where "lo_of xs = foldr min xs 255"
definition hi_of :: "int list \<Rightarrow> int" where "hi_of xs = foldr max xs 0"

lemma lo_hi_Cons [simp]:
  "lo_of [] = 255" "hi_of [] = 0" "lo_of (x # xs) = min x (lo_of xs)" "hi_of (x # xs) = max x (hi_of xs)"
  by (simp_all add: lo_of_def hi_of_def)

lemma lo_hi_bounds: "x \<in> set xs \<Longrightarrow> lo_of xs \<le> x \<and> x \<le> hi_of xs"
  by (induction xs) auto

lemma lo_hi_mem:
  "xs \<noteq> [] \<Longrightarrow> \<forall>x\<in>set xs. 0 \<le> x \<and> x \<le> 255 \<Longrightarrow> lo_of xs \<in> set xs \<and> hi_of xs \<in> set xs"
proof (induction xs)
  case (Cons x xs)
  then show ?case by (cases "xs = []") (auto simp: min_def max_def)
qed simp

definition axis_rel :: "int \<Rightarrow> int \<Rightarrow> int \<Rightarrow> int \<Rightarrow> int \<Rightarrow> int list \<Rightarrow> int list \<Rightarrow> bool" where
  "axis_rel mn mx zsum lo hi xs zs \<longleftrightarrow>
     mn = lo_of xs \<and> mx = hi_of xs \<and> zsum = sum_list zs \<and> lo = lo_of zs \<and> hi = hi_of zs \<and>
     (\<forall>x\<in>set xs \<union> set zs. 0 \<le> x \<and> x \<le> 255)"

definition cap_rel :: "cal_cap \<Rightarrow> (int \<times> int) list \<times> (int \<times> int) list \<Rightarrow> bool" where
  "cap_rel cap ss \<longleftrightarrow> (case ss of (rs, cs) \<Rightarrow>
     axis_rel (cp_x_min cap) (cp_x_max cap) (zx_sum cap) (zx_lo cap) (zx_hi cap) (map fst rs) (map fst cs) \<and>
     axis_rel (cp_y_min cap) (cp_y_max cap) (zy_sum cap) (zy_lo cap) (zy_hi cap) (map snd rs) (map snd cs) \<and>
     range_n cap = int (length rs) \<and> zero_n cap = int (length cs))"

lemma axis_rel_range:
  "axis_rel mn mx s lo hi xs zs \<Longrightarrow> 0 \<le> x \<Longrightarrow> x \<le> 255 \<Longrightarrow>
   axis_rel (if x < mn then x else mn) (if x > mx then x else mx) s lo hi (x # xs) zs"
  by (auto simp: axis_rel_def min_def max_def)

lemma axis_rel_center:
  "axis_rel mn mx s lo hi xs zs \<Longrightarrow> 0 \<le> x \<Longrightarrow> x \<le> 255 \<Longrightarrow>
   axis_rel mn mx (s + x) (if zs = [] \<or> x < lo then x else lo) (if x > hi then x else hi) xs (x # zs)"
  by (auto simp: axis_rel_def min_def max_def)

lemma axis_rel_reset: "axis_rel mn mx s lo hi xs zs \<Longrightarrow> axis_rel mn mx 0 255 0 xs []"
  by (simp add: axis_rel_def)

lemma cap_rel_step: "cap_rel cap ss \<Longrightarrow> cap_rel (cap_step cap e) (cap_samples ss e)"
proof (cases e)
  case (RangeSample x y)
  assume "cap_rel cap ss"
  with RangeSample show ?thesis
    by (cases ss) (auto simp: cap_rel_def cal_cap_add_range_def on_pad_def Let_def
        dest: axis_rel_range [where x = x] axis_rel_range [where x = y])
next
  case (CenterSample x y)
  assume "cap_rel cap ss"
  with CenterSample show ?thesis
    by (cases ss) (auto simp: cap_rel_def cal_cap_add_center_def on_pad_def Let_def
        dest: axis_rel_center [where x = x] axis_rel_center [where x = y])
next
  case WindowReset
  assume "cap_rel cap ss"
  with WindowReset show ?thesis
    by (cases ss) (auto simp: cap_rel_def cal_center_window_reset_def dest: axis_rel_reset)
qed

lemma cap_rel_run: "cap_rel cap ss \<Longrightarrow> cap_rel (foldl cap_step cap es) (foldl cap_samples ss es)"
  by (induction es arbitrary: cap ss) (simp_all add: cap_rel_step)

lemma cap_rel_reset: "cap_rel cal_cap_reset ([], [])"
  by (simp add: cap_rel_def cal_cap_reset_def axis_rel_def)

lemma average_between:
  fixes zs :: "int list"
  assumes "zs \<noteq> []" and "\<forall>z\<in>set zs. lo \<le> z \<and> z \<le> hi"
  shows "lo \<le> sum_list zs div int (length zs)" and "sum_list zs div int (length zs) \<le> hi"
proof -
  have "lo * int (length zs) \<le> sum_list zs \<and> sum_list zs \<le> hi * int (length zs)"
    using assms(2) by (induction zs) (auto simp: algebra_simps)
  moreover have n: "0 < int (length zs)" using assms(1) by simp
  ultimately have "lo * int (length zs) div int (length zs) \<le> sum_list zs div int (length zs)"
    "sum_list zs div int (length zs) \<le> hi * int (length zs) div int (length zs)"
    by (simp_all only: zdiv_mono1)
  with n show "lo \<le> sum_list zs div int (length zs)" "sum_list zs div int (length zs) \<le> hi" by simp_all
qed

lemma axis_rel_ends:
  "axis_rel mn mx s lo hi xs zs \<Longrightarrow> xs \<noteq> [] \<Longrightarrow> mn = Min (set xs) \<and> mx = Max (set xs)"
  using lo_hi_mem [of xs] lo_hi_bounds [of _ xs]
  by (auto simp: axis_rel_def intro!: Min_eqI [symmetric] Max_eqI [symmetric])

lemma axis_rel_average:
  assumes "axis_rel mn mx s lo hi xs zs" "zs \<noteq> []" "hi - lo \<le> 3"
  shows "s sdiv int (length zs) = sum_list zs div int (length zs) \<and>
    (\<forall>z\<in>set zs. \<bar>z - sum_list zs div int (length zs)\<bar> \<le> 3)"
proof -
  have b: "\<forall>z\<in>set zs. lo \<le> z \<and> z \<le> hi" using assms lo_hi_bounds by (auto simp: axis_rel_def)
  have "0 \<le> sum_list zs" using assms(1) by (auto simp: axis_rel_def intro: sum_list_nonneg)
  then have "s sdiv int (length zs) = sum_list zs div int (length zs)"
    using assms by (simp add: axis_rel_def sdiv_nonneg)
  with average_between [OF assms(2) b] b assms(3) show ?thesis by fastforce
qed

text \<open>
  A capture that \<^verbatim>\<open>cal_cap_finish\<close> accepts, from any sequence of range samples,
  centre samples and window resets after \<^verbatim>\<open>cal_cap_reset\<close>: the ends are the smallest and largest
  usable range samples, the centre is the average (rounded down) of the usable centre samples
  since the last window reset, each of those samples is within 3 of it, there were at least 20
  range and 12 centre samples, and the result is a valid calibration.
\<close>

theorem cal_capture_correct:
  assumes fin: "cal_cap_finish (Some (foldl cap_step cal_cap_reset es)) cfg0 = (None, cfg)"
    and ss: "foldl cap_samples ([], []) es = (rs, cs)"
  shows "cal_cfg_ok cfg \<and> 20 \<le> length rs \<and> 12 \<le> length cs \<and>
    x_min cfg = Min (fst ` set rs) \<and> x_max cfg = Max (fst ` set rs) \<and>
    y_min cfg = Min (snd ` set rs) \<and> y_max cfg = Max (snd ` set rs) \<and>
    x_zero cfg = sum_list (map fst cs) div int (length cs) \<and>
    y_zero cfg = sum_list (map snd cs) div int (length cs) \<and>
    (\<forall>(x, y)\<in>set cs. \<bar>x - x_zero cfg\<bar> \<le> 3 \<and> \<bar>y - y_zero cfg\<bar> \<le> 3)"
proof -
  define cap where "cap = foldl cap_step cal_cap_reset es"
  have rel: "cap_rel cap (rs, cs)" unfolding cap_def ss [symmetric] by (rule cap_rel_run [OF cap_rel_reset])
  then have ax: "axis_rel (cp_x_min cap) (cp_x_max cap) (zx_sum cap) (zx_lo cap) (zx_hi cap) (map fst rs) (map fst cs)"
    "axis_rel (cp_y_min cap) (cp_y_max cap) (zy_sum cap) (zy_lo cap) (zy_hi cap) (map snd rs) (map snd cs)"
    and n: "range_n cap = int (length rs)" "zero_n cap = int (length cs)"
    by (auto simp: cap_rel_def)
  have f: "20 \<le> length rs" "12 \<le> length cs" "zx_hi cap - zx_lo cap \<le> 3" "zy_hi cap - zy_lo cap \<le> 3" "cal_cfg_ok cfg"
    "x_min cfg = cp_x_min cap" "x_max cfg = cp_x_max cap" "y_min cfg = cp_y_min cap" "y_max cfg = cp_y_max cap"
    "x_zero cfg = zx_sum cap sdiv zero_n cap" "y_zero cfg = zy_sum cap sdiv zero_n cap"
    using fin n by (auto simp: cal_cap_finish_def Let_def simp flip: cap_def split: if_splits)
  have ne: "rs \<noteq> []" "cs \<noteq> []" using f by auto
  have cx: "x_zero cfg = sum_list (map fst cs) div int (length cs) \<and> (\<forall>z\<in>set (map fst cs). \<bar>z - x_zero cfg\<bar> \<le> 3)"
    using axis_rel_average [OF ax(1)] f ne n by simp
  have cy: "y_zero cfg = sum_list (map snd cs) div int (length cs) \<and> (\<forall>z\<in>set (map snd cs). \<bar>z - y_zero cfg\<bar> \<le> 3)"
    using axis_rel_average [OF ax(2)] f ne n by simp
  show ?thesis using f axis_rel_ends [OF ax(1)] axis_rel_ends [OF ax(2)] ne cx cy by auto
qed

definition demo_capture :: "cap_event list" where
  "demo_capture = replicate 10 (RangeSample 10 12) @ replicate 10 (RangeSample 240 230) @ [CenterSample 9 9] @
     [WindowReset] @ replicate 12 (CenterSample 120 121)"

theorem cal_capture_correct_witness:
  "\<exists>cfg. cal_cap_finish (Some (foldl cap_step cal_cap_reset demo_capture))
      \<lparr>x_min = 0, x_max = 0, x_zero = 0, y_min = 0, y_max = 0, y_zero = 0\<rparr> = (None, cfg) \<and> cal_cfg_ok cfg"
proof -
  have "cal_cap_finish (Some (foldl cap_step cal_cap_reset demo_capture))
      \<lparr>x_min = 0, x_max = 0, x_zero = 0, y_min = 0, y_max = 0, y_zero = 0\<rparr> =
      (None, \<lparr>x_min = 10, x_max = 240, x_zero = 120, y_min = 12, y_max = 230, y_zero = 121\<rparr>)"
    by code_simp
  moreover obtain rs cs where "foldl cap_samples ([], []) demo_capture = (rs, cs)" by fastforce
  ultimately show ?thesis using cal_capture_correct by blast
qed

section \<open>Replacing the file\<close>

lemma cal_write_atomic_result:
  assumes "cal_write_atomic io path cfg fs = (ok, states)"
  shows "if ok then last states path = cal_format cfg 256 \<and> cal_format cfg 256 \<noteq> None
     else last states path = fs path"
  using assms
  by (auto simp: cal_write_atomic_def c_snprintf_def Let_def split: option.splits if_splits)

text \<open>
  \<^verbatim>\<open>cal_write_atomic\<close> replaces the file atomically: in the file system after every
  one of its system calls the path holds either its old content or the complete new text, no
  file other than the path and its temporary file changes, a failure leaves the path as it was
  and removes the temporary file, and success leaves exactly the new text.
\<close>

theorem cal_write_atomic_safe:
  assumes w: "cal_write_atomic io path cfg fs = (ok, states)" and tmp: "fs (path @ ''.tmp'') = None"
  shows "(\<forall>f\<in>set states. (f path = fs path \<or> f path = cal_format cfg 256) \<and>
      (\<forall>q. q \<noteq> path \<and> q \<noteq> path @ ''.tmp'' \<longrightarrow> f q = fs q)) \<and>
    (if ok then last states path = cal_format cfg 256 \<and> cal_format cfg 256 \<noteq> None
     else last states path = fs path) \<and>
    last states (path @ ''.tmp'') = None"
proof -
  have ne: "path \<noteq> path @ ''.tmp''" by simp
  show ?thesis
  proof (cases "cal_format cfg 256")
    case None
    with w tmp show ?thesis by (auto simp: cal_write_atomic_def)
  next
    case (Some body)
    with w tmp ne show ?thesis
      by (auto simp: cal_write_atomic_def c_snprintf_def Let_def split: if_splits)
  qed
qed

theorem cal_write_atomic_safe_witness:
  "\<exists>ok states. cal_write_atomic \<lparr>io_open = True, io_write = True, io_part = [], io_close = True, io_rename = True\<rparr>
     ''/cal'' \<lparr>x_min = 5, x_max = 250, x_zero = 128, y_min = 6, y_max = 240, y_zero = 120\<rparr> [''/cal'' \<mapsto> ''old''] = (ok, states) \<and>
     last states ''/cal.tmp'' = None"
proof -
  obtain ok states where w: "cal_write_atomic \<lparr>io_open = True, io_write = True, io_part = [], io_close = True, io_rename = True\<rparr>
     ''/cal'' \<lparr>x_min = 5, x_max = 250, x_zero = 128, y_min = 6, y_max = 240, y_zero = 120\<rparr> [''/cal'' \<mapsto> ''old''] = (ok, states)"
    by fastforce
  from cal_write_atomic_safe [OF this] w show ?thesis by simp
qed

end
