(* ===== verification/Calibration_Link.thy ===== *)
theory Calibration_Link
  imports Joystick_Cal Gamepad_Props
begin

text \<open>
  The interface between the joystick tool and the driver: the tool commits a calibration by
  writing a line to an attribute of the driver, and samples the sticks by reading another one.
  The contract the tool relies on is the locale \<open>stick_device\<close>; the driver's model is shown to
  provide it for both sticks.
\<close>

section \<open>The contract\<close>

locale stick_device =
  fixes put :: "'d \<Rightarrow> string \<Rightarrow> bool \<times> 'd"
    and centre :: "'d \<Rightarrow> cal_cfg"
    and ready :: "'d \<Rightarrow> bool"
  assumes put_apply: "ready d \<Longrightarrow> cal_cfg_ok cfg \<Longrightarrow> cal_apply_line cfg 128 = Some line \<Longrightarrow>
      \<exists>d'. put d line = (True, d') \<and> centre d' = cfg \<and> ready d'"
    and put_rejected: "put d line = (False, d') \<Longrightarrow> d' = d"
begin

lemma commit_invalid:
  "\<not> cal_cfg_ok cfg \<Longrightarrow> cal_commit cfg (Some put) d io path fs = (1, ''Invalid calibration'', d, fs)"
  by (simp add: cal_commit_def)

lemma commit_failed_apply:
  assumes "cal_commit cfg (Some put) d io path fs = (1, msg, d', fs')"
  shows "d' = d \<and> fs' = fs"
  using assms put_rejected
  by (auto simp: cal_commit_def split: option.splits prod.splits bool.splits if_splits)

lemma commit_applies:
  assumes "ready d" and "cal_cfg_ok cfg" and "cal_apply_line cfg 128 \<noteq> None"
    and "cal_commit cfg (Some put) d io path fs = (code, msg, d', fs')"
  shows "centre d' = cfg \<and> ready d' \<and> code \<in> {0, 2} \<and>
    (code = 0 \<longleftrightarrow> fst (cal_write_atomic io path cfg fs)) \<and> fs' = last (snd (cal_write_atomic io path cfg fs))"
proof -
  obtain line where line: "cal_apply_line cfg 128 = Some line" using assms(3) by blast
  obtain d1 where "put d line = (True, d1)" "centre d1 = cfg" "ready d1"
    using put_apply [OF assms(1,2) line] by blast
  with assms line show ?thesis
    by (auto simp: cal_commit_def split: prod.splits bool.splits)
qed

end

section \<open>The driver reads what the tool writes\<close>

lemma mf_token_digits_dec:
  "\<forall>c\<in>set ds. is_digit c \<Longrightarrow> rest = [] \<or> \<not> is_digit (hd rest) \<Longrightarrow> k + length ds \<le> 3 \<Longrightarrow>
   foldl (\<lambda>v c. v * 10 + digit_val c) v ds \<le> 255 \<Longrightarrow>
   mf_token_digits (ds @ rest) k v = Some (foldl (\<lambda>v c. v * 10 + digit_val c) v ds, rest)"
proof (induction ds arbitrary: k v)
  case Nil
  then show ?case by (cases rest) auto
next
  case (Cons c ds)
  have "w \<le> foldl (\<lambda>v c. v * 10 + digit_val c) w xs" for w xs
  proof (induction xs arbitrary: w)
    case (Cons a xs)
    have "w \<le> w * 10 + digit_val a" by simp
    then show ?case using Cons.IH [of "w * 10 + digit_val a"] by simp
  qed simp
  then have "v * 10 + digit_val c \<le> 255" using Cons.prems(4) by (force intro: order_trans)
  with Cons show ?case by simp
qed

lemma mf_token_u8_dec:
  assumes "rest = [] \<or> \<not> is_digit (hd rest)" and "n \<le> 255"
  shows "mf_token_u8 (CHR '' '' # dec n @ rest) = Some (int n, rest)"
proof -
  obtain c cs where d: "dec n = c # cs" by (cases "dec n") auto
  have "is_digit c" using d dec_digits [of c n] by simp
  moreover have "mf_token_digits (dec n @ rest) 0 0 = Some (n, rest)"
    using mf_token_digits_dec [of "dec n" rest 0 0] assms length_dec_u8 [of n] digits_val_dec [of n]
    by (simp add: dec_digits digits_val_def)
  ultimately show ?thesis
    using is_digit_cases(10) [of c] by (simp add: mf_token_u8_def d is_blank_def)
qed

definition apply_text :: "nat \<Rightarrow> nat \<Rightarrow> nat \<Rightarrow> nat \<Rightarrow> nat \<Rightarrow> nat \<Rightarrow> string" where
  "apply_text a b c d e f = ''apply'' @ CHR '' '' # dec a @ CHR '' '' # dec b @ CHR '' '' # dec c @
     CHR '' '' # dec d @ CHR '' '' # dec e @ CHR '' '' # dec f @ [c_nl]"

lemma not_digit_sep [simp]: "\<not> is_digit (CHR '' '')" "\<not> is_digit c_nl"
  by (simp_all add: is_digit_def char_val_def)

lemma mf_six_tokens_dec:
  assumes "a \<le> 255" "b \<le> 255" "c \<le> 255" "d \<le> 255" "e \<le> 255" "f \<le> 255"
  shows "mf_six_tokens (CHR '' '' # dec a @ CHR '' '' # dec b @ CHR '' '' # dec c @
     CHR '' '' # dec d @ CHR '' '' # dec e @ CHR '' '' # dec f @ [c_nl]) =
     Some ((int a, int b, int c, int d, int e, int f), [c_nl])"
  using assms by (simp add: mf_six_tokens_def mf_token_u8_dec)

lemma mf_parse_apply_text:
  assumes "a \<le> 255" "b \<le> 255" "c \<le> 255" "d \<le> 255" "e \<le> 255" "f \<le> 255"
    and "mf_center_in_range (int a) (int b) (int c) = None" "mf_center_in_range (int d) (int e) (int f) = None"
  shows "mf_parse_cal (apply_text a b c d e f) = Inr \<lparr>rq_apply = True, rq_xmin = int a, rq_xzero = int b,
    rq_xmax = int c, rq_ymin = int d, rq_yzero = int e, rq_ymax = int f\<rparr>"
  using assms by (simp add: mf_parse_cal_def apply_text_def is_ws_def mf_six_tokens_dec)

lemma cal_apply_line_text:
  assumes "cal_cfg_ok cfg"
  shows "cal_apply_line cfg 128 = Some (apply_text (nat (x_min cfg)) (nat (x_zero cfg)) (nat (x_max cfg))
    (nat (y_min cfg)) (nat (y_zero cfg)) (nat (y_max cfg)))"
proof -
  note b = cal_cfg_ok_bounds [OF assms]
  have "length (dec (nat v)) \<le> 3" if "0 \<le> v" "v \<le> 255" for v :: int
    using that by (intro length_dec_u8) simp
  note l = this [OF b(1,2)] this [OF b(3,4)] this [OF b(5,6)] this [OF b(7,8)] this [OF b(9,10)] this [OF b(11,12)]
  then show ?thesis
    using b by (simp add: cal_apply_line_def c_snprintf_def apply_text_def dec_int_nat)
qed

definition req_of :: "cal_cfg \<Rightarrow> cal_req" where
  "req_of cfg = \<lparr>rq_apply = True, rq_xmin = x_min cfg, rq_xzero = x_zero cfg, rq_xmax = x_max cfg,
     rq_ymin = y_min cfg, rq_yzero = y_zero cfg, rq_ymax = y_max cfg\<rparr>"

lemma driver_parses_apply_line:
  assumes "cal_cfg_ok cfg" and "cal_apply_line cfg 128 = Some line"
  shows "mf_parse_cal line = Inr (req_of cfg)"
proof -
  note b = cal_cfg_ok_bounds [OF assms(1)]
  have c: "mf_center_in_range (x_min cfg) (x_zero cfg) (x_max cfg) = None"
    "mf_center_in_range (y_min cfg) (y_zero cfg) (y_max cfg) = None"
    using assms(1) by (auto simp: cal_cfg_ok_iff cal_center_ok_iff mf_center_in_range_None)
  have "line = apply_text (nat (x_min cfg)) (nat (x_zero cfg)) (nat (x_max cfg))
    (nat (y_min cfg)) (nat (y_zero cfg)) (nat (y_max cfg))"
    using assms cal_apply_line_text by simp
  then show ?thesis using b c by (simp add: mf_parse_apply_text req_of_def nat_le_iff)
qed

section \<open>The driver provides the contract\<close>

text \<open>The tool's callback opens the attribute of one stick and writes the line to it.\<close>

definition drv_write :: "kernel_api \<Rightarrow> mf_axis_id \<Rightarrow> mf_axis_id \<Rightarrow> mf_pad \<Rightarrow> string \<Rightarrow> bool \<times> mf_pad" where
  "drv_write K x_id y_id pad line =
     (case mf_cal_store K pad x_id y_id line of (Inl e, pad') \<Rightarrow> (False, pad') | (Inr n, pad') \<Rightarrow> (True, pad'))"

definition drv_centre :: "mf_axis_id \<Rightarrow> mf_axis_id \<Rightarrow> mf_pad \<Rightarrow> cal_cfg" where
  "drv_centre x_id y_id pad = \<lparr>x_min = ax_min (axis pad x_id), x_max = ax_max (axis pad x_id),
     x_zero = runtime_zero (axis pad x_id), y_min = ax_min (axis pad y_id), y_max = ax_max (axis pad y_id),
     y_zero = runtime_zero (axis pad y_id)\<rparr>"

lemma drv_write_apply:
  assumes inv: "pad_inv pad" and ne: "x_id \<noteq> y_id" and ok: "cal_cfg_ok cfg"
    and line: "cal_apply_line cfg 128 = Some line"
  shows "\<exists>pad'. drv_write K x_id y_id pad line = (True, pad') \<and> drv_centre x_id y_id pad' = cfg \<and> pad_inv pad'"
proof -
  let ?p = "mf_publish_stick K (cal_installed pad x_id y_id (req_of cfg)) x_id y_id"
  have nr: "\<not> cal_rejected pad x_id y_id (req_of cfg)"
    by (simp add: cal_rejected_def mf_preflight_axis_def req_of_def)
  have st: "mf_cal_store K pad x_id y_id line = (Inr (length line), ?p)"
    using driver_parses_apply_line [OF ok line] nr by (simp add: mf_cal_store_eq)
  have "pad_inv ?p" using mf_cal_store_inv [OF inv ne, of K line] st by simp
  moreover have "drv_centre x_id y_id ?p = cfg"
    using ne by (simp add: drv_centre_def mf_install_axis_def req_of_def Let_def)
  ultimately show ?thesis using st by (simp add: drv_write_def)
qed

lemma drv_write_rejected: "drv_write K x_id y_id pad line = (False, pad') \<Longrightarrow> pad' = pad"
  by (auto simp: drv_write_def mf_cal_store_eq split: sum.splits if_splits)

interpretation left_stick: stick_device "drv_write K MF_XL MF_YL" "drv_centre MF_XL MF_YL" pad_inv for K
  by unfold_locales (auto intro: drv_write_apply dest: drv_write_rejected)

interpretation right_stick: stick_device "drv_write K MF_XR MF_YR" "drv_centre MF_XR MF_YR" pad_inv for K
  by unfold_locales (auto intro: drv_write_apply dest: drv_write_rejected)

text \<open>
  C4 (functional). Committing a valid calibration of the left stick from the tool to the driver:
  the line the tool prints is accepted by the driver's parser, the driver's active minimum,
  centre and maximum of both axes become exactly the committed ones whatever they were, the
  driver invariant holds afterwards, and the exit code is 0 with the complete file on disk, or
  2 with the old file untouched.
\<close>

theorem commit_reaches_driver:
  assumes inv: "pad_inv pad" and ok: "cal_cfg_ok cfg"
    and c: "cal_commit cfg (Some (drv_write K MF_XL MF_YL)) pad io path fs = (code, msg, pad', fs')"
  shows "drv_centre MF_XL MF_YL pad' = cfg \<and> pad_inv pad' \<and>
    (code = 0 \<and> fs' path = cal_format cfg 256 \<and> cal_format cfg 256 \<noteq> None \<or> code = 2 \<and> fs' path = fs path)"
proof -
  have "cal_apply_line cfg 128 \<noteq> None" using cal_apply_line_text [OF ok] by simp
  note r = left_stick.commit_applies [OF inv ok this c]
  obtain wok states where w: "cal_write_atomic io path cfg fs = (wok, states)" by fastforce
  show ?thesis using r cal_write_atomic_result [OF w] by (auto simp: w split: if_splits)
qed

definition demo_cfg :: cal_cfg where
  "demo_cfg = \<lparr>x_min = 5, x_max = 250, x_zero = 128, y_min = 6, y_max = 240, y_zero = 120\<rparr>"

theorem commit_reaches_driver_witness:
  "\<exists>code msg pad' fs'. cal_commit demo_cfg (Some (drv_write ref_kernel MF_XL MF_YL)) mf_pad_init
      \<lparr>io_open = False, io_write = True, io_part = [], io_close = True, io_rename = True\<rparr> ''/cal'' Map.empty =
      (code, msg, pad', fs') \<and> drv_centre MF_XL MF_YL pad' = demo_cfg"
proof -
  obtain code msg pad' fs' where c: "cal_commit demo_cfg (Some (drv_write ref_kernel MF_XL MF_YL)) mf_pad_init
      \<lparr>io_open = False, io_write = True, io_part = [], io_close = True, io_rename = True\<rparr> ''/cal'' Map.empty =
      (code, msg, pad', fs')"
    by (metis surj_pair)
  moreover have "cal_cfg_ok demo_cfg" by (simp add: demo_cfg_def cal_cfg_ok_def cal_center_ok_def)
  ultimately show ?thesis using commit_reaches_driver [OF mf_pad_init_inv _ c] by blast
qed

section \<open>The tool reads what the driver prints\<close>

lemma raw_token_kv:
  assumes "key_index key raw_keys 0 = Some i" and "slots ! i = None" and "n \<le> 255"
    and "rest = [] \<or> \<not> is_digit (hd rest)"
  shows "raw_token slots (key @ CHR ''='' # dec n @ rest) = Inr (slots[i := Some (int n)], rest)"
proof -
  have "key \<in> set raw_keys" using key_index_mem [OF assms(1)] by simp
  then have k: "\<forall>c\<in>set key. is_key_char c" "length key = 2" by (auto simp: raw_keys_def is_key_char_def)
  then have tk: "takeWhile is_key_char (key @ CHR ''='' # t) = key"
    "dropWhile is_key_char (key @ CHR ''='' # t) = CHR ''='' # t" for t
    by (auto simp: takeWhile_append dropWhile_append is_key_char_def)
  obtain c cs where d: "dec n = c # cs" by (cases "dec n") auto
  then have "is_digit c" using dec_digits [of c n] by simp
  moreover have "strtol10 (dec n @ rest) = (int n, False, rest)" using assms(3,4) by (intro strtol10_dec) auto
  moreover have "key \<noteq> []" "rest \<noteq> dec n @ rest" using k by auto
  ultimately show ?thesis using assms k(2) d by (auto simp: raw_token_def tk)
qed

lemma raw_tokens_step:
  assumes "raw_token slots q = Inr (slots', r)" and "q \<noteq> []" and "is_key_char (hd q)" and "set bl \<subseteq> {CHR '' ''}"
  shows "raw_tokens slots (bl @ q) = raw_tokens slots' r"
proof -
  have h: "\<not> is_blank (hd q)" "hd q \<noteq> c_nl" using assms(3) by (auto simp: is_key_char_def is_blank_def)
  have "dropWhile is_blank (bl @ q) = q"
    using assms(2,4) h by (cases q) (auto simp: dropWhile_append is_blank_def)
  moreover have "hd (bl @ q) \<noteq> c_nl" using assms(4) h by (cases bl) auto
  ultimately show ?thesis
    using assms(1,2) h by (subst raw_tokens.simps) simp
qed

lemma raw_tokens_end: "raw_tokens slots [c_nl] = Inr (slots, [c_nl])"
  by (subst raw_tokens.simps) simp

lemma raw_line_parses:
  assumes "a \<le> 255" "b \<le> 255" "c \<le> 255" "d \<le> 255"
  shows "raw_tokens (replicate 4 None) (''YL='' @ dec a @ '' XL='' @ dec b @ '' YR='' @ dec c @ '' XR='' @ dec d @ [c_nl]) =
    Inr ([Some (int a), Some (int b), Some (int c), Some (int d)], [c_nl])"
proof -
  have i: "key_index ''YL'' raw_keys 0 = Some 0" "key_index ''XL'' raw_keys 0 = Some 1"
    "key_index ''YR'' raw_keys 0 = Some 2" "key_index ''XR'' raw_keys 0 = Some 3"
    by (simp_all add: raw_keys_def)
  have r: "replicate 4 None = [None, None, None, None :: int option]" by (simp add: numeral_eq_Suc)
  note tok = raw_token_kv [OF i(1)] raw_token_kv [OF i(2)] raw_token_kv [OF i(3)] raw_token_kv [OF i(4)]
  have kc: "is_key_char (CHR ''Y'')" "is_key_char (CHR ''X'')" by (simp_all add: is_key_char_def)
  note s1 = raw_tokens_step [OF tok(1), where bl = "[]"]
  note s2 = raw_tokens_step [OF tok(2), where bl = "'' ''"]
  note s3 = raw_tokens_step [OF tok(3), where bl = "'' ''"]
  note s4 = raw_tokens_step [OF tok(4), where bl = "'' ''"]
  show ?thesis
    using assms kc by (simp add: r s1 [simplified] s2 [simplified] s3 [simplified] s4 [simplified] raw_tokens_end)
qed

text \<open>
  The sample line the driver prints in \<^verbatim>\<open>raw_axes\<close> is always accepted by the
  tool's \<^verbatim>\<open>cal_parse_raw\<close>, which returns exactly the latest byte of each of the four axes.
\<close>

theorem raw_axes_roundtrip:
  "cal_parse_raw (Some (raw_axes_show pad)) =
     Inr (uint (latest (axis pad MF_YL)), uint (latest (axis pad MF_XL)),
          uint (latest (axis pad MF_YR)), uint (latest (axis pad MF_XR)))"
proof -
  have b: "unat (w :: u8) \<le> 255" for w using unsigned_less [of w, where ?'a = nat] by simp
  have "dropWhile is_blank (raw_axes_show pad) = raw_axes_show pad" "raw_axes_show pad \<noteq> []"
    "hd (raw_axes_show pad) \<noteq> c_nl"
    by (simp_all add: raw_axes_show_def is_blank_def)
  moreover have "raw_tokens (replicate 4 None) (raw_axes_show pad) =
      Inr ([Some (uint (latest (axis pad MF_YL))), Some (uint (latest (axis pad MF_XL))),
          Some (uint (latest (axis pad MF_YR))), Some (uint (latest (axis pad MF_XR)))], [c_nl])"
    unfolding raw_axes_show_def by (subst raw_line_parses) (simp_all add: b)
  ultimately show ?thesis by (simp add: cal_parse_raw_def Let_def numeral_eq_Suc)
qed

end
