(* ===== verification/Lid_Policy.thy ===== *)
theory Lid_Policy
  imports Zlyme_Prelude
begin

text \<open>
  The lid and power policy of \<^verbatim>\<open>zlyme-keylidmon/lid_policy.h\<close>: which lid, power and ownership
  events ask for one suspend. The C flags are 0/1 integers and are booleans here; the request
  counters are unbounded.
\<close>

section \<open>State and events\<close>

datatype lid_ev = LID_EV_MENU | LID_EV_PAK | LID_EV_CLOSE | LID_EV_OPEN | LID_EV_POWER

record zlyme_lid_policy =
  menu_seen :: bool
  menu_owns :: bool
  in_pak :: bool
  pak_latched :: bool
  lid_closed :: bool
  asleep :: bool
  busy :: bool
  mem_requests :: nat
  power_requests :: nat
  lid_requests :: nat

definition lid_policy_init :: zlyme_lid_policy where
  "lid_policy_init = \<lparr>menu_seen = False, menu_owns = False, in_pak = False, pak_latched = False,
     lid_closed = False, asleep = False, busy = False,
     mem_requests = 0, power_requests = 0, lid_requests = 0\<rparr>"

section \<open>Operations\<close>

text \<open>The \<^verbatim>\<open>switch\<close>: the new flags and \<open>want\<close>.\<close>

fun lid_switch :: "zlyme_lid_policy \<Rightarrow> lid_ev \<Rightarrow> bool \<Rightarrow> zlyme_lid_policy \<times> bool" where
  "lid_switch p LID_EV_MENU guard =
     (p\<lparr>menu_seen := True, menu_owns := True, in_pak := False, pak_latched := False\<rparr>, False)"
| "lid_switch p LID_EV_PAK guard =
     (let p = p\<lparr>menu_owns := False\<rparr>
      in if \<not> menu_seen p \<or> in_pak p then (p, False)
         else (p\<lparr>in_pak := True, pak_latched := True\<rparr>,
               lid_closed p \<and> \<not> asleep p \<and> \<not> guard \<and> \<not> busy p))"
| "lid_switch p LID_EV_CLOSE guard =
     (p\<lparr>lid_closed := True\<rparr>,
      \<not> (menu_owns p \<or> \<not> in_pak p \<or> asleep p \<or> guard \<or> busy p))"
| "lid_switch p LID_EV_OPEN guard = (p\<lparr>lid_closed := False, asleep := False\<rparr>, False)"
| "lid_switch p LID_EV_POWER guard = (p, \<not> (menu_owns p \<or> guard \<or> busy p))"

definition zlyme_lid_apply :: "zlyme_lid_policy \<Rightarrow> lid_ev \<Rightarrow> bool \<Rightarrow> zlyme_lid_policy \<times> bool" where
  "zlyme_lid_apply p ev guard =
     (let (p, want) = lid_switch p ev guard
      in if want
         then (if ev = LID_EV_POWER then p\<lparr>busy := True, power_requests := power_requests p + 1\<rparr>
               else p\<lparr>busy := True, lid_requests := lid_requests p + 1\<rparr>, True)
         else (p, False))"

text \<open>The switch sample is \<open>1\<close>, \<open>0\<close>, or negative when it could not be read.\<close>

definition zlyme_lid_observe :: "zlyme_lid_policy \<Rightarrow> int \<Rightarrow> zlyme_lid_policy" where
  "zlyme_lid_observe p closed =
     (if closed < 0 then p
      else if closed = 0 then fst (zlyme_lid_apply p LID_EV_OPEN False)
      else p\<lparr>lid_closed := True\<rparr>)"

definition zlyme_lid_suspend_done :: "zlyme_lid_policy \<Rightarrow> bool \<Rightarrow> zlyme_lid_policy" where
  "zlyme_lid_suspend_done p ok =
     (let p = p\<lparr>busy := False, mem_requests := mem_requests p + 1\<rparr>
      in if lid_closed p then p\<lparr>asleep := True\<rparr> else p)"

definition zlyme_frontend_lid_wants_mem :: "bool \<Rightarrow> bool \<Rightarrow> bool \<Rightarrow> bool \<Rightarrow> bool" where
  "zlyme_frontend_lid_wants_mem close_edge still_closed resume_guard slept_for_this_close =
     (if \<not> close_edge \<or> \<not> still_closed \<or> resume_guard \<or> slept_for_this_close then False else True)"

text \<open>The event loop's use of the policy: apply, and finish the suspend when one was asked for.\<close>

definition lid_serve :: "zlyme_lid_policy \<Rightarrow> lid_ev \<Rightarrow> bool \<Rightarrow> bool \<Rightarrow> zlyme_lid_policy" where
  "lid_serve p ev guard ok =
     (let (p, want) = zlyme_lid_apply p ev guard
      in if want then zlyme_lid_suspend_done p ok else p)"

lemmas lid_defs = zlyme_lid_apply_def zlyme_lid_observe_def zlyme_lid_suspend_done_def lid_serve_def

section \<open>Invariant\<close>

definition lid_inv :: "zlyme_lid_policy \<Rightarrow> bool" where
  "lid_inv p \<longleftrightarrow> \<not> busy p \<and> (asleep p \<longrightarrow> lid_closed p) \<and> (in_pak p \<longrightarrow> menu_seen p \<and> \<not> menu_owns p)
     \<and> (pak_latched p \<longleftrightarrow> in_pak p) \<and> (menu_owns p \<longrightarrow> menu_seen p)
     \<and> mem_requests p = power_requests p + lid_requests p"

lemma lid_init_inv [simp]: "lid_inv lid_policy_init"
  by (simp add: lid_inv_def lid_policy_init_def)

lemma lid_serve_pak:
  "lid_serve p LID_EV_PAK guard ok =
     (if menu_seen p \<and> \<not> in_pak p
      then if lid_closed p \<and> \<not> asleep p \<and> \<not> guard \<and> \<not> busy p
           then p\<lparr>menu_owns := False, in_pak := True, pak_latched := True, asleep := True, busy := False,
                  mem_requests := mem_requests p + 1, lid_requests := lid_requests p + 1\<rparr>
           else p\<lparr>menu_owns := False, in_pak := True, pak_latched := True\<rparr>
      else p\<lparr>menu_owns := False\<rparr>)"
  by (cases "menu_seen p"; cases "in_pak p"; cases "lid_closed p"; simp add: lid_defs)

lemma lid_inv_pak:
  assumes "lid_inv p"
  shows "lid_inv (p\<lparr>menu_owns := False\<rparr>)"
    and "menu_seen p \<Longrightarrow> lid_inv (p\<lparr>menu_owns := False, in_pak := True, pak_latched := True\<rparr>)"
    and "menu_seen p \<Longrightarrow> lid_closed p \<Longrightarrow>
      lid_inv (p\<lparr>menu_owns := False, in_pak := True, pak_latched := True, asleep := True, busy := False,
        mem_requests := mem_requests p + 1, lid_requests := lid_requests p + 1\<rparr>)"
  using assms by (simp_all add: lid_inv_def)

lemma lid_serve_inv: "lid_inv p \<Longrightarrow> lid_inv (lid_serve p ev guard ok)"
proof (cases ev)
  case LID_EV_PAK
  then show "lid_inv p \<Longrightarrow> ?thesis"
    unfolding LID_EV_PAK lid_serve_pak using lid_inv_pak [of p] by presburger
qed (simp add: lid_defs Let_def, simp add: lid_inv_def, blast?)+

lemma lid_observe_inv: "lid_inv p \<Longrightarrow> lid_inv (zlyme_lid_observe p closed)"
  by (auto simp: lid_inv_def lid_defs Let_def)

lemma lid_want_iff:
  "snd (zlyme_lid_apply p ev guard) \<longleftrightarrow>
     \<not> guard \<and> \<not> busy p \<and>
     (case ev of LID_EV_POWER \<Rightarrow> \<not> menu_owns p
        | LID_EV_CLOSE \<Rightarrow> \<not> menu_owns p \<and> in_pak p \<and> \<not> asleep p
        | LID_EV_PAK \<Rightarrow> menu_seen p \<and> \<not> in_pak p \<and> lid_closed p \<and> \<not> asleep p
        | _ \<Rightarrow> False)"
  by (cases ev) (auto simp: zlyme_lid_apply_def Let_def)

lemma lid_serve_mem:
  "mem_requests (lid_serve p ev guard ok) =
     (if snd (zlyme_lid_apply p ev guard) then mem_requests p + 1 else mem_requests p)"
  by (cases ev) (auto simp: lid_defs Let_def)

lemma lid_serve_lid_requests:
  "lid_requests (lid_serve p ev guard ok) =
     (if snd (zlyme_lid_apply p ev guard) \<and> ev \<noteq> LID_EV_POWER then lid_requests p + 1 else lid_requests p)"
  by (cases ev) (auto simp: lid_defs Let_def)

lemma lid_serve_asleep:
  "asleep (lid_serve p ev guard ok) \<longleftrightarrow>
     (if ev = LID_EV_OPEN then False
      else asleep p \<or> snd (zlyme_lid_apply p ev guard) \<and> (ev = LID_EV_POWER \<longrightarrow> lid_closed p))"
  by (cases ev) (auto simp: lid_defs Let_def)

lemma lid_serve_menu_owns:
  "menu_owns (lid_serve p ev guard ok) \<longleftrightarrow>
     (case ev of LID_EV_MENU \<Rightarrow> True | LID_EV_PAK \<Rightarrow> False | _ \<Rightarrow> menu_owns p)"
  by (cases ev) (auto simp: lid_defs Let_def)

lemma lid_observe_simps [simp]:
  "mem_requests (zlyme_lid_observe p c) = mem_requests p"
  "lid_requests (zlyme_lid_observe p c) = lid_requests p"
  "menu_owns (zlyme_lid_observe p c) = menu_owns p"
  "asleep (zlyme_lid_observe p c) \<longleftrightarrow> asleep p \<and> c \<noteq> 0"
  by (auto simp: lid_defs Let_def)

end
