(* ===== verification/Keylid_Monitor.thy ===== *)
theory Keylid_Monitor
  imports Lid_Policy C_Strings
begin

text \<open>
  \<^verbatim>\<open>zlyme-keylidmon.c\<close>: the daemon that handles volume, brightness and suspend while an
  application owns the screen. Its state is the policy of \<^verbatim>\<open>lid_policy.h\<close>, the resume guard, the
  virtual pads it watches and the log of the commands it issued. What the operating system
  returns (directory listings, clock readings, switch samples, input events, exit statuses) is
  the input of each operation.
\<close>

section \<open>State\<close>

text \<open>\<^verbatim>\<open>struct menu_pad\<close>.\<close>

record menu_pad =
  fd :: int
  down :: bool
  node :: string

text \<open>The effects of the daemon, in order.\<close>

datatype kl_cmd =
    Cmd_Run string
  | Cmd_System string
  | Cmd_Grab bool
  | Cmd_SetVolume int
  | Cmd_SetBrightness int
  | Cmd_Close int

record kl_state =
  lid_policy :: zlyme_lid_policy
  power_ignore_until_ms :: ulong
  pads :: "menu_pad list"
  vol_fd :: int
  hall_fd :: int
  pwr_fd :: int
  ino :: int
  grabbed :: bool
  in_game :: bool
  menu :: bool
  cmds :: "kl_cmd list"

text \<open>Inputs of one suspend: the clock when the guard is read, whether the helper is
  executable, the status of \<^verbatim>\<open>system\<close>, and the clock after the radios are back.\<close>

record mem_env =
  now_guard :: ulong
  helper_ok :: bool
  sys_status :: int
  now_after :: ulong

record input_event =
  ev_type :: nat
  ev_code :: nat
  ev_value :: int

text \<open>Numbers of \<^verbatim>\<open>linux/input-event-codes.h\<close>.\<close>

abbreviation (input) "EV_KEY \<equiv> (1 :: nat)"
abbreviation (input) "EV_SW \<equiv> (5 :: nat)"
abbreviation (input) "SW_LID \<equiv> (0 :: nat)"
abbreviation (input) "KEY_VOLUMEDOWN \<equiv> (114 :: nat)"
abbreviation (input) "KEY_VOLUMEUP \<equiv> (115 :: nat)"
abbreviation (input) "KEY_POWER \<equiv> (116 :: nat)"
abbreviation (input) "BTN_MODE \<equiv> (316 :: nat)"

abbreviation (input) "MAX_PADS \<equiv> (8 :: nat)"
abbreviation (input) "VOLUME_MAX \<equiv> (20 :: int)"
abbreviation (input) "BRIGHTNESS_MAX \<equiv> (10 :: int)"
abbreviation (input) "POWER_RESUME_GUARD_MS \<equiv> (1000 :: ulong)"

section \<open>Looking at the system\<close>

text \<open>\<^verbatim>\<open>clock_gettime\<close> gives seconds and nanoseconds, or fails.\<close>

definition monotonic_ms :: "(ulong \<times> ulong) option \<Rightarrow> ulong" where
  "monotonic_ms ts = (case ts of None \<Rightarrow> 0 | Some (sec, nsec) \<Rightarrow> sec * 1000 + nsec div 1000000)"

text \<open>The \<^verbatim>\<open>/proc\<close> entries with the first line of their \<^verbatim>\<open>comm\<close>; an unreadable directory is
  the empty list.\<close>

definition menu_comm :: "string \<Rightarrow> bool" where
  "menu_comm comm \<longleftrightarrow> prefix ''nextui.elf'' comm \<or> prefix ''minui.elf'' comm \<or> prefix ''settings.elf'' comm"

fun menu_owns_keys :: "(string \<times> string option) list \<Rightarrow> bool" where
  "menu_owns_keys [] = False"
| "menu_owns_keys ((d_name, comm) # es) =
     (if d_name = [] \<or> char_val (hd d_name) < 49 \<or> 57 < char_val (hd d_name) then menu_owns_keys es
      else case comm of None \<Rightarrow> menu_owns_keys es
           | Some c \<Rightarrow> if menu_comm c then True else menu_owns_keys es)"

text \<open>A directory entry of \<^verbatim>\<open>/dev/input\<close>: the name, the descriptor \<^verbatim>\<open>open\<close> gives, and the device
  name \<^verbatim>\<open>EVIOCGNAME\<close> reads.\<close>

fun open_by_name :: "string \<Rightarrow> (string \<times> int \<times> string option) list \<Rightarrow> int" where
  "open_by_name want [] = -1"
| "open_by_name want ((d_name, f, name) # es) =
     (if \<not> prefix ''event'' d_name then open_by_name want es
      else if f < 0 then open_by_name want es
      else case name of None \<Rightarrow> open_by_name want es
           | Some nm \<Rightarrow> if nm \<noteq> want then open_by_name want es else f)"

text \<open>\<^verbatim>\<open>virtpad.h\<close>: the identity of an InputPlumber target, from the device name, the
  identifiers (bus, vendor, product, version) and the sysfs link.\<close>

record virt_info =
  v_name :: "string option"
  v_id :: "(nat \<times> nat \<times> nat \<times> nat) option"
  v_link :: "string option"

definition zlyme_is_virtpad :: "virt_info \<Rightarrow> string \<Rightarrow> bool" where
  "zlyme_is_virtpad v event_basename =
     (if length event_basename > 16 then False
      else if v_name v \<noteq> Some ''Microsoft X-Box 360 pad'' then False
      else if v_id v \<noteq> Some (3, 0x045e, 0x028e, 1) then False
      else case v_link v of None \<Rightarrow> False | Some link \<Rightarrow> has_substring ''/devices/virtual/'' link)"

text \<open>\<^verbatim>\<open>EVIOCGSW\<close> gives the switch bytes; bit 0 of the first is the lid.\<close>

definition hall_switch_closed :: "int \<Rightarrow> u8 list option \<Rightarrow> int" where
  "hall_switch_closed f sw =
     (if f < 0 then -1
      else case sw of None \<Rightarrow> -1
           | Some bs \<Rightarrow> if bs \<noteq> [] \<and> bit (bs ! (SW_LID div 8)) (SW_LID mod 8) then 1 else 0)"

section \<open>Suspend\<close>

definition guard_active :: "kl_state \<Rightarrow> ulong \<Rightarrow> bool" where
  "guard_active s now =
     (if power_ignore_until_ms s = 0 \<or> now = 0 then False else now < power_ignore_until_ms s)"

definition exited_zero :: "int \<Rightarrow> bool" where
  "exited_zero st \<longleftrightarrow> 0 \<le> st \<and> st mod 128 = 0 \<and> (st div 256) mod 256 = 0"

definition mem_commands :: "bool \<Rightarrow> kl_cmd list" where
  "mem_commands helper =
     [Cmd_Run ''/usr/sbin/zlyme-governor idle >/dev/null 2>&1'',
      Cmd_Run ''/usr/sbin/zlyme-radios pre >/dev/null 2>&1'',
      Cmd_System (if helper then ''/usr/share/nextui/bin/suspend'' else ''echo mem > /sys/power/state''),
      Cmd_Run ''/usr/sbin/zlyme-governor resume >/dev/null 2>&1'',
      Cmd_Run ''/usr/sbin/zlyme-radios resume >/dev/null 2>&1'']"

definition do_mem_sleep :: "kl_state \<Rightarrow> mem_env \<Rightarrow> kl_state" where
  "do_mem_sleep s env = s\<lparr>
     cmds := cmds s @ mem_commands (helper_ok env),
     power_ignore_until_ms := (if now_after env \<noteq> 0 then now_after env + POWER_RESUME_GUARD_MS else 0),
     lid_policy := zlyme_lid_suspend_done (lid_policy s) (exited_zero (sys_status env))\<rparr>"

definition maybe_lid :: "kl_state \<Rightarrow> lid_ev \<Rightarrow> mem_env \<Rightarrow> kl_state" where
  "maybe_lid s ev env =
     (let (p, want) = zlyme_lid_apply (lid_policy s) ev (guard_active s (now_guard env));
          s = s\<lparr>lid_policy := p\<rparr>
      in if want then do_mem_sleep s env else s)"

definition sync_owner :: "kl_state \<Rightarrow> u8 list option \<Rightarrow> bool \<Rightarrow> mem_env \<Rightarrow> kl_state" where
  "sync_owner s sw menu_alive env =
     maybe_lid (s\<lparr>lid_policy := zlyme_lid_observe (lid_policy s) (hall_switch_closed (hall_fd s) sw)\<rparr>)
       (if menu_alive then LID_EV_MENU else LID_EV_PAK) env"

section \<open>Volume and brightness\<close>

text \<open>The level read from the settings library is an input; the call made is the output.\<close>

definition apply_vol :: "bool \<Rightarrow> int \<Rightarrow> kl_cmd list" where
  "apply_vol up v =
     (if up \<and> v < VOLUME_MAX then [Cmd_SetVolume (v + 1)]
      else if \<not> up \<and> v > 0 then [Cmd_SetVolume (v - 1)] else [])"

definition apply_bri :: "bool \<Rightarrow> int \<Rightarrow> kl_cmd list" where
  "apply_bri up v =
     (if up \<and> v < BRIGHTNESS_MAX then [Cmd_SetBrightness (v + 1)]
      else if \<not> up \<and> v > 0 then [Cmd_SetBrightness (v - 1)] else [])"

section \<open>Watched pads\<close>

fun pad_find :: "menu_pad list \<Rightarrow> string \<Rightarrow> bool" where
  "pad_find [] nd = False"
| "pad_find (p # ps) nd = (if node p = nd then True else pad_find ps nd)"

definition any_menu :: "menu_pad list \<Rightarrow> bool" where
  "any_menu ps = list_ex down ps"

text \<open>The first pad with the descriptor is replaced by the last one.\<close>

fun fd_index :: "menu_pad list \<Rightarrow> int \<Rightarrow> nat option" where
  "fd_index [] f = None"
| "fd_index (p # ps) f = (if fd p = f then Some 0 else map_option Suc (fd_index ps f))"

definition drop_menu_fd :: "menu_pad list \<Rightarrow> int \<Rightarrow> menu_pad list" where
  "drop_menu_fd ps f =
     (case fd_index ps f of None \<Rightarrow> ps | Some i \<Rightarrow> butlast (ps[i := last ps]))"

text \<open>A directory entry with the descriptor \<^verbatim>\<open>open\<close> gives and what identifies the device.\<close>

fun scan_menu_pads :: "(string \<times> int \<times> virt_info) list \<Rightarrow> menu_pad list \<Rightarrow> menu_pad list \<times> int list" where
  "scan_menu_pads [] ps = (ps, [])"
| "scan_menu_pads ((d_name, f, v) # es) ps =
     (if \<not> prefix ''event'' d_name then scan_menu_pads es ps
      else if length d_name = 0 \<or> length d_name \<ge> 32 then scan_menu_pads es ps
      else if pad_find ps d_name then scan_menu_pads es ps
      else if length ps \<ge> MAX_PADS then (ps, [])
      else if f < 0 then scan_menu_pads es ps
      else if \<not> zlyme_is_virtpad v d_name
        then (let (ps', closed) = scan_menu_pads es ps in (ps', f # closed))
      else scan_menu_pads es (ps @ [\<lparr>fd = f, down = False, node = d_name\<rparr>]))"

definition kl_scan :: "kl_state \<Rightarrow> (string \<times> int \<times> virt_info) list \<Rightarrow> kl_state" where
  "kl_scan s dir =
     (let (ps, closed) = scan_menu_pads dir (pads s)
      in s\<lparr>pads := ps, cmds := cmds s @ map Cmd_Close closed\<rparr>)"

section \<open>The main loop\<close>

text \<open>The top of one iteration: find the owner, sync the policy, take or release the volume keys.\<close>

definition kl_head :: "kl_state \<Rightarrow> (string \<times> string option) list \<Rightarrow> u8 list option \<Rightarrow> mem_env \<Rightarrow> kl_state" where
  "kl_head s procs sw env =
     (let g = \<not> menu_owns_keys procs;
          s = sync_owner (s\<lparr>in_game := g\<rparr>) sw (\<not> g) env
      in if 0 \<le> vol_fd s \<and> grabbed s \<noteq> g
         then s\<lparr>cmds := cmds s @ [Cmd_Grab g], grabbed := g\<rparr> else s)"

definition poll_set :: "kl_state \<Rightarrow> int list" where
  "poll_set s = map fd (pads s) @ filter (\<lambda>f. 0 \<le> f) [vol_fd s, hall_fd s, pwr_fd s, ino s]"

text \<open>A polled descriptor that is a watched pad: its events, then its hang-up.\<close>

definition pad_event :: "menu_pad \<Rightarrow> input_event \<Rightarrow> menu_pad" where
  "pad_event p ev =
     (if ev_type ev = EV_KEY \<and> ev_code ev = BTN_MODE then p\<lparr>down := ev_value ev \<noteq> 0\<rparr> else p)"

definition kl_pad :: "kl_state \<Rightarrow> int \<Rightarrow> bool \<Rightarrow> bool \<Rightarrow> input_event list \<Rightarrow> kl_state" where
  "kl_pad s f pollin hup evs =
     (case fd_index (pads s) f of
        None \<Rightarrow> s
      | Some j \<Rightarrow>
          let s = (if pollin
                   then let ps = (pads s)[j := foldl pad_event (pads s ! j) evs]
                        in s\<lparr>pads := ps, menu := any_menu ps\<rparr>
                   else s)
          in if hup
             then let ps = drop_menu_fd (pads s) f
                  in s\<lparr>pads := ps, menu := any_menu ps, cmds := cmds s @ [Cmd_Close f]\<rparr>
             else s)"

text \<open>One event read from a lid, power or volume descriptor.\<close>

record kl_read_in =
  r_ev :: input_event
  r_lid_env :: mem_env
  r_pwr_env :: mem_env
  r_level :: int

definition read_lid :: "int \<Rightarrow> kl_state \<Rightarrow> kl_read_in \<Rightarrow> kl_state" where
  "read_lid f s r =
     (let ev = r_ev r
      in if f = hall_fd s \<and> ev_type ev = EV_SW \<and> ev_code ev = SW_LID \<and> (ev_value ev = 0 \<or> ev_value ev = 1)
         then maybe_lid s (if ev_value ev \<noteq> 0 then LID_EV_CLOSE else LID_EV_OPEN) (r_lid_env r) else s)"

definition read_power :: "int \<Rightarrow> kl_state \<Rightarrow> kl_read_in \<Rightarrow> kl_state" where
  "read_power f s r =
     (let ev = r_ev r
      in if f = pwr_fd s \<and> ev_type ev = EV_KEY \<and> ev_code ev = KEY_POWER \<and> ev_value ev = 1
         then maybe_lid s LID_EV_POWER (r_pwr_env r) else s)"

definition read_volume :: "int \<Rightarrow> kl_state \<Rightarrow> kl_read_in \<Rightarrow> kl_state" where
  "read_volume f s r =
     (let ev = r_ev r
      in if f = vol_fd s \<and> ev_type ev = EV_KEY \<and> (ev_value ev = 1 \<or> ev_value ev = 2)
            \<and> (ev_code ev = KEY_VOLUMEUP \<or> ev_code ev = KEY_VOLUMEDOWN)
         then (if \<not> in_game s then s
               else if menu s
                 then s\<lparr>cmds := cmds s @ apply_bri (ev_code ev = KEY_VOLUMEUP) (r_level r)\<rparr>
                 else s\<lparr>cmds := cmds s @ apply_vol (ev_code ev = KEY_VOLUMEUP) (r_level r)\<rparr>)
         else s)"

definition kl_read :: "int \<Rightarrow> kl_state \<Rightarrow> kl_read_in \<Rightarrow> kl_state" where
  "kl_read f s r = read_volume f (read_power f (read_lid f s r) r) r"

text \<open>One entry of the poll result: the descriptor, its conditions, and what reading gives.\<close>

record kl_poll_in =
  p_fd :: int
  p_in :: bool
  p_hup :: bool
  p_dir :: "(string \<times> int \<times> virt_info) list"
  p_pad_evs :: "input_event list"
  p_reads :: "kl_read_in list"

definition kl_entry :: "kl_state \<Rightarrow> kl_poll_in \<Rightarrow> kl_state" where
  "kl_entry s e =
     (let s = (if 0 \<le> ino s \<and> p_fd e = ino s \<and> p_in e then kl_scan s (p_dir e) else s);
          s = kl_pad s (p_fd e) (p_in e) (p_hup e) (p_pad_evs e)
      in if \<not> p_in e then s
         else if p_fd e \<noteq> hall_fd s \<and> p_fd e \<noteq> pwr_fd s \<and> p_fd e \<noteq> vol_fd s then s
         else foldl (kl_read (p_fd e)) s (p_reads e))"

text \<open>The body of the loop; \<open>None\<close> from \<^verbatim>\<open>poll\<close> is an interrupted call.\<close>

definition kl_iteration ::
  "kl_state \<Rightarrow> (string \<times> string option) list \<Rightarrow> u8 list option \<Rightarrow> mem_env \<Rightarrow> kl_poll_in list option \<Rightarrow> kl_state" where
  "kl_iteration s procs sw env polled =
     (let s = kl_head s procs sw env
      in case polled of None \<Rightarrow> s | Some es \<Rightarrow> foldl kl_entry s es)"

text \<open>Start-up: the three devices by name, the inotify descriptor and whether its watch was
  added, and the two scans.\<close>

definition kl_open ::
  "(string \<times> int \<times> string option) list \<Rightarrow> int \<Rightarrow> bool \<Rightarrow> (string \<times> int \<times> virt_info) list
     \<Rightarrow> (string \<times> int \<times> virt_info) list \<Rightarrow> kl_state" where
  "kl_open names ino0 watch_ok dir1 dir2 =
     (let s = \<lparr>lid_policy = lid_policy_init, power_ignore_until_ms = 0, pads = [],
                vol_fd = open_by_name ''gpio-keys-volume'' names,
                hall_fd = open_by_name ''gpio-keys-hall'' names,
                pwr_fd = open_by_name ''rk805 pwrkey'' names,
                ino = ino0, grabbed = False, in_game = False, menu = False, cmds = []\<rparr>;
          s = kl_scan s dir1
      in if 0 \<le> ino s
         then (if watch_ok then kl_scan s dir2 else s\<lparr>cmds := cmds s @ [Cmd_Close (ino s)], ino := -1\<rparr>)
         else s)"

definition kl_start ::
  "(string \<times> int \<times> string option) list \<Rightarrow> int \<Rightarrow> bool \<Rightarrow> (string \<times> int \<times> virt_info) list
     \<Rightarrow> (string \<times> int \<times> virt_info) list \<Rightarrow> kl_state option" where
  "kl_start names ino0 watch_ok dir1 dir2 =
     (let s = kl_open names ino0 watch_ok dir1 dir2
      in if vol_fd s < 0 \<and> hall_fd s < 0 \<and> pwr_fd s < 0 then None else Some s)"

text \<open>Shutdown: the grab is released and every descriptor closed.\<close>

lemma fd_index_Some:
  "fd_index ps f = Some i \<Longrightarrow> i < length ps \<and> fd (ps ! i) = f"
  by (induction ps f arbitrary: i rule: fd_index.induct) (auto split: if_splits)

lemma drop_menu_fd_length:
  "length (drop_menu_fd ps f) = (if fd_index ps f = None then length ps else length ps - 1)"
  by (auto simp: drop_menu_fd_def split: option.splits)

function close_pads :: "menu_pad list \<Rightarrow> kl_cmd list" where
  "close_pads [] = []"
| "close_pads (p # ps) = Cmd_Close (fd p) # close_pads (drop_menu_fd (p # ps) (fd p))"
  by pat_completeness auto
termination
  by (relation "measure length") (auto simp: drop_menu_fd_length)

definition kl_stop :: "kl_state \<Rightarrow> kl_cmd list" where
  "kl_stop s =
     (if 0 \<le> vol_fd s then [Cmd_Grab False, Cmd_Close (vol_fd s)] else [])
     @ (if 0 \<le> hall_fd s then [Cmd_Close (hall_fd s)] else [])
     @ (if 0 \<le> pwr_fd s then [Cmd_Close (pwr_fd s)] else [])
     @ close_pads (pads s)
     @ (if 0 \<le> ino s then [Cmd_Close (ino s)] else [])"

section \<open>The settings directory\<close>

text \<open>\<^verbatim>\<open>zlyme_set_userdata_path\<close>: the value given to \<^verbatim>\<open>USERDATA_PATH\<close>, when it is not set. The
  configuration file is its text, or \<open>None\<close> when it cannot be opened.\<close>

definition plat_of_line :: "string \<Rightarrow> string" where
  "plat_of_line line =
     (let p = dropWhile (\<lambda>c. c \<in> {CHR '' '', c_tab, CHR 0x27, CHR 0x22}) (drop 22 line);
          v = takeWhile (\<lambda>c. c \<notin> {c_cr, c_nl, CHR 0x27, CHR 0x22}) p
      in if 0 < length v \<and> length v < 64 then v else [])"

definition conf_platform :: "string option \<Rightarrow> string" where
  "conf_platform conf =
     (case conf of None \<Rightarrow> []
      | Some t \<Rightarrow> (case find (prefix ''ZLYME_NEXTUI_PLATFORM='') (fgets_lines 158 t) of
                     None \<Rightarrow> [] | Some line \<Rightarrow> plat_of_line line))"

definition zlyme_set_userdata_path :: "string option \<Rightarrow> string option \<Rightarrow> string option" where
  "zlyme_set_userdata_path env conf =
     (if env \<noteq> None then None
      else let plat = conf_platform conf;
               plat = (if plat = [] then ''my355'' else plat)
           in Some (''/storage/.config/nextui/'' @ plat))"

end
