(* ===== verification/Keylid_Props.thy ===== *)
theory Keylid_Props
  imports Keylid_Monitor
begin

text \<open>
  Properties of the key and lid monitor: the invariant of its event loop, one suspend per
  closed period, the resume guard, and silence while the frontend owns the screen.
\<close>

section \<open>Runs of the event loop\<close>

record kl_iter_in =
  i_procs :: "(string \<times> string option) list"
  i_switch :: "u8 list option"
  i_env :: mem_env
  i_polled :: "kl_poll_in list option"

definition kl_iter :: "kl_state \<Rightarrow> kl_iter_in \<Rightarrow> kl_state" where
  "kl_iter s i = kl_iteration s (i_procs i) (i_switch i) (i_env i) (i_polled i)"

text \<open>A predicate kept by each operation is kept by a whole iteration; the reads may be
  restricted by a predicate on the event.\<close>

lemma kl_entry_keeps:
  assumes "\<And>s d. Q s \<Longrightarrow> Q (kl_scan s d)"
    and "\<And>s f a b es. Q s \<Longrightarrow> Q (kl_pad s f a b es)"
    and "\<And>s r. Q s \<Longrightarrow> r \<in> set (p_reads e) \<Longrightarrow> Q (kl_read (p_fd e) s r)"
    and "Q s"
  shows "Q (kl_entry s e)"
proof -
  let ?s1 = "if 0 \<le> ino s \<and> p_fd e = ino s \<and> p_in e then kl_scan s (p_dir e) else s"
  have "Q ?s1" using assms(1,4) by simp
  then have 2: "Q (kl_pad ?s1 (p_fd e) (p_in e) (p_hup e) (p_pad_evs e))" (is "Q ?s2") by (rule assms(2))
  moreover have "Q (foldl (kl_read (p_fd e)) ?s2 (p_reads e))"
    by (rule foldl_keeps [where Q = Q]) (rule assms(3), assumption+, rule 2)
  ultimately show ?thesis unfolding kl_entry_def Let_def by presburger
qed

lemma kl_iter_keeps:
  assumes "Q (kl_head s (i_procs i) (i_switch i) (i_env i))"
    and "\<And>s d. Q s \<Longrightarrow> Q (kl_scan s d)"
    and "\<And>s f a b es. Q s \<Longrightarrow> Q (kl_pad s f a b es)"
    and "\<And>es e s r. i_polled i = Some es \<Longrightarrow> e \<in> set es \<Longrightarrow> r \<in> set (p_reads e) \<Longrightarrow> Q s \<Longrightarrow> Q (kl_read (p_fd e) s r)"
  shows "Q (kl_iter s i)"
proof (cases "i_polled i")
  case None
  with assms(1) show ?thesis by (simp add: kl_iter_def kl_iteration_def Let_def)
next
  case (Some es)
  have "Q (foldl kl_entry (kl_head s (i_procs i) (i_switch i) (i_env i)) es)"
    by (rule foldl_keeps [where Q = Q], rule kl_entry_keeps [where Q = Q])
      (auto intro: assms simp: Some)
  with Some show ?thesis by (simp add: kl_iter_def kl_iteration_def Let_def)
qed

section \<open>The parts of the state\<close>

definition is_mem_cmd :: "kl_cmd \<Rightarrow> bool" where
  "is_mem_cmd c = (case c of Cmd_Run x \<Rightarrow> True | Cmd_System x \<Rightarrow> True | _ \<Rightarrow> False)"

definition mem_log :: "kl_state \<Rightarrow> kl_cmd list" where
  "mem_log s = filter is_mem_cmd (cmds s)"

definition grab_state :: "kl_cmd list \<Rightarrow> bool" where
  "grab_state cs = foldl (\<lambda>g c. case c of Cmd_Grab b \<Rightarrow> b | _ \<Rightarrow> g) False cs"

definition mem_blocks :: "nat \<Rightarrow> kl_cmd list \<Rightarrow> bool" where
  "mem_blocks n cs \<longleftrightarrow> (\<exists>hs. length hs = n \<and> cs = concat (map mem_commands hs))"

definition pads_ok :: "menu_pad list \<Rightarrow> bool" where
  "pads_ok ps \<longleftrightarrow> length ps \<le> 8 \<and> distinct (map node ps)
     \<and> (\<forall>p \<in> set ps. 0 \<le> fd p \<and> prefix ''event'' (node p) \<and> length (node p) < 32)"

definition kl_core :: "kl_state \<Rightarrow> bool" where
  "kl_core s \<longleftrightarrow> lid_inv (lid_policy s) \<and> pads_ok (pads s) \<and> menu s = any_menu (pads s)
     \<and> mem_blocks (mem_requests (lid_policy s)) (mem_log s)
     \<and> grabbed s = grab_state (cmds s)"

definition kl_inv :: "kl_state \<Rightarrow> bool" where
  "kl_inv s \<longleftrightarrow> kl_core s \<and> (0 \<le> vol_fd s \<longrightarrow> grabbed s = in_game s)"

lemma filter_mem_commands [simp]: "filter is_mem_cmd (mem_commands h) = mem_commands h"
  by (simp add: mem_commands_def is_mem_cmd_def)

lemma filter_mem_others [simp]:
  "filter is_mem_cmd (map Cmd_Close xs) = []"
  "filter is_mem_cmd (apply_vol up v) = []"
  "filter is_mem_cmd (apply_bri up v) = []"
  "is_mem_cmd (Cmd_Close f) = False" "is_mem_cmd (Cmd_Grab g) = False"
  by (auto simp: is_mem_cmd_def apply_vol_def apply_bri_def)

lemma grab_state_append:
  "grab_state (cs @ ds) = foldl (\<lambda>g c. case c of Cmd_Grab b \<Rightarrow> b | _ \<Rightarrow> g) (grab_state cs) ds"
  by (simp add: grab_state_def)

lemma foldl_no_grab:
  "\<forall>c \<in> set ds. \<forall>b. c \<noteq> Cmd_Grab b \<Longrightarrow>
     foldl (\<lambda>g c. case c of Cmd_Grab b \<Rightarrow> b | _ \<Rightarrow> g) g ds = g"
  by (induction ds arbitrary: g) (auto split: kl_cmd.splits)

lemma grab_state_others [simp]:
  "grab_state (cs @ mem_commands h) = grab_state cs"
  "grab_state (cs @ map Cmd_Close xs) = grab_state cs"
  "grab_state (cs @ apply_vol up v) = grab_state cs"
  "grab_state (cs @ apply_bri up v) = grab_state cs"
  "grab_state (cs @ [Cmd_Close f]) = grab_state cs"
  "grab_state (cs @ [Cmd_Grab g]) = g"
  unfolding grab_state_append
  by (auto intro!: foldl_no_grab simp: mem_commands_def apply_vol_def apply_bri_def)

lemma mem_blocks_Suc: "mem_blocks n cs \<Longrightarrow> mem_blocks (Suc n) (cs @ mem_commands h)"
  unfolding mem_blocks_def by (metis concat_append concat.simps(1,2) append_Nil2 length_append_singleton list.simps(8,9) map_append)

text \<open>The effect of one lid or power event on the state, read off \<open>maybe_lid\<close>.\<close>

lemma maybe_lid_policy:
  "lid_policy (maybe_lid s ev env) =
     lid_serve (lid_policy s) ev (guard_active s (now_guard env)) (exited_zero (sys_status env))"
  by (simp add: maybe_lid_def lid_serve_def do_mem_sleep_def Let_def split: prod.splits)

lemma maybe_lid_cmds:
  "cmds (maybe_lid s ev env) =
     cmds s @ (if snd (zlyme_lid_apply (lid_policy s) ev (guard_active s (now_guard env)))
               then mem_commands (helper_ok env) else [])"
  by (simp add: maybe_lid_def do_mem_sleep_def Let_def split: prod.splits)

lemma maybe_lid_guard:
  "power_ignore_until_ms (maybe_lid s ev env) =
     (if snd (zlyme_lid_apply (lid_policy s) ev (guard_active s (now_guard env)))
      then (if now_after env \<noteq> 0 then now_after env + 1000 else 0) else power_ignore_until_ms s)"
  by (simp add: maybe_lid_def do_mem_sleep_def Let_def split: prod.splits)

lemma maybe_lid_frame [simp]:
  "pads (maybe_lid s ev env) = pads s" "menu (maybe_lid s ev env) = menu s"
  "grabbed (maybe_lid s ev env) = grabbed s" "in_game (maybe_lid s ev env) = in_game s"
  "vol_fd (maybe_lid s ev env) = vol_fd s" "hall_fd (maybe_lid s ev env) = hall_fd s"
  "pwr_fd (maybe_lid s ev env) = pwr_fd s" "ino (maybe_lid s ev env) = ino s"
  by (simp_all add: maybe_lid_def do_mem_sleep_def Let_def split: prod.splits)

lemma maybe_lid_core: "kl_core s \<Longrightarrow> kl_core (maybe_lid s ev env)"
  by (auto simp: kl_core_def maybe_lid_policy maybe_lid_cmds lid_serve_mem mem_log_def
      intro: lid_serve_inv mem_blocks_Suc)

lemma maybe_lid_inv: "kl_inv s \<Longrightarrow> kl_inv (maybe_lid s ev env)"
  by (simp add: kl_inv_def maybe_lid_core)

text \<open>The top of the loop, with the lid and ownership handling in one event.\<close>

definition head_synced :: "kl_state \<Rightarrow> (string \<times> string option) list \<Rightarrow> u8 list option \<Rightarrow> mem_env \<Rightarrow> kl_state" where
  "head_synced s procs sw env =
     maybe_lid (s\<lparr>in_game := \<not> menu_owns_keys procs,
         lid_policy := zlyme_lid_observe (lid_policy s) (hall_switch_closed (hall_fd s) sw)\<rparr>)
       (if menu_owns_keys procs then LID_EV_MENU else LID_EV_PAK) env"

lemma kl_head_eq:
  "kl_head s procs sw env =
     (let t = head_synced s procs sw env
      in if 0 \<le> vol_fd t \<and> grabbed t \<noteq> in_game t
         then t\<lparr>cmds := cmds t @ [Cmd_Grab (in_game t)], grabbed := in_game t\<rparr> else t)"
  by (simp add: kl_head_def sync_owner_def head_synced_def Let_def)

lemma head_synced_core: "kl_core s \<Longrightarrow> kl_core (head_synced s procs sw env)"
  unfolding head_synced_def
  by (rule maybe_lid_core) (simp add: kl_core_def lid_observe_inv mem_log_def)

lemma kl_head_inv: "kl_inv s \<Longrightarrow> kl_inv (kl_head s procs sw env)"
  using head_synced_core [of s procs sw env]
  by (auto simp: kl_head_eq kl_inv_def kl_core_def mem_log_def Let_def)

section \<open>The watched pads\<close>

lemma pad_find_iff: "pad_find ps nd \<longleftrightarrow> nd \<in> node ` set ps"
  by (induction ps nd rule: pad_find.induct) auto

lemma scan_menu_pads_ok:
  "scan_menu_pads es ps = (qs, cl) \<Longrightarrow> pads_ok ps \<Longrightarrow> pads_ok qs \<and> any_menu qs = any_menu ps"
proof (induction es ps arbitrary: qs cl rule: scan_menu_pads.induct)
  case (2 d_name f v es ps)
  then show ?case
    by (auto simp: pads_ok_def pad_find_iff any_menu_def Let_def split: if_splits prod.splits)
qed auto

lemma kl_scan_inv: "kl_inv s \<Longrightarrow> kl_inv (kl_scan s d)"
  by (auto simp: kl_inv_def kl_core_def kl_scan_def mem_log_def Let_def
      split: prod.splits dest: scan_menu_pads_ok)

lemma pad_event_frame [simp]:
  "fd (foldl pad_event p evs) = fd p" "node (foldl pad_event p evs) = node p"
  by (induction evs arbitrary: p) (simp_all add: pad_event_def)

lemma pads_ok_update:
  assumes "pads_ok ps" and "j < length ps" and "fd p = fd (ps ! j)" and "node p = node (ps ! j)"
  shows "pads_ok (ps[j := p])"
proof -
  have "map node (ps[j := p]) = map node ps"
    using assms by (simp add: map_update list_update_same_conv)
  moreover have "p' \<in> set ps \<or> p' = p" if "p' \<in> set (ps[j := p])" for p'
    using set_update_subset_insert [of ps j p] that by auto
  ultimately show ?thesis
    using assms nth_mem [OF assms(2)] unfolding pads_ok_def by (metis length_list_update)
qed

lemma pads_ok_drop: "pads_ok ps \<Longrightarrow> pads_ok (drop_menu_fd ps f)"
proof (cases "fd_index ps f")
  case (Some i)
  assume ok: "pads_ok ps"
  let ?qs = "drop_menu_fd ps f"
  have i: "i < length ps" using fd_index_Some [OF Some] by simp
  have m: "mset ?qs = mset ps - {#ps ! i#}" by (simp add: drop_menu_fd_def Some butlast_update_mset [OF i])
  then have e: "mset ps = mset (ps ! i # ?qs)" using i by (simp add: insert_DiffM)
  then have "mset (map node ps) = mset (map node (ps ! i # ?qs))" by (metis mset_map)
  then have "distinct (map node ?qs)"
    using ok mset_eq_imp_distinct_iff unfolding pads_ok_def by fastforce
  moreover have "set ?qs \<subseteq> set ps" using mset_eq_setD [OF e] by auto
  moreover have "length ?qs \<le> length ps" by (simp add: drop_menu_fd_length)
  ultimately show ?thesis using ok unfolding pads_ok_def by auto
qed (simp add: drop_menu_fd_def)

lemma kl_pad_inv: "kl_inv s \<Longrightarrow> kl_inv (kl_pad s f a b es)"
  by (auto simp: kl_inv_def kl_core_def kl_pad_def mem_log_def Let_def
      intro!: pads_ok_update pads_ok_drop split: option.splits dest: fd_index_Some)

lemma kl_read_cases:
  assumes "Q s"
    and "\<And>s ev env. Q s \<Longrightarrow> Q (maybe_lid s ev env)"
    and "\<And>s up v. Q s \<Longrightarrow> Q (s\<lparr>cmds := cmds s @ apply_bri up v\<rparr>)"
    and "\<And>s up v. Q s \<Longrightarrow> Q (s\<lparr>cmds := cmds s @ apply_vol up v\<rparr>)"
  shows "Q (kl_read f s r)"
  unfolding kl_read_def read_lid_def read_power_def read_volume_def Let_def using assms by simp

lemma kl_inv_cmds:
  "kl_inv s \<Longrightarrow> filter is_mem_cmd cs = [] \<Longrightarrow> grab_state (cmds s @ cs) = grab_state (cmds s) \<Longrightarrow>
     kl_inv (s\<lparr>cmds := cmds s @ cs\<rparr>)"
  by (auto simp: kl_inv_def kl_core_def mem_log_def)

lemma kl_read_inv: "kl_inv s \<Longrightarrow> kl_inv (kl_read f s r)"
  by (erule kl_read_cases) (simp_all add: maybe_lid_inv kl_inv_cmds)

lemma kl_iter_inv: "kl_inv s \<Longrightarrow> kl_inv (kl_iter s i)"
  by (rule kl_iter_keeps) (simp_all add: kl_head_inv kl_scan_inv kl_pad_inv kl_read_inv)

lemma kl_open_inv: "kl_inv (kl_open names ino0 watch_ok dir1 dir2)"
proof -
  let ?s = "\<lparr>lid_policy = lid_policy_init, power_ignore_until_ms = 0, pads = [],
    vol_fd = open_by_name ''gpio-keys-volume'' names, hall_fd = open_by_name ''gpio-keys-hall'' names,
    pwr_fd = open_by_name ''rk805 pwrkey'' names, ino = ino0, grabbed = False, in_game = False,
    menu = False, cmds = []\<rparr>"
  have "kl_inv ?s"
    by (simp add: kl_inv_def kl_core_def pads_ok_def any_menu_def mem_blocks_def mem_log_def
        grab_state_def lid_policy_init_def lid_inv_def)
  then have 1: "kl_inv (kl_scan ?s dir1)" by (rule kl_scan_inv)
  moreover have "kl_inv (s\<lparr>cmds := cmds s @ [Cmd_Close f], ino := -1\<rparr>)" if "kl_inv s" for s f
    using that by (auto simp: kl_inv_def kl_core_def mem_log_def)
  ultimately show ?thesis by (simp add: kl_open_def kl_scan_inv Let_def)
qed

interpretation kl_sys: transition_system kl_iter "kl_open names ino0 watch_ok dir1 dir2" kl_inv
  for names ino0 watch_ok dir1 dir2
  by unfold_locales (rule kl_open_inv, rule kl_iter_inv)

section \<open>One lid request per closed period\<close>

text \<open>The iteration sees the lid neither sampled open nor opened.\<close>

definition open_event :: "input_event \<Rightarrow> bool" where
  "open_event ev \<longleftrightarrow> ev_type ev = EV_SW \<and> ev_code ev = SW_LID \<and> ev_value ev = 0"

definition stays_shut :: "int \<Rightarrow> kl_iter_in \<Rightarrow> bool" where
  "stays_shut h i \<longleftrightarrow> hall_switch_closed h (i_switch i) \<noteq> 0 \<and>
     (case i_polled i of None \<Rightarrow> True
      | Some es \<Rightarrow> list_all (\<lambda>e. p_fd e \<noteq> h \<or> list_all (\<lambda>r. \<not> open_event (r_ev r)) (p_reads e)) es)"

text \<open>Requests made so far plus the one still available in this period.\<close>

definition lid_potential :: "zlyme_lid_policy \<Rightarrow> nat" where
  "lid_potential p = lid_requests p + (if asleep p then 0 else 1)"

lemma lid_serve_potential: "ev \<noteq> LID_EV_OPEN \<Longrightarrow> lid_potential (lid_serve p ev g ok) \<le> lid_potential p"
  unfolding lid_potential_def lid_serve_lid_requests lid_serve_asleep lid_want_iff
  by (cases ev) auto

definition shut_bound :: "int \<Rightarrow> nat \<Rightarrow> kl_state \<Rightarrow> bool" where
  "shut_bound h c s \<longleftrightarrow> hall_fd s = h \<and> lid_potential (lid_policy s) \<le> c"

lemma shut_bound_lid: "shut_bound h c s \<Longrightarrow> ev \<noteq> LID_EV_OPEN \<Longrightarrow> shut_bound h c (maybe_lid s ev env)"
  using lid_serve_potential by (fastforce simp: shut_bound_def maybe_lid_policy intro: le_trans)

lemma kl_frame [simp]:
  "hall_fd (kl_scan s d) = hall_fd s" "lid_policy (kl_scan s d) = lid_policy s"
  "hall_fd (kl_pad s f a b es) = hall_fd s" "lid_policy (kl_pad s f a b es) = lid_policy s"
  "power_ignore_until_ms (kl_scan s d) = power_ignore_until_ms s"
  "power_ignore_until_ms (kl_pad s f a b es) = power_ignore_until_ms s"
  "in_game (kl_scan s d) = in_game s" "in_game (kl_pad s f a b es) = in_game s"
  by (auto simp: kl_scan_def kl_pad_def Let_def split: prod.splits option.splits)

lemma shut_bound_read:
  assumes "shut_bound h c s" and "f \<noteq> h \<or> \<not> open_event (r_ev r)"
  shows "shut_bound h c (kl_read f s r)"
proof -
  have "shut_bound h c (read_lid f s r)"
    using assms by (auto simp: read_lid_def open_event_def Let_def shut_bound_lid) (simp add: shut_bound_def)
  then have "shut_bound h c (read_power f (read_lid f s r) r)"
    by (simp add: read_power_def Let_def shut_bound_lid)
  then show ?thesis by (simp add: kl_read_def read_volume_def Let_def shut_bound_def)
qed

lemma shut_bound_head:
  assumes "shut_bound h c s" and "hall_switch_closed h sw \<noteq> 0"
  shows "shut_bound h c (kl_head s procs sw env)"
proof -
  have "shut_bound h c (head_synced s procs sw env)"
    unfolding head_synced_def using assms
    by (intro shut_bound_lid) (auto simp: shut_bound_def lid_potential_def)
  then show ?thesis by (simp add: kl_head_eq shut_bound_def Let_def)
qed

lemma shut_bound_iter: "shut_bound h c s \<Longrightarrow> stays_shut h i \<Longrightarrow> shut_bound h c (kl_iter s i)"
proof (rule kl_iter_keeps)
  fix es e s r
  assume "stays_shut h i" "i_polled i = Some es" "e \<in> set es" "r \<in> set (p_reads e)" "shut_bound h c s"
  then show "shut_bound h c (kl_read (p_fd e) s r)"
    by (intro shut_bound_read) (auto simp: stays_shut_def list_all_iff)
qed (simp_all add: stays_shut_def shut_bound_head, simp_all add: shut_bound_def)

lemma shut_bound_run:
  "shut_bound h c s \<Longrightarrow> \<forall>i \<in> set is. stays_shut h i \<Longrightarrow> shut_bound h c (foldl kl_iter s is)"
  by (rule foldl_keeps) (auto intro: shut_bound_iter)

section \<open>The resume guard\<close>

definition clocks_in :: "ulong \<Rightarrow> kl_iter_in \<Rightarrow> bool" where
  "clocks_in n i \<longleftrightarrow>
     (let ok = (\<lambda>env. n \<le> now_guard env \<and> now_guard env < n + 1000)
      in ok (i_env i) \<and>
         (case i_polled i of None \<Rightarrow> True
          | Some es \<Rightarrow> list_all (\<lambda>e. list_all (\<lambda>r. ok (r_lid_env r) \<and> ok (r_pwr_env r)) (p_reads e)) es))"

definition guarded :: "ulong \<Rightarrow> kl_cmd list \<Rightarrow> kl_state \<Rightarrow> bool" where
  "guarded n log s \<longleftrightarrow> power_ignore_until_ms s = n + 1000 \<and> mem_log s = log"

lemma guarded_lid:
  assumes "guarded n log s" and "0 < n" and "n \<le> now_guard env" and "now_guard env < n + 1000"
  shows "guarded n log (maybe_lid s ev env)"
proof -
  have "guard_active s (now_guard env)"
    using assms by (auto simp: guarded_def guard_active_def word_neq_0_conv) 
  then show ?thesis using assms(1)
    by (simp add: guarded_def maybe_lid_guard lid_want_iff mem_log_def maybe_lid_cmds)
qed

lemma guarded_iter:
  assumes "guarded n log s" and "0 < n" and "clocks_in n i"
  shows "guarded n log (kl_iter s i)"
proof (rule kl_iter_keeps)
  have "guarded n log (head_synced s (i_procs i) (i_switch i) (i_env i))"
    unfolding head_synced_def using assms
    by (intro guarded_lid) (auto simp: guarded_def mem_log_def clocks_in_def Let_def)
  then show "guarded n log (kl_head s (i_procs i) (i_switch i) (i_env i))"
    by (simp add: kl_head_eq guarded_def mem_log_def Let_def)
next
  fix es e s r
  assume "i_polled i = Some es" "e \<in> set es" "r \<in> set (p_reads e)" and s: "guarded n log s"
  then have "guarded n log (read_lid f s r)" for f
    using assms by (auto simp: read_lid_def Let_def clocks_in_def list_all_iff intro!: guarded_lid)
  then have "guarded n log (read_power f (read_lid f s r) r)" for f
    using assms \<open>i_polled i = Some es\<close> \<open>e \<in> set es\<close> \<open>r \<in> set (p_reads e)\<close>
    by (auto simp: read_power_def Let_def clocks_in_def list_all_iff intro!: guarded_lid)
  then show "guarded n log (kl_read (p_fd e) s r)"
    by (simp add: kl_read_def read_volume_def Let_def guarded_def mem_log_def)
qed (auto simp: guarded_def mem_log_def kl_scan_def kl_pad_def Let_def split: prod.splits option.splits)

section \<open>Silence while the frontend owns the screen\<close>

definition is_user_cmd :: "kl_cmd \<Rightarrow> bool" where
  "is_user_cmd c = (case c of Cmd_Grab b \<Rightarrow> False | Cmd_Close f \<Rightarrow> False | _ \<Rightarrow> True)"

definition quiet :: "int \<Rightarrow> kl_cmd list \<Rightarrow> kl_state \<Rightarrow> bool" where
  "quiet v log s \<longleftrightarrow> vol_fd s = v \<and> menu_owns (lid_policy s) \<and> \<not> in_game s
     \<and> filter is_user_cmd (cmds s) = log \<and> (0 \<le> v \<longrightarrow> \<not> grabbed s)"

lemma quiet_lid:
  "quiet v log s \<Longrightarrow> ev \<noteq> LID_EV_PAK \<Longrightarrow> quiet v log (maybe_lid s ev env)"
  by (cases ev) (simp_all add: quiet_def maybe_lid_policy lid_serve_menu_owns maybe_lid_cmds lid_want_iff)

lemma quiet_volume: "quiet v log s \<Longrightarrow> read_volume f s r = s"
  by (simp add: quiet_def read_volume_def Let_def)

lemma quiet_read: "quiet v log s \<Longrightarrow> quiet v log (kl_read f s r)"
proof -
  assume "quiet v log s"
  then have "quiet v log (read_lid f s r)" by (simp add: read_lid_def Let_def quiet_lid)
  then have "quiet v log (read_power f (read_lid f s r) r)" by (simp add: read_power_def Let_def quiet_lid)
  then show ?thesis by (simp add: kl_read_def quiet_volume)
qed

lemma user_close [simp]: "filter is_user_cmd (map Cmd_Close xs) = []" "is_user_cmd (Cmd_Close f) = False"
  "is_user_cmd (Cmd_Grab g) = False"
  by (simp_all add: is_user_cmd_def)

lemma quiet_head:
  "menu_owns_keys procs \<Longrightarrow>
     quiet (vol_fd s) (filter is_user_cmd (cmds s)) (kl_head s procs sw env)"
  by (simp add: kl_head_eq head_synced_def Let_def quiet_def maybe_lid_policy lid_serve_menu_owns
      maybe_lid_cmds lid_want_iff)

lemma quiet_iter:
  "menu_owns_keys (i_procs i) \<Longrightarrow> quiet (vol_fd s) (filter is_user_cmd (cmds s)) (kl_iter s i)"
proof (rule kl_iter_keeps, erule quiet_head)
  show "quiet v log (kl_scan s d)" if "quiet v log s" for v log s d
    using that by (auto simp: quiet_def kl_scan_def Let_def split: prod.splits)
  show "quiet v log (kl_pad s f a b es)" if "quiet v log s" for v log s f a b es
    using that by (auto simp: quiet_def kl_pad_def Let_def split: option.splits)
qed (rule quiet_read)

section \<open>Properties\<close>

text \<open>
  C7 (invariant). In every state the monitor's loop reaches from start-up, whatever the system
  calls return: the lid policy is at rest and consistent (a sleep period only while the lid is
  closed, a pak only after the frontend was seen and while it does not own the screen), its
  counter of suspends is the number of power and lid requests and is exactly the number of
  suspend sequences that were run, each one complete (governor idle, radios off, suspend,
  governor resume, radios on) and none interleaved with another; at most 8 distinct pads are
  watched, so that the poll array of 12 entries is never exceeded; the MENU flag is that of the
  watched pads; and the volume keys are grabbed exactly while an application owns the screen.
\<close>

theorem kl_run_inv:
  "kl_inv (foldl kl_iter (kl_open names ino0 watch_ok dir1 dir2) is)
     \<and> length (poll_set (foldl kl_iter (kl_open names ino0 watch_ok dir1 dir2) is)) \<le> 12"
proof -
  let ?s = "foldl kl_iter (kl_open names ino0 watch_ok dir1 dir2) is"
  have inv: "kl_inv ?s" by (rule kl_sys.inv_run)
  have "length (filter (\<lambda>f. 0 \<le> f) [vol_fd ?s, hall_fd ?s, pwr_fd ?s, ino ?s]) \<le> 4"
    by (rule order_trans [OF length_filter_le]) simp
  moreover have "length (pads ?s) \<le> 8" using inv by (simp add: kl_inv_def kl_core_def pads_ok_def)
  ultimately show ?thesis
    unfolding poll_set_def length_append length_map using inv by linarith
qed

text \<open>
  C8 (safety). One lid request per closed period: over any number of loop iterations in which
  the lid is never seen open (neither sampled open nor an open event), lid events cause at most
  one more suspend, and none when the period has already had its suspend, whatever close
  events, power presses, ownership changes and failures of the suspend helper occur.
\<close>

theorem kl_one_request_per_close:
  assumes "\<forall>i \<in> set is. stays_shut (hall_fd s) i"
  shows "lid_requests (lid_policy (foldl kl_iter s is))
    \<le> lid_requests (lid_policy s) + (if asleep (lid_policy s) then 0 else 1)"
proof -
  have "shut_bound (hall_fd s) (lid_potential (lid_policy s)) (foldl kl_iter s is)"
    using assms by (intro shut_bound_run) (simp_all add: shut_bound_def)
  then show ?thesis by (simp add: shut_bound_def lid_potential_def split: if_splits)
qed

text \<open>
  C9 (safety). The resume guard: after a suspend whose clock reads \<open>n\<close> once the radios are back,
  every lid edge, power press and ownership change handled before \<open>n + 1000\<close> ms starts no second
  suspend; the log holds exactly the one sequence.
\<close>

theorem kl_resume_guard:
  assumes "snd (zlyme_lid_apply (lid_policy s) ev (guard_active s (now_guard env)))"
    and "0 < now_after env" and "\<forall>i \<in> set is. clocks_in (now_after env) i"
  shows "mem_log (foldl kl_iter (maybe_lid s ev env) is) = mem_log s @ mem_commands (helper_ok env)"
proof -
  have "guarded (now_after env) (mem_log s @ mem_commands (helper_ok env)) (maybe_lid s ev env)"
    using assms by (simp add: guarded_def maybe_lid_guard mem_log_def maybe_lid_cmds)
  then have "guarded (now_after env) (mem_log s @ mem_commands (helper_ok env))
      (foldl kl_iter (maybe_lid s ev env) is)"
    by (rule foldl_keeps [rotated]) (use assms in \<open>auto intro: guarded_iter\<close>)
  then show ?thesis by (simp add: guarded_def)
qed

text \<open>
  While the frontend runs, an iteration issues no suspend, no volume and no
  brightness command whatever events it reads, and the volume keys are not grabbed afterwards.
\<close>

theorem kl_frontend_owns:
  assumes "menu_owns_keys (i_procs i)"
  shows "filter is_user_cmd (cmds (kl_iter s i)) = filter is_user_cmd (cmds s)
    \<and> (0 \<le> vol_fd s \<longrightarrow> \<not> grabbed (kl_iter s i))"
  using quiet_iter [OF assms, of s] by (simp add: quiet_def)

text \<open>
  A close edge read in a pak whose lid period has had no suspend, outside the
  guard, runs the whole suspend sequence once, spends the period even when the helper fails,
  and arms the guard; a second close edge read at any later time then changes nothing in the
  log.
\<close>

theorem kl_close_suspends:
  assumes "kl_inv s" and "in_pak (lid_policy s)" and "\<not> asleep (lid_policy s)"
    and "\<not> guard_active s (now_guard (r_lid_env r))"
    and "r_ev r = \<lparr>ev_type = EV_SW, ev_code = SW_LID, ev_value = 1\<rparr>" and "r_ev r' = r_ev r"
  shows "let s1 = kl_read (hall_fd s) s r; s2 = kl_read (hall_fd s) s1 r'
    in cmds s1 = cmds s @ mem_commands (helper_ok (r_lid_env r)) \<and> asleep (lid_policy s1)
       \<and> mem_requests (lid_policy s1) = mem_requests (lid_policy s) + 1 \<and> cmds s2 = cmds s1"
proof -
  have close: "kl_read f t q = (if f = hall_fd t then maybe_lid t LID_EV_CLOSE (r_lid_env q) else t)"
    if "r_ev q = r_ev r" for f t q
    using that assms(5) by (simp add: kl_read_def read_volume_def read_power_def read_lid_def Let_def)
  have want: "snd (zlyme_lid_apply (lid_policy s) LID_EV_CLOSE (guard_active s (now_guard (r_lid_env r))))"
    using assms(1-4) by (simp add: lid_want_iff kl_inv_def kl_core_def lid_inv_def)
  show ?thesis
    using want by (simp add: close assms(6) Let_def maybe_lid_cmds maybe_lid_policy lid_serve_mem
        lid_serve_asleep lid_want_iff)
qed

section \<open>Concrete runs\<close>

text \<open>A monitor whose user is in a pak, with the lid open, and a close edge at one second.\<close>

definition demo_env :: "ulong \<Rightarrow> mem_env" where
  "demo_env n = \<lparr>now_guard = n, helper_ok = True, sys_status = 0, now_after = n + 200\<rparr>"

definition demo_state :: kl_state where
  "demo_state = \<lparr>lid_policy = lid_policy_init\<lparr>menu_seen := True, in_pak := True, pak_latched := True\<rparr>,
     power_ignore_until_ms = 0, pads = [], vol_fd = 3, hall_fd = 4, pwr_fd = 5, ino = -1,
     grabbed = True, in_game = True, menu = False, cmds = [Cmd_Grab True]\<rparr>"

definition demo_close :: "ulong \<Rightarrow> kl_read_in" where
  "demo_close n = \<lparr>r_ev = \<lparr>ev_type = 5, ev_code = 0, ev_value = 1\<rparr>,
     r_lid_env = demo_env n, r_pwr_env = demo_env n, r_level = 0\<rparr>"

definition demo_iter :: "(string \<times> string option) list \<Rightarrow> ulong \<Rightarrow> kl_iter_in" where
  "demo_iter procs n = \<lparr>i_procs = procs, i_switch = None, i_env = demo_env n,
     i_polled = Some [\<lparr>p_fd = 4, p_in = True, p_hup = False, p_dir = [], p_pad_evs = [],
       p_reads = [demo_close n]\<rparr>]\<rparr>"

lemmas demo_defs = demo_env_def demo_state_def demo_close_def demo_iter_def lid_policy_init_def

theorem kl_one_request_per_close_witness:
  "lid_requests (lid_policy (foldl kl_iter demo_state [demo_iter [] 1000, demo_iter [] 90000])) \<le> 1"
  using kl_one_request_per_close [of "[demo_iter [] 1000, demo_iter [] 90000]" demo_state]
  by (simp add: demo_defs stays_shut_def hall_switch_closed_def open_event_def)

theorem kl_resume_guard_witness:
  "mem_log (foldl kl_iter (maybe_lid demo_state LID_EV_CLOSE (demo_env 1000)) [demo_iter [] 1500])
    = mem_commands True"
  using kl_resume_guard [of demo_state LID_EV_CLOSE "demo_env 1000" "[demo_iter [] 1500]"]
  by (simp add: demo_defs lid_want_iff guard_active_def clocks_in_def mem_log_def is_mem_cmd_def)

theorem kl_frontend_owns_witness:
  "filter is_user_cmd (cmds (kl_iter demo_state (demo_iter [(''17'', Some ''nextui.elf'')] 1000))) = []
    \<and> \<not> grabbed (kl_iter demo_state (demo_iter [(''17'', Some ''nextui.elf'')] 1000))"
  using kl_frontend_owns [of "demo_iter [(''17'', Some ''nextui.elf'')] 1000" demo_state]
  by (simp add: demo_defs menu_comm_def char_val_def is_user_cmd_def)

theorem kl_close_suspends_witness:
  "cmds (kl_read 4 demo_state (demo_close 1000)) = Cmd_Grab True # mem_commands True
    \<and> cmds (kl_read 4 (kl_read 4 demo_state (demo_close 1000)) (demo_close 90000))
      = Cmd_Grab True # mem_commands True"
proof -
  have "kl_inv demo_state"
    by (simp add: demo_defs kl_inv_def kl_core_def lid_inv_def pads_ok_def any_menu_def mem_blocks_def
        mem_log_def grab_state_def is_mem_cmd_def)
  moreover have "in_pak (lid_policy demo_state)" "\<not> asleep (lid_policy demo_state)" "hall_fd demo_state = 4"
    "cmds demo_state = [Cmd_Grab True]" "\<not> guard_active demo_state (now_guard (r_lid_env (demo_close 1000)))"
    by (simp_all add: demo_defs guard_active_def)
  ultimately show ?thesis
    using kl_close_suspends [of demo_state "demo_close 1000" "demo_close 90000"]
    by (simp add: Let_def demo_close_def demo_env_def)
qed

end
