(* ===== verification/Hdmi_Mode.thy ===== *)
theory Hdmi_Mode
  imports C_Strings
begin

text \<open>
  \<^verbatim>\<open>zlyme-hdmi/hdmi_mode.c\<close>: which mode of which HDMI connector the system drives, and where a
  logical picture goes inside it. A mode array with its count is a list; an index that is
  \<open>-1\<close> in C when nothing was found is an option here.
\<close>

section \<open>Data\<close>

record hdmi_mode =
  m_width :: int
  m_height :: int
  m_refresh_mhz :: int
  m_vrefresh :: int
  m_preferred :: bool

record hdmi_choice =
  c_width :: int
  c_height :: int
  c_refresh_mhz :: int
  c_chosen :: bool

record hdmi_rect =
  r_x :: int
  r_y :: int
  r_w :: int
  r_h :: int

record hdmi_connector =
  k_card :: int
  k_connector_id :: int
  k_hdmia :: bool
  k_connected :: bool
  k_monitor_index :: int
  k_name :: string
  k_modes :: "hdmi_mode list"

record hdmi_output =
  o_choice :: hdmi_choice
  o_card :: int
  o_connector_id :: int
  o_monitor_index :: int
  o_vrefresh :: int
  o_mode_index :: int
  o_name :: string

section \<open>Choosing a mode\<close>

definition usable :: "hdmi_mode \<Rightarrow> bool" where
  "usable m \<longleftrightarrow> m_width m > 0 \<and> m_height m > 0 \<and> m_refresh_mhz m > 0"

definition near_60 :: "int \<Rightarrow> bool" where
  "near_60 refresh_mhz =
     (let delta = refresh_mhz - 60000; delta = (if delta < 0 then - delta else delta)
      in delta \<le> 500)"

definition is_720p60 :: "hdmi_mode \<Rightarrow> bool" where
  "is_720p60 m \<longleftrightarrow> usable m \<and> m_width m = 1280 \<and> m_height m = 720 \<and> near_60 (m_refresh_mhz m)"

definition refresh_delta :: "int \<Rightarrow> int" where
  "refresh_delta mhz = (let delta = mhz - 60000 in if delta < 0 then - delta else delta)"

text \<open>64-bit products and quotient, converted to \<^verbatim>\<open>int\<close>.\<close>

definition zlyme_hdmi_refresh_mhz :: "int \<Rightarrow> int \<Rightarrow> int \<Rightarrow> int" where
  "zlyme_hdmi_refresh_mhz clock_khz htotal vtotal =
     (if clock_khz \<le> 0 \<or> htotal \<le> 0 \<or> vtotal \<le> 0 then 0
      else let denom = htotal * vtotal
           in if denom \<le> 0 then 0 else to_s32 (clock_khz * 1000000 sdiv denom))"

text \<open>First pass: the 720p mode nearest to 60 Hz; a preferred mode wins a tie.\<close>

definition choose_step :: "hdmi_mode list \<Rightarrow> (nat \<times> int) option \<Rightarrow> nat \<Rightarrow> (nat \<times> int) option" where
  "choose_step modes acc i =
     (if \<not> is_720p60 (modes ! i) then acc
      else let delta = refresh_delta (m_refresh_mhz (modes ! i))
           in case acc of
                None \<Rightarrow> Some (i, delta)
              | Some (best, best_delta) \<Rightarrow>
                  if delta < best_delta
                     \<or> delta = best_delta \<and> m_preferred (modes ! i) \<and> \<not> m_preferred (modes ! best)
                  then Some (i, delta) else acc)"

definition choose_720 :: "hdmi_mode list \<Rightarrow> nat option" where
  "choose_720 modes = map_option fst (foldl (choose_step modes) None [0..<length modes])"

fun first_index :: "('a \<Rightarrow> bool) \<Rightarrow> 'a list \<Rightarrow> nat option" where
  "first_index P [] = None"
| "first_index P (x # xs) = (if P x then Some 0 else map_option Suc (first_index P xs))"

definition choose_index :: "hdmi_mode list \<Rightarrow> nat option" where
  "choose_index modes =
     (case choose_720 modes of Some i \<Rightarrow> Some i
      | None \<Rightarrow> (case first_index (\<lambda>m. usable m \<and> m_preferred m) modes of Some i \<Rightarrow> Some i
                 | None \<Rightarrow> first_index usable modes))"

definition no_choice :: hdmi_choice where
  "no_choice = \<lparr>c_width = 0, c_height = 0, c_refresh_mhz = 0, c_chosen = False\<rparr>"

definition choice_of :: "hdmi_mode \<Rightarrow> hdmi_choice" where
  "choice_of m = \<lparr>c_width = m_width m, c_height = m_height m, c_refresh_mhz = m_refresh_mhz m, c_chosen = True\<rparr>"

definition zlyme_hdmi_choose :: "hdmi_mode list \<Rightarrow> hdmi_choice" where
  "zlyme_hdmi_choose modes =
     (case choose_index modes of None \<Rightarrow> no_choice | Some best \<Rightarrow> choice_of (modes ! best))"

definition mode_of_choice :: "hdmi_choice \<Rightarrow> hdmi_mode" where
  "mode_of_choice c = \<lparr>m_width = c_width c, m_height = c_height c, m_refresh_mhz = c_refresh_mhz c,
     m_vrefresh = 0, m_preferred = False\<rparr>"

text \<open>The loop over several lists: the first one that offers 720p near 60 Hz, else the first
  one that offers anything.\<close>

fun select_loop :: "hdmi_mode list list \<Rightarrow> nat \<Rightarrow> nat option \<Rightarrow> (nat \<times> hdmi_choice) option \<times> nat option" where
  "select_loop [] i fallback = (None, fallback)"
| "select_loop (l # ls) i fallback =
     (let cur = zlyme_hdmi_choose l
      in if \<not> c_chosen cur then select_loop ls (Suc i) fallback
         else if is_720p60 (mode_of_choice cur) then (Some (i, cur), fallback)
         else select_loop ls (Suc i) (if fallback = None then Some i else fallback))"

definition zlyme_hdmi_select_list :: "hdmi_mode list list \<Rightarrow> nat option \<times> hdmi_choice" where
  "zlyme_hdmi_select_list mlists =
     (case select_loop mlists 0 None of
        (Some (i, cur), fb) \<Rightarrow> (Some i, cur)
      | (None, None) \<Rightarrow> (None, no_choice)
      | (None, Some fb) \<Rightarrow> (Some fb, zlyme_hdmi_choose (mlists ! fb)))"

definition zlyme_hdmi_same :: "hdmi_choice \<Rightarrow> hdmi_choice \<Rightarrow> bool" where
  "zlyme_hdmi_same a b \<longleftrightarrow> c_chosen a \<and> c_chosen b \<and> c_width a = c_width b
     \<and> c_height a = c_height b \<and> c_refresh_mhz a = c_refresh_mhz b"

definition zlyme_hdmi_commit :: "bool \<Rightarrow> hdmi_choice \<Rightarrow> hdmi_choice \<Rightarrow> bool \<times> hdmi_choice" where
  "zlyme_hdmi_commit modeset_ok nxt active =
     (if \<not> modeset_ok \<or> \<not> c_chosen nxt then (False, active)
      else if zlyme_hdmi_same active nxt then (False, active)
      else (True, nxt))"

section \<open>Viewport\<close>

text \<open>The products are of C type \<^verbatim>\<open>int\<close>; \<open>viewport_fits\<close> below says when they do not overflow.\<close>

definition zlyme_hdmi_viewport :: "int \<Rightarrow> int \<Rightarrow> int \<Rightarrow> int \<Rightarrow> hdmi_rect" where
  "zlyme_hdmi_viewport logical_w logical_h out_w out_h =
     (if logical_w \<le> 0 \<or> logical_h \<le> 0 \<or> out_w \<le> 0 \<or> out_h \<le> 0
      then \<lparr>r_x = 0, r_y = 0, r_w = 0, r_h = 0\<rparr>
      else let w0 = to_s32 (logical_w * out_h) sdiv logical_h;
               (w, h) = (if w0 \<le> out_w then (w0, out_h)
                         else (out_w, to_s32 (logical_h * out_w) sdiv logical_w));
               w = (if w < 1 then 1 else w);
               h = (if h < 1 then 1 else h)
           in \<lparr>r_x = (out_w - w) sdiv 2, r_y = (out_h - h) sdiv 2, r_w = w, r_h = h\<rparr>)"

section \<open>Picking a connector\<close>

definition name_char :: "char \<Rightarrow> bool" where
  "name_char c \<longleftrightarrow> (65 \<le> char_val c \<and> char_val c \<le> 90) \<or> (97 \<le> char_val c \<and> char_val c \<le> 122)
     \<or> is_digit c \<or> c = CHR ''-'' \<or> c = CHR ''_'' \<or> c = CHR ''.''"

text \<open>The loop copies at most \<open>dstlen - 1\<close> bytes and gives up on a bad one; a longer name fails.\<close>

definition copy_name :: "nat \<Rightarrow> string \<Rightarrow> string option" where
  "copy_name dstlen src =
     (if dstlen < 2 then None
      else if \<not> list_all name_char (take (dstlen - 1) src) then None
      else if dstlen - 1 < length src then None
      else if src = [] then None else Some src)"

definition pick_step :: "hdmi_connector list \<Rightarrow> nat option \<times> int \<times> bool \<Rightarrow> nat \<Rightarrow> nat option \<times> int \<times> bool" where
  "pick_step cons acc i =
     (let (best, best_delta, have_720) = acc; c = cons ! i
      in if \<not> k_hdmia c \<or> \<not> k_connected c \<or> k_modes c = [] then acc
         else let cur = zlyme_hdmi_choose (k_modes c)
         in if \<not> c_chosen cur then acc
         else let delta = refresh_delta (c_refresh_mhz cur)
         in if c_width cur = 1280 \<and> c_height cur = 720 \<and> delta \<le> 500
            then (if \<not> have_720 \<or> delta < best_delta then (Some i, delta, True) else acc)
            else if \<not> have_720 \<and> best = None then (Some i, best_delta, have_720) else acc)"

definition no_output :: hdmi_output where
  "no_output = \<lparr>o_choice = no_choice, o_card = -1, o_connector_id = -1, o_monitor_index = 0,
     o_vrefresh = 0, o_mode_index = -1, o_name = []\<rparr>"

definition zlyme_hdmi_pick :: "hdmi_connector list \<Rightarrow> (nat \<times> hdmi_output) option" where
  "zlyme_hdmi_pick cons =
     (case fst (foldl (pick_step cons) (None, 0, False) [0..<length cons]) of
        None \<Rightarrow> None
      | Some best \<Rightarrow>
          let c = cons ! best; choice = zlyme_hdmi_choose (k_modes c)
          in if \<not> c_chosen choice then None
             else case first_index (\<lambda>m. m_width m = c_width choice \<and> m_height m = c_height choice
                    \<and> m_refresh_mhz m = c_refresh_mhz choice) (k_modes c) of
               None \<Rightarrow> None
             | Some i \<Rightarrow>
                 (case copy_name 32 (k_name c) of
                    None \<Rightarrow> None
                  | Some nm \<Rightarrow> Some (best,
                      \<lparr>o_choice = choice, o_card = k_card c, o_connector_id = k_connector_id c,
                       o_monitor_index = k_monitor_index c, o_vrefresh = m_vrefresh (k_modes c ! i),
                       o_mode_index = int i, o_name = nm\<rparr>)))"

definition zlyme_hdmi_apply_policy :: "bool \<Rightarrow> bool \<Rightarrow> bool \<Rightarrow> bool \<Rightarrow> bool" where
  "zlyme_hdmi_apply_policy vulkan fullscreen matches_desktop matches_policy_size =
     (if vulkan then False
      else if \<not> fullscreen \<or> matches_policy_size \<or> matches_desktop then True
      else False)"

definition zlyme_panel_refresh_hz :: "string option \<Rightarrow> int" where
  "zlyme_panel_refresh_hz saved =
     (case saved of None \<Rightarrow> 60
      | Some s \<Rightarrow> if s \<in> {''40'', ''50'', ''60''} then fst (strtol10 s) else 60)"

section \<open>Index loops\<close>

lemma first_index_Some:
  "first_index P xs = Some i \<longleftrightarrow> i < length xs \<and> P (xs ! i) \<and> (\<forall>j < i. \<not> P (xs ! j))"
proof (induction xs arbitrary: i)
  case (Cons x xs)
  show ?case
  proof (cases i)
    case 0
    then show ?thesis by auto
  next
    case (Suc k)
    then show ?thesis using Cons by (auto simp: less_Suc_eq_0_disj)
  qed
qed simp

lemma first_index_None: "first_index P xs = None \<longleftrightarrow> (\<forall>x \<in> set xs. \<not> P x)"
  by (induction xs) auto

text \<open>An invariant of a loop over the indices.\<close>

lemma index_loop:
  assumes "I 0 a" and "\<And>k s. k < n \<Longrightarrow> I k s \<Longrightarrow> I (Suc k) (f s k)"
  shows "I n (foldl f a [0..<n])"
  using assms by (induction n) auto

section \<open>The chosen mode\<close>

text \<open>Better 720p candidates: nearer to 60 Hz, or as near and preferred over not.\<close>

definition better_720 :: "hdmi_mode \<Rightarrow> hdmi_mode \<Rightarrow> bool" where
  "better_720 a b \<longleftrightarrow> refresh_delta (m_refresh_mhz a) < refresh_delta (m_refresh_mhz b)
     \<or> refresh_delta (m_refresh_mhz a) = refresh_delta (m_refresh_mhz b) \<and> m_preferred a \<and> \<not> m_preferred b"

lemma near_60_delta: "near_60 r \<longleftrightarrow> refresh_delta r \<le> 500"
  by (simp add: near_60_def refresh_delta_def Let_def)

definition choose_inv :: "hdmi_mode list \<Rightarrow> nat \<Rightarrow> (nat \<times> int) option \<Rightarrow> bool" where
  "choose_inv modes k acc =
     (case acc of None \<Rightarrow> \<forall>j < k. \<not> is_720p60 (modes ! j)
      | Some (b, d) \<Rightarrow> b < k \<and> is_720p60 (modes ! b) \<and> d = refresh_delta (m_refresh_mhz (modes ! b))
          \<and> (\<forall>j < k. is_720p60 (modes ! j) \<longrightarrow> \<not> better_720 (modes ! j) (modes ! b)))"

lemma choose_step_inv: "choose_inv modes k acc \<Longrightarrow> choose_inv modes (Suc k) (choose_step modes acc k)"
  by (auto simp: choose_inv_def choose_step_def better_720_def less_Suc_eq Let_def split: option.splits)

lemma choose_720_inv:
  "choose_inv modes (length modes) (foldl (choose_step modes) None [0..<length modes])"
  by (rule index_loop) (simp add: choose_inv_def, rule choose_step_inv)

lemma choose_720_None: "choose_720 modes = None \<longleftrightarrow> (\<forall>m \<in> set modes. \<not> is_720p60 m)"
  using choose_720_inv [of modes]
  by (auto simp: choose_720_def choose_inv_def all_set_conv_all_nth split: option.splits)

lemma choose_720_Some:
  "choose_720 modes = Some b \<Longrightarrow> b < length modes \<and> is_720p60 (modes ! b)
     \<and> (\<forall>m \<in> set modes. is_720p60 m \<longrightarrow> \<not> better_720 m (modes ! b))"
  using choose_720_inv [of modes]
  by (auto simp: choose_720_def choose_inv_def all_set_conv_all_nth split: option.splits)

lemma first_index_filter: "first_index P xs = Some i \<Longrightarrow> xs ! i = hd (filter P xs)"
  by (induction xs arbitrary: i) (auto split: if_splits)

lemma choose_index_Some:
  assumes "choose_index modes = Some i"
  shows "i < length modes \<and> usable (modes ! i) \<and>
    (if \<exists>m \<in> set modes. is_720p60 m
     then is_720p60 (modes ! i) \<and> (\<forall>m \<in> set modes. is_720p60 m \<longrightarrow> \<not> better_720 m (modes ! i))
     else if \<exists>m \<in> set modes. usable m \<and> m_preferred m
     then modes ! i = hd (filter (\<lambda>m. usable m \<and> m_preferred m) modes)
     else modes ! i = hd (filter usable modes))"
proof (cases "choose_720 modes")
  case None
  then have no: "\<not> (\<exists>m \<in> set modes. is_720p60 m)" by (simp add: choose_720_None)
  show ?thesis
  proof (cases "first_index (\<lambda>m. usable m \<and> m_preferred m) modes")
    case (Some j)
    then have j: "j < length modes" "usable (modes ! j) \<and> m_preferred (modes ! j)"
      by (auto simp: first_index_Some)
    then have ex: "\<exists>m \<in> set modes. usable m \<and> m_preferred m" using nth_mem by blast
    have "i = j" using assms None Some by (simp add: choose_index_def)
    with no ex j first_index_filter [OF Some] show ?thesis by simp
  next
    case N: None
    then have np: "\<not> (\<exists>m \<in> set modes. usable m \<and> m_preferred m)" by (simp add: first_index_None)
    have f: "first_index usable modes = Some i" using assms None N by (simp add: choose_index_def)
    with no np first_index_filter [OF f] show ?thesis by (auto simp: first_index_Some)
  qed
next
  case (Some j)
  then have "i = j" using assms by (simp add: choose_index_def)
  with choose_720_Some [OF Some] show ?thesis by (auto simp: is_720p60_def)
qed

lemma choose_index_None: "choose_index modes = None \<longleftrightarrow> (\<forall>m \<in> set modes. \<not> usable m)"
proof
  assume "\<forall>m \<in> set modes. \<not> usable m"
  then show "choose_index modes = None"
    using choose_index_Some [of modes] nth_mem by (cases "choose_index modes") auto
qed (auto simp: choose_index_def first_index_None split: option.splits)

lemma choose_chosen: "c_chosen (zlyme_hdmi_choose modes) \<longleftrightarrow> (\<exists>m \<in> set modes. usable m)"
  using choose_index_None [of modes]
  by (auto simp: zlyme_hdmi_choose_def no_choice_def choice_of_def split: option.splits)

text \<open>
  C10 (functional). The mode chosen from a connector's list: a choice is made exactly when the
  list has a usable mode, and it is a usable mode of the list; when the list offers 1280x720
  within 0.5 Hz of 60 Hz the choice is such a mode and no other one is nearer to 60 Hz, or as
  near and preferred where the choice is not; otherwise it is the first preferred usable mode,
  otherwise the first usable one.
\<close>

theorem hdmi_choose_correct:
  "(c_chosen (zlyme_hdmi_choose modes) \<longleftrightarrow> (\<exists>m \<in> set modes. usable m)) \<and>
   (c_chosen (zlyme_hdmi_choose modes) \<longrightarrow>
     (\<exists>c \<in> set modes. usable c \<and> zlyme_hdmi_choose modes = choice_of c \<and>
       (if \<exists>m \<in> set modes. is_720p60 m
        then is_720p60 c \<and> (\<forall>m \<in> set modes. is_720p60 m \<longrightarrow> \<not> better_720 m c)
        else if \<exists>m \<in> set modes. usable m \<and> m_preferred m
        then c = hd (filter (\<lambda>m. usable m \<and> m_preferred m) modes)
        else c = hd (filter usable modes))))"
proof (intro conjI impI choose_chosen)
  assume "c_chosen (zlyme_hdmi_choose modes)"
  then obtain i where i: "choose_index modes = Some i"
    by (auto simp: zlyme_hdmi_choose_def no_choice_def split: option.splits)
  have "zlyme_hdmi_choose modes = choice_of (modes ! i)" by (simp add: zlyme_hdmi_choose_def i)
  moreover have "modes ! i \<in> set modes" using choose_index_Some [OF i] by simp
  ultimately show "\<exists>c \<in> set modes. usable c \<and> zlyme_hdmi_choose modes = choice_of c \<and>
       (if \<exists>m \<in> set modes. is_720p60 m
        then is_720p60 c \<and> (\<forall>m \<in> set modes. is_720p60 m \<longrightarrow> \<not> better_720 m c)
        else if \<exists>m \<in> set modes. usable m \<and> m_preferred m
        then c = hd (filter (\<lambda>m. usable m \<and> m_preferred m) modes)
        else c = hd (filter usable modes))"
    using choose_index_Some [OF i] by blast
qed

definition demo_modes :: "hdmi_mode list" where
  "demo_modes =
     [\<lparr>m_width = 1920, m_height = 1080, m_refresh_mhz = 60000, m_vrefresh = 60, m_preferred = True\<rparr>,
      \<lparr>m_width = 1280, m_height = 720, m_refresh_mhz = 59940, m_vrefresh = 60, m_preferred = False\<rparr>,
      \<lparr>m_width = 1280, m_height = 720, m_refresh_mhz = 60000, m_vrefresh = 60, m_preferred = False\<rparr>]"

lemmas mode_defs = is_720p60_def usable_def near_60_def refresh_delta_def

theorem hdmi_choose_correct_witness:
  "zlyme_hdmi_choose demo_modes = choice_of (demo_modes ! 2)"
  using hdmi_choose_correct [of demo_modes]
  by (auto simp: demo_modes_def mode_defs better_720_def choice_of_def)

section \<open>The picked connector\<close>

definition eligible :: "hdmi_connector \<Rightarrow> bool" where
  "eligible c \<longleftrightarrow> k_hdmia c \<and> k_connected c \<and> (\<exists>m \<in> set (k_modes c). usable m)"

definition offers_720 :: "hdmi_connector \<Rightarrow> bool" where
  "offers_720 c \<longleftrightarrow> eligible c \<and> (\<exists>m \<in> set (k_modes c). is_720p60 m)"

lemma offers_720_eligible: "offers_720 c \<Longrightarrow> eligible c"
  by (simp add: offers_720_def)

definition conn_delta :: "hdmi_connector \<Rightarrow> int" where
  "conn_delta c = refresh_delta (c_refresh_mhz (zlyme_hdmi_choose (k_modes c)))"

lemma choose_is_720:
  assumes "c_chosen (zlyme_hdmi_choose ms)"
  shows "c_width (zlyme_hdmi_choose ms) = 1280 \<and> c_height (zlyme_hdmi_choose ms) = 720
      \<and> refresh_delta (c_refresh_mhz (zlyme_hdmi_choose ms)) \<le> 500 \<longleftrightarrow> (\<exists>m \<in> set ms. is_720p60 m)"
proof -
  obtain i where i: "choose_index ms = Some i"
    using assms by (auto simp: zlyme_hdmi_choose_def no_choice_def split: option.splits)
  from choose_index_Some [OF i] have u: "i < length ms" "usable (ms ! i)" by simp_all
  have "is_720p60 (ms ! i) \<longleftrightarrow> (\<exists>m \<in> set ms. is_720p60 m)"
    using choose_index_Some [OF i] nth_mem [OF u(1)] by (cases "\<exists>m \<in> set ms. is_720p60 m") auto
  moreover have "zlyme_hdmi_choose ms = choice_of (ms ! i)" by (simp add: zlyme_hdmi_choose_def i)
  ultimately show ?thesis using u by (simp add: choice_of_def is_720p60_def near_60_delta)
qed

lemma pick_step_eq:
  "pick_step cons (best, best_delta, have_720) i =
     (if \<not> eligible (cons ! i) then (best, best_delta, have_720)
      else if offers_720 (cons ! i)
      then (if \<not> have_720 \<or> conn_delta (cons ! i) < best_delta then (Some i, conn_delta (cons ! i), True)
            else (best, best_delta, have_720))
      else if \<not> have_720 \<and> best = None then (Some i, best_delta, have_720)
      else (best, best_delta, have_720))"
proof (cases "k_hdmia (cons ! i) \<and> k_connected (cons ! i) \<and> c_chosen (zlyme_hdmi_choose (k_modes (cons ! i)))")
  case True
  then show ?thesis
    using choose_is_720 [of "k_modes (cons ! i)"]
    by (auto simp: pick_step_def Let_def eligible_def offers_720_def conn_delta_def choose_chosen)
next
  case False
  then show ?thesis by (auto simp: pick_step_def Let_def eligible_def choose_chosen)
qed

definition pick_inv :: "hdmi_connector list \<Rightarrow> nat \<Rightarrow> nat option \<times> int \<times> bool \<Rightarrow> bool" where
  "pick_inv cons k acc \<longleftrightarrow>
     (case acc of (best, d, have_720) \<Rightarrow>
        if have_720
        then \<exists>b. best = Some b \<and> b < k \<and> offers_720 (cons ! b) \<and> d = conn_delta (cons ! b)
              \<and> (\<forall>j < k. offers_720 (cons ! j) \<longrightarrow> d \<le> conn_delta (cons ! j))
        else (\<forall>j < k. \<not> offers_720 (cons ! j))
           \<and> (case best of None \<Rightarrow> \<forall>j < k. \<not> eligible (cons ! j)
                | Some b \<Rightarrow> b < k \<and> eligible (cons ! b) \<and> (\<forall>j < b. \<not> eligible (cons ! j))))"

lemma pick_step_inv: "pick_inv cons k acc \<Longrightarrow> pick_inv cons (Suc k) (pick_step cons acc k)"
proof -
  obtain best d have_720 where acc: "acc = (best, d, have_720)" by (cases acc)
  assume inv: "pick_inv cons k acc"
  show ?thesis
    using inv unfolding acc pick_step_eq
    by (auto simp: pick_inv_def less_Suc_eq dest: offers_720_eligible split: option.splits if_splits)
qed

lemma pick_loop_inv:
  "pick_inv cons (length cons) (foldl (pick_step cons) (None, 0, False) [0..<length cons])"
  by (rule index_loop) (simp add: pick_inv_def, rule pick_step_inv)

lemma pick_best:
  assumes "fst (foldl (pick_step cons) (None, 0, False) [0..<length cons]) = Some b"
  shows "b < length cons \<and> eligible (cons ! b) \<and>
    (if \<exists>c \<in> set cons. offers_720 c
     then offers_720 (cons ! b) \<and> (\<forall>c \<in> set cons. offers_720 c \<longrightarrow> conn_delta (cons ! b) \<le> conn_delta c)
     else \<forall>j < b. \<not> eligible (cons ! j))"
proof -
  obtain d hv where acc: "foldl (pick_step cons) (None, 0, False) [0..<length cons] = (Some b, d, hv)"
    using assms by (cases "foldl (pick_step cons) (None, 0, False) [0..<length cons]") auto
  from pick_loop_inv [of cons] show ?thesis
    unfolding acc pick_inv_def
    by (cases hv) (auto simp: all_set_conv_all_nth Bex_def in_set_conv_nth dest: offers_720_eligible)
qed

lemma pick_best_None:
  "fst (foldl (pick_step cons) (None, 0, False) [0..<length cons]) = None \<longleftrightarrow> (\<forall>c \<in> set cons. \<not> eligible c)"
proof
  assume "fst (foldl (pick_step cons) (None, 0, False) [0..<length cons]) = None"
  with pick_loop_inv [of cons] show "\<forall>c \<in> set cons. \<not> eligible c"
    by (auto simp: pick_inv_def all_set_conv_all_nth split: prod.splits if_splits)
next
  assume "\<forall>c \<in> set cons. \<not> eligible c"
  with pick_best [of cons] show "fst (foldl (pick_step cons) (None, 0, False) [0..<length cons]) = None"
    by (cases "fst (foldl (pick_step cons) (None, 0, False) [0..<length cons])") auto
qed

lemma copy_name_Some:
  "copy_name 32 src = Some nm \<longleftrightarrow> nm = src \<and> src \<noteq> [] \<and> length src \<le> 31 \<and> list_all name_char src"
  by (auto simp: copy_name_def)

text \<open>What a pick of connector \<open>b\<close> with output \<open>out\<close> promises.\<close>

definition pick_ok :: "hdmi_connector list \<Rightarrow> nat \<Rightarrow> hdmi_output \<Rightarrow> bool" where
  "pick_ok cons b out \<longleftrightarrow>
     b < length cons \<and> eligible (cons ! b)
     \<and> o_card out = k_card (cons ! b) \<and> o_connector_id out = k_connector_id (cons ! b)
     \<and> o_monitor_index out = k_monitor_index (cons ! b)
     \<and> o_name out = k_name (cons ! b) \<and> o_name out \<noteq> [] \<and> length (o_name out) \<le> 31
     \<and> list_all name_char (o_name out)
     \<and> o_choice out = zlyme_hdmi_choose (k_modes (cons ! b)) \<and> c_chosen (o_choice out)
     \<and> 0 \<le> o_mode_index out \<and> o_mode_index out < int (length (k_modes (cons ! b)))
     \<and> choice_of (k_modes (cons ! b) ! nat (o_mode_index out)) = o_choice out
     \<and> o_vrefresh out = m_vrefresh (k_modes (cons ! b) ! nat (o_mode_index out))"

lemma pick_output:
  assumes "fst (foldl (pick_step cons) (None, 0, False) [0..<length cons]) = Some b"
  shows "zlyme_hdmi_pick cons =
    (if copy_name 32 (k_name (cons ! b)) = None then None
     else Some (b, the (map_option snd (zlyme_hdmi_pick cons))))"
    and "zlyme_hdmi_pick cons = Some (b', out) \<Longrightarrow> b' = b \<and> pick_ok cons b out"
proof -
  let ?ms = "k_modes (cons ! b)"
  have e: "b < length cons" "eligible (cons ! b)" using pick_best [OF assms] by simp_all
  then have ch: "c_chosen (zlyme_hdmi_choose ?ms)" by (simp add: eligible_def choose_chosen)
  then obtain i where "choose_index ?ms = Some i"
    by (auto simp: zlyme_hdmi_choose_def no_choice_def split: option.splits)
  with choose_index_Some [OF this] have "\<exists>m \<in> set ?ms. zlyme_hdmi_choose ?ms = choice_of m"
    by (auto simp: zlyme_hdmi_choose_def)
  then have "\<not> (\<forall>m \<in> set ?ms. \<not> (m_width m = c_width (zlyme_hdmi_choose ?ms)
      \<and> m_height m = c_height (zlyme_hdmi_choose ?ms) \<and> m_refresh_mhz m = c_refresh_mhz (zlyme_hdmi_choose ?ms)))"
    by (auto simp: choice_of_def)
  then obtain j where j: "first_index (\<lambda>m. m_width m = c_width (zlyme_hdmi_choose ?ms)
      \<and> m_height m = c_height (zlyme_hdmi_choose ?ms) \<and> m_refresh_mhz m = c_refresh_mhz (zlyme_hdmi_choose ?ms)) ?ms = Some j"
    (is "first_index ?P ?ms = Some j")
    by (cases "first_index ?P ?ms") (auto simp: first_index_None)
  show "zlyme_hdmi_pick cons =
    (if copy_name 32 (k_name (cons ! b)) = None then None
     else Some (b, the (map_option snd (zlyme_hdmi_pick cons))))"
    using ch j assms by (auto simp: zlyme_hdmi_pick_def Let_def split: option.splits)
  show "b' = b \<and> pick_ok cons b out" if "zlyme_hdmi_pick cons = Some (b', out)"
    using that ch j e assms
    by (auto simp: zlyme_hdmi_pick_def pick_ok_def Let_def choice_of_def first_index_Some copy_name_Some
        split: option.splits)
qed

lemma pick_pick_ok: "zlyme_hdmi_pick cons = Some (b, out) \<Longrightarrow> pick_ok cons b out"
proof -
  assume p: "zlyme_hdmi_pick cons = Some (b, out)"
  then obtain b' where b': "fst (foldl (pick_step cons) (None, 0, False) [0..<length cons]) = Some b'"
    by (auto simp: zlyme_hdmi_pick_def split: option.splits)
  from pick_output(2) [OF b' p] show ?thesis by simp
qed

text \<open>
  The picked output: it exists exactly when some HDMI-A connector is connected
  with a usable mode and the best such connector has a clean name; it then carries that
  connector's card, id, monitor number and name (1 to 31 letters, digits, dash, underscore or
  dot), its chosen mode, and the index of that very mode in the connector's list. When any such
  connector offers 720p near 60 Hz the picked one does, and none is nearer to 60 Hz; otherwise
  it is the first usable HDMI-A connector.
\<close>

theorem hdmi_pick_correct:
  "(zlyme_hdmi_pick cons = None \<longleftrightarrow>
      (\<forall>c \<in> set cons. \<not> eligible c)
      \<or> (\<exists>b. fst (foldl (pick_step cons) (None, 0, False) [0..<length cons]) = Some b
            \<and> copy_name 32 (k_name (cons ! b)) = None))
   \<and> (\<forall>b out. zlyme_hdmi_pick cons = Some (b, out) \<longrightarrow> pick_ok cons b out \<and>
      (if \<exists>c \<in> set cons. offers_720 c
       then offers_720 (cons ! b) \<and> (\<forall>c \<in> set cons. offers_720 c \<longrightarrow> conn_delta (cons ! b) \<le> conn_delta c)
       else \<forall>j < b. \<not> eligible (cons ! j)))"
proof (cases "fst (foldl (pick_step cons) (None, 0, False) [0..<length cons])")
  case None
  then show ?thesis using pick_best_None [of cons] by (simp add: zlyme_hdmi_pick_def)
next
  case (Some b)
  then have ne: "\<not> (\<forall>c \<in> set cons. \<not> eligible c)" using pick_best_None [of cons] by simp
  have "zlyme_hdmi_pick cons = None \<longleftrightarrow> copy_name 32 (k_name (cons ! b)) = None"
    using pick_output(1) [OF Some] by (metis option.distinct(1))
  moreover have "b' = b" if "zlyme_hdmi_pick cons = Some (b', out)" for b' out
    using pick_output(2) [OF Some that] by simp
  ultimately show ?thesis
    unfolding Some using ne pick_best [OF Some] pick_output(2) [OF Some] by (auto split: if_splits)
qed

definition demo_cons :: "hdmi_connector list" where
  "demo_cons =
     [\<lparr>k_card = 0, k_connector_id = 31, k_hdmia = False, k_connected = True, k_monitor_index = 1,
       k_name = ''DSI-1'', k_modes = demo_modes\<rparr>,
      \<lparr>k_card = 0, k_connector_id = 40, k_hdmia = True, k_connected = True, k_monitor_index = 2,
       k_name = ''HDMI-A-1'', k_modes = demo_modes\<rparr>]"

theorem hdmi_pick_correct_witness:
  "\<exists>out. zlyme_hdmi_pick demo_cons = Some (1, out) \<and> pick_ok demo_cons 1 out"
proof -
  have c: "zlyme_hdmi_choose demo_modes =
      \<lparr>c_width = 1280, c_height = 720, c_refresh_mhz = 60000, c_chosen = True\<rparr>" "demo_modes \<noteq> []"
    by (simp_all add: zlyme_hdmi_choose_def choose_index_def choose_720_def choose_step_def demo_modes_def
        mode_defs choice_of_def upt_rec)
  have b: "fst (foldl (pick_step demo_cons) (None, 0, False) [0..<length demo_cons]) = Some 1"
    by (simp add: demo_cons_def pick_step_def c refresh_delta_def upt_rec)
  have "\<not> (\<forall>c \<in> set demo_cons. \<not> eligible c)" using b pick_best_None [of demo_cons] by simp
  moreover have "copy_name 32 (k_name (demo_cons ! 1)) \<noteq> None"
    by (simp add: demo_cons_def copy_name_def name_char_def char_val_def is_digit_def)
  ultimately obtain b' out where p: "zlyme_hdmi_pick demo_cons = Some (b', out)"
    using hdmi_pick_correct [of demo_cons] b by (cases "zlyme_hdmi_pick demo_cons") auto
  with pick_output(2) [OF b p] hdmi_pick_correct [of demo_cons] show ?thesis by auto
qed

section \<open>The viewport\<close>

text \<open>
  The viewport for sizes up to 32767: no product overflows an \<^verbatim>\<open>int\<close>, the rectangle
  is not empty, lies inside the output and is centred to within a pixel, it fills the output in
  one direction, and the other direction, unless it was clamped to one pixel, is the exact
  aspect-preserving length rounded down.
\<close>

theorem hdmi_viewport_correct:
  assumes "0 < lw" "lw \<le> 32767" "0 < lh" "lh \<le> 32767" "0 < ow" "ow \<le> 32767" "0 < oh" "oh \<le> 32767"
  shows "let r = zlyme_hdmi_viewport lw lh ow oh
    in s32_ok (lw * oh) \<and> s32_ok (lh * ow) \<and> 0 < r_w r \<and> 0 < r_h r
       \<and> 0 \<le> r_x r \<and> r_x r + r_w r \<le> ow \<and> 0 \<le> r_y r \<and> r_y r + r_h r \<le> oh
       \<and> \<bar>ow - r_w r - 2 * r_x r\<bar> \<le> 1 \<and> \<bar>oh - r_h r - 2 * r_y r\<bar> \<le> 1
       \<and> (r_w r = ow \<or> r_h r = oh)
       \<and> (1 < r_w r \<and> r_w r < ow \<longrightarrow> r_w r * lh \<le> lw * oh \<and> lw * oh < (r_w r + 1) * lh)
       \<and> (1 < r_h r \<and> r_h r < oh \<longrightarrow> r_h r * lw \<le> lh * ow \<and> lh * ow < (r_h r + 1) * lw)"
proof -
  have ov: "s32_ok (a * b)" if "0 < a" "a \<le> 32767" "0 < b" "b \<le> 32767" for a b :: int
  proof -
    have "a * b \<le> 32767 * 32767" using that by (intro mult_mono) auto
    moreover have "0 < a * b" using that by (simp add: mult_pos_pos)
    moreover have "- (2 ^ 31) \<le> (0 :: int)" "32767 * 32767 < (2 :: int) ^ 31" by simp_all
    ultimately show ?thesis unfolding s32_ok_def by linarith
  qed
  have q: "a div b * b \<le> a \<and> a < (a div b + 1) * b" if "0 < b" for a b :: int
    using div_bounds [OF that] by blast
  let ?w = "lw * oh div lh" and ?h = "lh * ow div lw"
  have o1: "s32_ok (lw * oh)" and o2: "s32_ok (lh * ow)" using assms by (simp_all add: ov)
  have pos: "0 \<le> ?w" "0 \<le> ?h" using assms by (simp_all add: pos_imp_zdiv_nonneg_iff)
  have hh: "?h \<le> oh" if "ow < ?w"
  proof -
    have "(ow + 1) * lh \<le> ?w * lh" using that assms by (intro mult_right_mono) auto
    also have "\<dots> \<le> lw * oh" using q [of lh "lw * oh"] assms by simp
    finally have "lh * ow \<le> lw * oh" using assms by (simp add: algebra_simps)
    then have "?h \<le> lw * oh div lw" using assms by (intro zdiv_mono1) auto
    with assms show ?thesis by simp
  qed
  have v: "zlyme_hdmi_viewport lw lh ow oh =
      (let (w, h) = (if ?w \<le> ow then (max 1 ?w, oh) else (ow, max 1 ?h))
       in \<lparr>r_x = (ow - w) div 2, r_y = (oh - h) div 2, r_w = w, r_h = h\<rparr>)"
    using assms pos hh
    by (simp add: zlyme_hdmi_viewport_def to_s32_id o1 o2 sdiv_nonneg Let_def max_def)
  show ?thesis
  proof (cases "?w \<le> ow")
    case True
    show ?thesis
      using True assms o1 o2 q [of lh "lw * oh"] unfolding v Let_def
      by (auto simp: max_def)
  next
    case False
    show ?thesis
      using False assms o1 o2 hh q [of lw "lh * ow"] unfolding v Let_def
      by (auto simp: max_def)
  qed
qed

theorem hdmi_viewport_correct_witness:
  "zlyme_hdmi_viewport 640 480 1280 720 = \<lparr>r_x = 160, r_y = 0, r_w = 960, r_h = 720\<rparr>
    \<and> s32_ok (640 * 720)"
  using hdmi_viewport_correct [of 640 480 1280 720]
  by (simp add: zlyme_hdmi_viewport_def Let_def to_s32_id s32_ok_def sdiv_nonneg)

section \<open>Other entry points\<close>

text \<open>Refresh of a timing: the exact quotient in millihertz, rounded down.\<close>

lemma hdmi_refresh_exact:
  assumes "0 < clk" "0 < ht" "0 < vt" "clk * 1000000 div (ht * vt) < 2 ^ 31"
  shows "zlyme_hdmi_refresh_mhz clk ht vt * (ht * vt) \<le> clk * 1000000"
    and "clk * 1000000 < (zlyme_hdmi_refresh_mhz clk ht vt + 1) * (ht * vt)"
proof -
  have d: "0 < ht * vt" using assms by simp
  have "0 \<le> clk * 1000000 div (ht * vt)" using assms d by (simp add: pos_imp_zdiv_nonneg_iff)
  then have r: "zlyme_hdmi_refresh_mhz clk ht vt = clk * 1000000 div (ht * vt)"
    using assms d unfolding zlyme_hdmi_refresh_mhz_def Let_def
    by (subst if_not_P, simp, subst if_not_P, simp only: not_le) (simp add: sdiv_nonneg to_s32_id s32_ok_def)
  show "zlyme_hdmi_refresh_mhz clk ht vt * (ht * vt) \<le> clk * 1000000"
    "clk * 1000000 < (zlyme_hdmi_refresh_mhz clk ht vt + 1) * (ht * vt)"
    unfolding r by (rule div_bounds [OF d])+
qed

text \<open>Committing the same choice twice programs the hardware once.\<close>

lemma hdmi_commit_once:
  "zlyme_hdmi_commit ok nxt active = (changed, act) \<Longrightarrow> zlyme_hdmi_commit ok' nxt act = (changed', act') \<Longrightarrow>
     changed \<Longrightarrow> act = nxt \<and> \<not> changed' \<and> act' = act"
  by (auto simp: zlyme_hdmi_commit_def zlyme_hdmi_same_def split: if_splits)

end
