(* ===== verification/Hdmi_Main.thy ===== *)
theory Hdmi_Main
  imports Hdmi_Mode "HOL-Library.Sublist"
begin

text \<open>
  \<^verbatim>\<open>zlyme-hdmi/zlyme-hdmi.c\<close>: collecting the connectors from a fixture file or from DRM,
  publishing the picked output as shell assignments and as the mode file. What DRM reports and
  the results of the file operations are inputs; opening the cards and dropping DRM master is
  not modelled.
\<close>

section \<open>Scanning\<close>





section \<open>Collecting connectors\<close>

abbreviation (input) "MODE_MAX \<equiv> (64 :: nat)"
abbreviation (input) "CONN_MAX \<equiv> (8 :: nat)"



definition add_mode :: "hdmi_connector \<Rightarrow> hdmi_mode \<Rightarrow> hdmi_connector option" where
  "add_mode conn m =
     (if length (k_modes conn) \<ge> MODE_MAX then None else Some (conn\<lparr>k_modes := k_modes conn @ [m]\<rparr>))"






text \<open>What DRM reports of a mode and of a connector.\<close>

record drm_mode =
  d_clock :: int
  d_htotal :: int
  d_vtotal :: int
  d_hdisplay :: int
  d_vdisplay :: int
  d_vrefresh :: int
  d_preferred :: bool

record drm_conn =
  d_connector_id :: int
  d_type :: nat
  d_type_id :: int
  d_connected :: bool
  d_modes :: "drm_mode list"

abbreviation (input) "DRM_MODE_CONNECTOR_HDMIA \<equiv> (11 :: nat)"
abbreviation (input) "DRM_MODE_CONNECTOR_DSI \<equiv> (16 :: nat)"

definition connector_name :: "drm_conn \<Rightarrow> string" where
  "connector_name conn =
     (if d_type conn = DRM_MODE_CONNECTOR_HDMIA then ''HDMI-A''
      else if d_type conn = DRM_MODE_CONNECTOR_DSI then ''DSI'' else ''UNK'')
     @ ''-'' @ dec_int (if d_type_id conn > 0 then d_type_id conn else 1)"

definition mode_of_drm :: "drm_mode \<Rightarrow> hdmi_mode" where
  "mode_of_drm m =
     (let mhz = zlyme_hdmi_refresh_mhz (d_clock m) (d_htotal m) (d_vtotal m);
          mhz = (if mhz \<le> 0 \<and> d_vrefresh m > 0 then d_vrefresh m * 1000 else mhz)
      in \<lparr>m_width = d_hdisplay m, m_height = d_vdisplay m, m_refresh_mhz = mhz,
          m_vrefresh = d_vrefresh m, m_preferred = d_preferred m\<rparr>)"

text \<open>A mode beyond the array is dropped: the result of \<^verbatim>\<open>add_mode\<close> is not looked at.\<close>

definition add_drm_mode :: "hdmi_connector \<Rightarrow> drm_mode \<Rightarrow> hdmi_connector" where
  "add_drm_mode c m = (case add_mode c (mode_of_drm m) of None \<Rightarrow> c | Some c' \<Rightarrow> c')"

definition conn_of_drm :: "int \<Rightarrow> int \<Rightarrow> drm_conn \<Rightarrow> hdmi_connector" where
  "conn_of_drm crd monitors d =
     (let connected = (d_connected d \<and> d_modes d \<noteq> []);
          dst = \<lparr>k_card = crd, k_connector_id = d_connector_id d,
                 k_hdmia = (d_type d = DRM_MODE_CONNECTOR_HDMIA), k_connected = connected,
                 k_monitor_index = 0, k_name = connector_name d, k_modes = []\<rparr>
      in if connected then foldl add_drm_mode (dst\<lparr>k_monitor_index := monitors + 1\<rparr>) (d_modes d) else dst)"

text \<open>The connectors of one card; \<open>None\<close> is a connector that could not be read.\<close>

fun load_conns :: "int \<Rightarrow> drm_conn option list \<Rightarrow> int \<Rightarrow> hdmi_connector list \<Rightarrow> hdmi_connector list" where
  "load_conns crd [] monitors cons = cons"
| "load_conns crd (oc # ocs) monitors cons =
     (if length cons \<ge> CONN_MAX then cons
      else case oc of
        None \<Rightarrow> load_conns crd ocs monitors cons
      | Some d \<Rightarrow>
          let dst = conn_of_drm crd monitors d;
              monitors' = (if k_connected dst then monitors + 1 else monitors);
              cons' = (if k_connected dst \<or> k_hdmia dst then cons @ [dst] else cons)
          in load_conns crd ocs monitors' cons')"

text \<open>Both cards; \<open>None\<close> is a card that cannot be opened or has no resources.\<close>

definition load_card :: "int \<Rightarrow> drm_conn option list option \<Rightarrow> hdmi_connector list \<Rightarrow> hdmi_connector list" where
  "load_card crd res cons = (case res of None \<Rightarrow> cons | Some ocs \<Rightarrow> load_conns crd ocs 0 cons)"

definition load_drm :: "drm_conn option list option \<Rightarrow> drm_conn option list option \<Rightarrow> hdmi_connector list" where
  "load_drm card0 card1 = load_card 1 card1 (load_card 0 card0 [])"

section \<open>Publishing\<close>


















section \<open>The collected connectors\<close>

definition card_count :: "int \<Rightarrow> hdmi_connector list \<Rightarrow> int" where
  "card_count crd cons = int (length (filter (\<lambda>c. k_connected c \<and> k_card c = crd) cons))"

text \<open>Every connected connector has the 1-based count of the connected ones of its card.\<close>

definition monitors_ok :: "hdmi_connector list \<Rightarrow> bool" where
  "monitors_ok cons \<longleftrightarrow> (\<forall>i < length cons. k_connected (cons ! i) \<longrightarrow>
     k_monitor_index (cons ! i) = card_count (k_card (cons ! i)) (take (Suc i) cons))"

lemma card_count_snoc [simp]:
  "card_count crd (cons @ [c]) = card_count crd cons + (if k_connected c \<and> k_card c = crd then 1 else 0)"
  by (simp add: card_count_def)

lemma monitors_ok_snoc:
  "monitors_ok (cons @ [c]) \<longleftrightarrow>
     monitors_ok cons \<and> (k_connected c \<longrightarrow> k_monitor_index c = card_count (k_card c) cons + 1)"
  by (auto simp: monitors_ok_def less_Suc_eq nth_append)

definition load_ok :: "hdmi_connector list \<Rightarrow> bool" where
  "load_ok cons \<longleftrightarrow> length cons \<le> 8 \<and> (\<forall>c \<in> set cons. length (k_modes c) \<le> 64) \<and> monitors_ok cons"

lemma add_drm_mode_frame [simp]:
  "k_card (add_drm_mode c m) = k_card c" "k_connected (add_drm_mode c m) = k_connected c"
  "k_hdmia (add_drm_mode c m) = k_hdmia c" "k_monitor_index (add_drm_mode c m) = k_monitor_index c"
  by (simp_all add: add_drm_mode_def add_mode_def)

lemma add_drm_modes [simp]:
  "k_card (foldl add_drm_mode c ms) = k_card c" "k_connected (foldl add_drm_mode c ms) = k_connected c"
  "k_hdmia (foldl add_drm_mode c ms) = k_hdmia c"
  "k_monitor_index (foldl add_drm_mode c ms) = k_monitor_index c"
  "length (k_modes c) \<le> 64 \<Longrightarrow> length (k_modes (foldl add_drm_mode c ms)) \<le> 64"
  by (induction ms arbitrary: c) (simp_all add: add_drm_mode_def add_mode_def)

lemma conn_of_drm_facts:
  "k_card (conn_of_drm crd n d) = crd" "length (k_modes (conn_of_drm crd n d)) \<le> 64"
  "k_connected (conn_of_drm crd n d) \<Longrightarrow> k_monitor_index (conn_of_drm crd n d) = n + 1"
  by (auto simp: conn_of_drm_def Let_def)

lemma load_conns_ok:
  "load_ok cons \<Longrightarrow> n = card_count crd cons \<Longrightarrow> load_ok (load_conns crd ocs n cons)
     \<and> (\<forall>x. x \<noteq> crd \<longrightarrow> card_count x (load_conns crd ocs n cons) = card_count x cons)"
proof (induction crd ocs n cons rule: load_conns.induct)
  case (2 crd oc ocs n cons)
  show ?case
  proof (cases "8 \<le> length cons \<or> oc = None")
    case True
    with 2 show ?thesis by auto
  next
    case False
    then obtain d where d: "oc = Some d" and l: "length cons < 8" by auto
    let ?c = "conn_of_drm crd n d"
    let ?cons = "if k_connected ?c \<or> k_hdmia ?c then cons @ [?c] else cons"
    have "load_ok ?cons"
      using "2.prems" l conn_of_drm_facts [of crd n d] by (auto simp: load_ok_def monitors_ok_snoc)
    moreover have "(if k_connected ?c then n + 1 else n) = card_count crd ?cons"
      using "2.prems" conn_of_drm_facts [of crd n d] by simp
    moreover have "card_count x ?cons = card_count x cons" if "x \<noteq> crd" for x
      using that conn_of_drm_facts [of crd n d] by simp
    ultimately show ?thesis using "2.IH" (2) [OF _ d refl refl refl] l d by (simp add: Let_def)
  qed
qed simp

lemma load_card_ok:
  "load_ok cons \<Longrightarrow> card_count crd cons = 0 \<Longrightarrow> load_ok (load_card crd res cons)
     \<and> (\<forall>x. x \<noteq> crd \<longrightarrow> card_count x (load_card crd res cons) = card_count x cons)"
  using load_conns_ok [of cons 0 crd] by (simp add: load_card_def split: option.splits)

text \<open>
  The connectors collected from DRM, whatever the cards report, fit the arrays
  of 8 connectors with 64 modes each, and every connected one carries as its monitor number
  the 1-based count of connected connectors up to it on its own card, in the order DRM gives.
\<close>

theorem hdmi_load_drm_correct: "load_ok (load_drm card0 card1)"
proof -
  have "load_ok (load_card 0 card0 []) \<and> card_count 1 (load_card 0 card0 []) = 0"
    using load_card_ok [of "[]" 0 card0] by (simp add: load_ok_def monitors_ok_def card_count_def)
  then show ?thesis unfolding load_drm_def using load_card_ok by blast
qed

section \<open>The published output\<close>




end
