(* ===== verification/List_Nav.thy ===== *)
theory List_Nav
  imports C_Strings "HOL-Library.Sublist"
begin

text \<open>
  The display-free helpers of \<^verbatim>\<open>minui-list\<close> for finding rows: letter navigation
  (\<^verbatim>\<open>list_nav.c\<close>) and the filter (\<^verbatim>\<open>list_filter.c\<close>). A \<^verbatim>\<open>NULL\<close> string is \<open>None\<close>.
\<close>

section \<open>Letter navigation\<close>

record ListNavItem =
  ni_name :: "string option"
  ni_is_header :: bool
  ni_unselectable :: bool

definition nav_skip :: "ListNavItem \<Rightarrow> bool" where
  "nav_skip item \<longleftrightarrow> ni_is_header item \<or> ni_unselectable item"

text \<open>\<^verbatim>\<open>toupper\<close> and \<^verbatim>\<open>tolower\<close> of the C locale.\<close>

definition to_upper :: "nat \<Rightarrow> nat" where
  "to_upper n = (if 97 \<le> n \<and> n \<le> 122 then n - 32 else n)"

definition to_lower :: "nat \<Rightarrow> nat" where
  "to_lower n = (if 65 \<le> n \<and> n \<le> 90 then n + 32 else n)"

definition nav_letter :: "ListNavItem \<Rightarrow> nat" where
  "nav_letter item =
     (case ni_name item of None \<Rightarrow> 0
      | Some s \<Rightarrow> to_upper (if s = [] then 0 else char_val (hd s)))"

text \<open>A candidate row: selectable, with another letter than the selected one.\<close>

definition nav_other :: "ListNavItem list \<Rightarrow> nat \<Rightarrow> nat \<Rightarrow> bool" where
  "nav_other items current_letter i \<longleftrightarrow> \<not> nav_skip (items ! i) \<and> nav_letter (items ! i) \<noteq> current_letter"

text \<open>The inner loop, from row \<open>j - 1\<close> down to the first row of the group.\<close>

fun walk_back :: "ListNavItem list \<Rightarrow> nat \<Rightarrow> nat \<Rightarrow> nat \<Rightarrow> nat" where
  "walk_back items letter 0 target = target"
| "walk_back items letter (Suc j) target =
     (if nav_skip (items ! j) then walk_back items letter j target
      else if nav_letter (items ! j) = letter then walk_back items letter j j
      else target)"

text \<open>The outer loop, over the rows below \<open>start\<close>, downwards.\<close>

definition prev_group :: "ListNavItem list \<Rightarrow> nat \<Rightarrow> nat \<Rightarrow> nat option" where
  "prev_group items current_letter start =
     (case find (nav_other items current_letter) (rev [0..<start]) of
        None \<Rightarrow> None
      | Some i \<Rightarrow> Some (walk_back items (nav_letter (items ! i)) i i))"

definition ListNav_PrevLetterIndex :: "ListNavItem list \<Rightarrow> int \<Rightarrow> int" where
  "ListNav_PrevLetterIndex items selected =
     (if items = [] \<or> selected < 0 \<or> selected \<ge> int (length items) then selected
      else let current_letter = nav_letter (items ! nat selected)
           in case prev_group items current_letter (nat selected) of
                Some t \<Rightarrow> int t
              | None \<Rightarrow> (case prev_group items current_letter (length items) of
                           Some t \<Rightarrow> int t | None \<Rightarrow> selected))"

definition ListNav_NextLetterIndex :: "ListNavItem list \<Rightarrow> int \<Rightarrow> int" where
  "ListNav_NextLetterIndex items selected =
     (if items = [] \<or> selected < 0 \<or> selected \<ge> int (length items) then selected
      else let current_letter = nav_letter (items ! nat selected)
           in case find (nav_other items current_letter) [nat selected + 1..<length items] of
                Some t \<Rightarrow> int t
              | None \<Rightarrow> (case find (nav_other items current_letter) [0..<length items] of
                           Some t \<Rightarrow> int t | None \<Rightarrow> selected))"

section \<open>Filter\<close>

definition ci_char :: "char \<Rightarrow> nat" where
  "ci_char c = to_lower (char_val c)"

text \<open>The inner loop: how many characters of the filter match at the start of the suffix.\<close>

fun match_len :: "string \<Rightarrow> string \<Rightarrow> nat" where
  "match_len [] fs = 0"
| "match_len ns [] = 0"
| "match_len (n # ns) (f # fs) = (if ci_char n = ci_char f then Suc (match_len ns fs) else 0)"

text \<open>The result with the region \<^verbatim>\<open>match_start\<close>, \<^verbatim>\<open>match_len\<close>.\<close>

definition ListFilter_Match :: "string option \<Rightarrow> string option \<Rightarrow> bool \<times> nat \<times> nat" where
  "ListFilter_Match name filt =
     (if filt = None \<or> filt = Some [] then (True, 0, 0)
      else if name = None \<or> name = Some [] then (False, 0, 0)
      else let n = the name; f = the filt
           in if length f > length n then (False, 0, 0)
              else case find (\<lambda>i. match_len (drop i n) f = length f) [0..<length n - length f + 1] of
                     Some i \<Rightarrow> (True, i, length f)
                   | None \<Rightarrow> (False, 0, 0))"

definition ListFilter_ItemVisible :: "bool \<Rightarrow> bool \<Rightarrow> string option \<Rightarrow> string option \<Rightarrow> bool" where
  "ListFilter_ItemVisible is_header display_on_filter name filt =
     (if filt = None \<or> filt = Some [] then True
      else if display_on_filter then True
      else if is_header then False
      else fst (ListFilter_Match name filt))"

section \<open>Searching a range of rows\<close>

lemma find_Some_nth:
  "find P xs = Some x \<longleftrightarrow> (\<exists>i < length xs. x = xs ! i \<and> P x \<and> (\<forall>j < i. \<not> P (xs ! j)))"
  by (auto simp: find_Some_iff)

lemma find_up_Some:
  "find P [a..<b] = Some i \<longleftrightarrow> a \<le> i \<and> i < b \<and> P i \<and> (\<forall>j. a \<le> j \<and> j < i \<longrightarrow> \<not> P j)"
proof
  assume "find P [a..<b] = Some i"
  then obtain k where k: "k < b - a" "i = a + k" "P i" "\<forall>j < k. \<not> P (a + j)"
    by (auto simp: find_Some_nth)
  moreover have "\<not> P j" if "a \<le> j" "j < i" for j
  proof -
    have "j - a < k" using that k(2) by simp
    then have "\<not> P (a + (j - a))" using k(4) by blast
    with that(1) show ?thesis by simp
  qed
  ultimately show "a \<le> i \<and> i < b \<and> P i \<and> (\<forall>j. a \<le> j \<and> j < i \<longrightarrow> \<not> P j)" by auto
next
  assume "a \<le> i \<and> i < b \<and> P i \<and> (\<forall>j. a \<le> j \<and> j < i \<longrightarrow> \<not> P j)"
  then show "find P [a..<b] = Some i"
    by (auto simp: find_Some_nth intro!: exI [of _ "i - a"])
qed

lemma find_down_Some:
  "find P (rev [0..<n]) = Some i \<longleftrightarrow> i < n \<and> P i \<and> (\<forall>j. i < j \<and> j < n \<longrightarrow> \<not> P j)"
  by (induction n) (auto simp: less_Suc_eq)

lemma find_down_None: "find P (rev [0..<n]) = None \<longleftrightarrow> (\<forall>i < n. \<not> P i)"
  by (simp add: find_None_iff)

section \<open>Navigation is correct\<close>

text \<open>
  A row starts its letter group when the nearest selectable row above it, if any, has another
  letter. Going to the previous group lands on the start of the group of row \<open>i\<close>: everything
  selectable from there to \<open>i\<close> has the letter of \<open>i\<close>.
\<close>

definition group_start :: "ListNavItem list \<Rightarrow> nat \<Rightarrow> nat \<Rightarrow> bool" where
  "group_start items i t \<longleftrightarrow> t \<le> i \<and> \<not> nav_skip (items ! t)
     \<and> (\<forall>j. t \<le> j \<and> j \<le> i \<and> \<not> nav_skip (items ! j) \<longrightarrow> nav_letter (items ! j) = nav_letter (items ! i))
     \<and> (\<forall>j < t. \<not> nav_skip (items ! j) \<and> (\<forall>k. j < k \<and> k < t \<longrightarrow> nav_skip (items ! k))
           \<longrightarrow> nav_letter (items ! j) \<noteq> nav_letter (items ! i))"

lemma walk_back_start:
  assumes "j \<le> t" "t \<le> i" "\<not> nav_skip (items ! t)"
    and "\<forall>k. j \<le> k \<and> k < t \<longrightarrow> nav_skip (items ! k)"
    and "\<forall>k. t \<le> k \<and> k \<le> i \<and> \<not> nav_skip (items ! k) \<longrightarrow> nav_letter (items ! k) = nav_letter (items ! i)"
  shows "group_start items i (walk_back items (nav_letter (items ! i)) j t)"
  using assms
proof (induction j arbitrary: t)
  case 0
  then have "\<forall>k < t. nav_skip (items ! k)" by simp
  with 0 show ?case unfolding group_start_def walk_back.simps by blast
next
  case (Suc j)
  consider "nav_skip (items ! j)" | "\<not> nav_skip (items ! j)" "nav_letter (items ! j) = nav_letter (items ! i)"
    | "\<not> nav_skip (items ! j)" "nav_letter (items ! j) \<noteq> nav_letter (items ! i)" by blast
  then show ?case
  proof cases
    case 1
    with Suc.prems have "\<forall>k. j \<le> k \<and> k < t \<longrightarrow> nav_skip (items ! k)" by (metis Suc_leI le_neq_implies_less)
    with 1 Suc show ?thesis by simp
  next
    case 2
    have "\<forall>k. j \<le> k \<and> k \<le> i \<and> \<not> nav_skip (items ! k) \<longrightarrow> nav_letter (items ! k) = nav_letter (items ! i)"
      using Suc.prems 2 by (metis Suc_leI le_neq_implies_less not_le)
    with 2 Suc.IH [of j] Suc.prems show ?thesis by simp
  next
    case 3
    have "\<not> (\<forall>k. j' < k \<and> k < t \<longrightarrow> nav_skip (items ! k))" if "j' < j" for j'
      using 3(1) Suc.prems(1) that by (auto intro!: exI [of _ j])
    moreover have "j' \<noteq> j \<longrightarrow> j' < j \<or> nav_skip (items ! j')" if "j' < t" for j'
      using Suc.prems(4) that by (metis Suc_leI not_less_iff_gr_or_eq)
    ultimately have "\<forall>j' < t. \<not> nav_skip (items ! j') \<and> (\<forall>k. j' < k \<and> k < t \<longrightarrow> nav_skip (items ! k))
        \<longrightarrow> nav_letter (items ! j') \<noteq> nav_letter (items ! i)"
      using 3(2) by metis
    moreover have "walk_back items (nav_letter (items ! i)) (Suc j) t = t" using 3 by simp
    ultimately show ?thesis using Suc.prems(2,3,5) unfolding group_start_def by presburger
  qed
qed

lemma prev_group_start:
  "prev_group items c n = Some t \<longleftrightarrow>
     (\<exists>i < n. nav_other items c i \<and> (\<forall>j. i < j \<and> j < n \<longrightarrow> \<not> nav_other items c j)
        \<and> t = walk_back items (nav_letter (items ! i)) i i)"
proof (cases "find (nav_other items c) (rev [0..<n])")
  case None
  then have "\<forall>i < n. \<not> nav_other items c i" by (simp add: find_down_None)
  with None show ?thesis by (auto simp: prev_group_def)
next
  case (Some i)
  then have i: "i < n" "nav_other items c i" "\<forall>j. i < j \<and> j < n \<longrightarrow> \<not> nav_other items c j"
    by (simp_all add: find_down_Some)
  have u: "i' = i" if "i' < n" "nav_other items c i'" "\<forall>j. i' < j \<and> j < n \<longrightarrow> \<not> nav_other items c j" for i'
    using that i by (metis nat_neq_iff)
  have "prev_group items c n = Some (walk_back items (nav_letter (items ! i)) i i)"
    by (simp add: prev_group_def Some)
  then have "prev_group items c n = Some t \<longleftrightarrow> t = walk_back items (nav_letter (items ! i)) i i" by auto
  with i u show ?thesis by blast
qed

lemma prev_group_None: "prev_group items c n = None \<longleftrightarrow> (\<forall>i < n. \<not> nav_other items c i)"
  unfolding find_down_None [symmetric] by (simp add: prev_group_def split: option.splits)

lemma list_nav_next:
  assumes "0 \<le> sel" "sel < int (length items)" "\<exists>i < length items. nav_other items (nav_letter (items ! nat sel)) i"
  defines "other \<equiv> nav_other items (nav_letter (items ! nat sel))"
  shows "\<exists>n. ListNav_NextLetterIndex items sel = int n \<and> n < length items \<and> other n \<and>
    (if \<exists>i > nat sel. i < length items \<and> other i
     then nat sel < n \<and> (\<forall>j. nat sel < j \<and> j < n \<longrightarrow> \<not> other j) else \<forall>j < n. \<not> other j)"
proof (cases "find other [nat sel + 1..<length items]")
  case (Some i)
  then have i: "nat sel < i" "i < length items" "other i" "\<forall>j. nat sel < j \<and> j < i \<longrightarrow> \<not> other j"
    by (auto simp: find_up_Some)
  then have ex: "\<exists>i > nat sel. i < length items \<and> other i" by blast
  have "ListNav_NextLetterIndex items sel = int i"
    using Some assms(1,2) by (auto simp: ListNav_NextLetterIndex_def other_def [symmetric])
  then show ?thesis unfolding if_P [OF ex] using i by blast
next
  case None
  then have no: "\<not> (\<exists>i > nat sel. i < length items \<and> other i)" by (auto simp: find_None_iff)
  obtain i where i: "find other [0..<length items] = Some i"
    using assms(3) by (cases "find other [0..<length items]") (auto simp: find_None_iff other_def)
  then have "i < length items" "other i" "\<forall>j < i. \<not> other j" by (auto simp: find_up_Some)
  moreover have "ListNav_NextLetterIndex items sel = int i"
    using None i assms(1,2) by (auto simp: ListNav_NextLetterIndex_def other_def [symmetric])
  ultimately show ?thesis unfolding if_not_P [OF no] by blast
qed

lemma list_nav_prev:
  assumes "0 \<le> sel" "sel < int (length items)" "\<exists>i < length items. nav_other items (nav_letter (items ! nat sel)) i"
  defines "other \<equiv> nav_other items (nav_letter (items ! nat sel))"
  shows "\<exists>i t. ListNav_PrevLetterIndex items sel = int t \<and> i < length items \<and> other i \<and> group_start items i t \<and>
    (if \<exists>j < nat sel. other j then i < nat sel \<and> (\<forall>j. i < j \<and> j < nat sel \<longrightarrow> \<not> other j)
     else \<forall>j. i < j \<and> j < length items \<longrightarrow> \<not> other j)"
proof -
  have start: "group_start items i (walk_back items (nav_letter (items ! i)) i i)" if "other i" for i
    by (rule walk_back_start) (use that in \<open>auto simp: other_def nav_other_def dest: le_antisym\<close>)
  show ?thesis
  proof (cases "prev_group items (nav_letter (items ! nat sel)) (nat sel)")
    case (Some t)
    then obtain i where i: "i < nat sel" "other i" "\<forall>j. i < j \<and> j < nat sel \<longrightarrow> \<not> other j"
      "t = walk_back items (nav_letter (items ! i)) i i"
      unfolding prev_group_start other_def [symmetric] by blast
    then have ex: "\<exists>j < nat sel. other j" and l: "i < length items" using assms(2) by auto
    have "ListNav_PrevLetterIndex items sel = int t"
      using Some assms(1,2) by (auto simp: ListNav_PrevLetterIndex_def)
    then show ?thesis unfolding if_P [OF ex] using i l start by blast
  next
    case None
    then have no: "\<not> (\<exists>j < nat sel. other j)" by (simp add: prev_group_None other_def)
    obtain t where t: "prev_group items (nav_letter (items ! nat sel)) (length items) = Some t"
      using assms(3) by (cases "prev_group items (nav_letter (items ! nat sel)) (length items)")
        (auto simp: prev_group_None)
    then obtain i where i: "i < length items" "other i" "\<forall>j. i < j \<and> j < length items \<longrightarrow> \<not> other j"
      "t = walk_back items (nav_letter (items ! i)) i i"
      unfolding prev_group_start other_def [symmetric] by blast
    have "ListNav_PrevLetterIndex items sel = int t"
      using None t assms(1,2) by (auto simp: ListNav_PrevLetterIndex_def)
    then show ?thesis unfolding if_not_P [OF no] using i start by blast
  qed
qed

lemma list_nav_stay:
  assumes "\<forall>i < length items. \<not> nav_other items (nav_letter (items ! nat sel)) i"
  shows "ListNav_NextLetterIndex items sel = sel" and "ListNav_PrevLetterIndex items sel = sel"
proof -
  have "find (nav_other items (nav_letter (items ! nat sel))) [a..<length items] = None" for a
    using assms by (auto simp: find_None_iff)
  then show "ListNav_NextLetterIndex items sel = sel" by (simp add: ListNav_NextLetterIndex_def)
  have "prev_group items (nav_letter (items ! nat sel)) n = None" if "n \<le> length items" for n
    using assms that by (auto simp: prev_group_None)
  then show "ListNav_PrevLetterIndex items sel = sel" by (auto simp: ListNav_PrevLetterIndex_def Let_def)
qed

text \<open>
  Letter navigation from a row of the list. With no selectable row of another
  letter the selection stays. Otherwise the next-letter key goes to the nearest such row below,
  or from the bottom to the first one of the list; the previous-letter key takes the nearest
  such row above, or from the top the last one of the list, and goes to the first row of the
  letter group of that row. Both results are selectable rows of the list.
\<close>

theorem list_nav_correct:
  assumes "0 \<le> sel" and "sel < int (length items)"
  defines "other \<equiv> nav_other items (nav_letter (items ! nat sel))"
  shows "let nxt = ListNav_NextLetterIndex items sel; prv = ListNav_PrevLetterIndex items sel
    in if \<forall>i < length items. \<not> other i then nxt = sel \<and> prv = sel
       else (\<exists>n. nxt = int n \<and> n < length items \<and> other n \<and>
              (if \<exists>i > nat sel. i < length items \<and> other i
               then nat sel < n \<and> (\<forall>j. nat sel < j \<and> j < n \<longrightarrow> \<not> other j)
               else \<forall>j < n. \<not> other j))
          \<and> (\<exists>i t. prv = int t \<and> i < length items \<and> other i \<and> group_start items i t \<and>
              (if \<exists>j < nat sel. other j
               then i < nat sel \<and> (\<forall>j. i < j \<and> j < nat sel \<longrightarrow> \<not> other j)
               else \<forall>j. i < j \<and> j < length items \<longrightarrow> \<not> other j))"
  using list_nav_next [OF assms(1,2)] list_nav_prev [OF assms(1,2)] list_nav_stay [of items sel]
  unfolding other_def Let_def by (simp split: if_split)

definition demo_items :: "ListNavItem list" where
  "demo_items = map (\<lambda>s. \<lparr>ni_name = Some s, ni_is_header = False, ni_unselectable = False\<rparr>)
     [''alpha'', ''Beta'', ''bomb'', ''cave'']"

theorem list_nav_correct_witness:
  "ListNav_NextLetterIndex demo_items 2 = 3 \<and> ListNav_PrevLetterIndex demo_items 3 = 1
    \<and> (\<exists>n. ListNav_NextLetterIndex demo_items 2 = int n \<and> n < 4)"
proof -
  have l: "length demo_items = 4" by (simp add: demo_items_def)
  have ne: "\<not> (\<forall>i < length demo_items. \<not> nav_other demo_items (nav_letter (demo_items ! nat 2)) i)"
    by (auto simp: l intro!: exI [of _ 3])
      (simp add: demo_items_def nav_other_def nav_skip_def nav_letter_def to_upper_def char_val_def)
  have "\<exists>n. ListNav_NextLetterIndex demo_items 2 = int n \<and> n < 4"
    using list_nav_correct [of 2 demo_items, unfolded Let_def if_not_P [OF ne]] l by auto
  moreover have "ListNav_NextLetterIndex demo_items 2 = 3" "ListNav_PrevLetterIndex demo_items 3 = 1"
    by (simp_all add: demo_items_def ListNav_NextLetterIndex_def ListNav_PrevLetterIndex_def
        prev_group_def nav_other_def nav_skip_def nav_letter_def to_upper_def char_val_def
        upt_rec numeral_2_eq_2 numeral_3_eq_3)
  ultimately show ?thesis by blast
qed

section \<open>The filter is case-insensitive substring search\<close>

lemma match_len_full: "match_len ns fs = length fs \<longleftrightarrow> map ci_char (take (length fs) ns) = map ci_char fs"
  by (induction ns fs rule: match_len.induct) auto

definition matches_at :: "string \<Rightarrow> string \<Rightarrow> nat \<Rightarrow> bool" where
  "matches_at n f i \<longleftrightarrow> i + length f \<le> length n \<and> map ci_char (take (length f) (drop i n)) = map ci_char f"

lemma sublist_matches_at: "sublist (map ci_char f) (map ci_char n) \<longleftrightarrow> (\<exists>i. matches_at n f i)"
proof
  assume "sublist (map ci_char f) (map ci_char n)"
  then obtain a b where ab: "map ci_char n = a @ map ci_char f @ b" by (auto simp: sublist_def)
  have "length n = length a + length f + length b" using arg_cong [OF ab, of length] by simp
  moreover have "map ci_char (take (length f) (drop (length a) n)) = map ci_char f"
    using ab by (simp add: take_map [symmetric] drop_map [symmetric])
  ultimately have "matches_at n f (length a)" by (simp add: matches_at_def)
  then show "\<exists>i. matches_at n f i" ..
next
  assume "\<exists>i. matches_at n f i"
  then obtain i where i: "map ci_char (take (length f) (drop i n)) = map ci_char f"
    by (auto simp: matches_at_def)
  have "n = take i n @ take (length f) (drop i n) @ drop (length f) (drop i n)"
    by (metis append_take_drop_id)
  then have "map ci_char n = map ci_char (take i n) @ map ci_char f @ map ci_char (drop (length f) (drop i n))"
    by (metis i map_append)
  then show "sublist (map ci_char f) (map ci_char n)" by (auto simp: sublist_def)
qed

lemma filter_match_cases:
  "ListFilter_Match (Some n) (Some f) =
     (if \<exists>i. matches_at n f i then (True, LEAST i. matches_at n f i, length f) else (False, 0, 0))"
proof (cases "f = [] \<or> n = [] \<or> length f > length n")
  case True
  then show ?thesis
    by (auto simp: ListFilter_Match_def matches_at_def intro!: Least_eq_0 [symmetric])
next
  case False
  let ?P = "\<lambda>i. match_len (drop i n) f = length f"
  have P: "matches_at n f i \<longleftrightarrow> i < length n - length f + 1 \<and> ?P i" for i
    using False by (auto simp: matches_at_def match_len_full)
  have m: "ListFilter_Match (Some n) (Some f) =
      (case find ?P [0..<length n - length f + 1] of Some i \<Rightarrow> (True, i, length f) | None \<Rightarrow> (False, 0, 0))"
    using False by (simp add: ListFilter_Match_def)
  show ?thesis
  proof (cases "find ?P [0..<length n - length f + 1]")
    case None
    then have "\<not> (\<exists>i. matches_at n f i)" unfolding P by (auto simp: find_None_iff less_Suc_eq)
    with None m show ?thesis by simp
  next
    case (Some i)
    from Some have S: "0 \<le> i \<and> i < length n - length f + 1 \<and> ?P i \<and> (\<forall>j. 0 \<le> j \<and> j < i \<longrightarrow> \<not> ?P j)"
      unfolding find_up_Some .
    have i: "matches_at n f i" unfolding P using S by blast
    have "\<not> matches_at n f j" if "j < i" for j unfolding P using S that le0 [of j] by blast
    then have "i \<le> j" if "matches_at n f j" for j using that not_le by blast
    with i have "(LEAST i. matches_at n f i) = i" by (rule Least_equality)
    moreover have "\<exists>i. matches_at n f i" using i ..
    ultimately show ?thesis unfolding m Some by simp
  qed
qed

text \<open>
  The filter is case-insensitive substring search: it matches exactly when the
  lowered filter text is a contiguous part of the lowered name, and then reports the first such
  place and the filter's length, inside the name; otherwise the empty region. A row is visible
  while filtering exactly when the filter is empty, the row is pinned, or it is no header and
  its name matches.
\<close>

theorem list_filter_correct:
  "(let (ok, start, len) = ListFilter_Match (Some n) (Some f)
    in (ok \<longleftrightarrow> sublist (map ci_char f) (map ci_char n))
       \<and> (if ok then len = length f \<and> matches_at n f start \<and> (\<forall>j < start. \<not> matches_at n f j)
           else start = 0 \<and> len = 0))
   \<and> (ListFilter_ItemVisible header pinned (Some n) (Some f) \<longleftrightarrow>
        f = [] \<or> pinned \<or> \<not> header \<and> sublist (map ci_char f) (map ci_char n))"
proof (cases "\<exists>i. matches_at n f i")
  case True
  then have "matches_at n f (LEAST i. matches_at n f i)" by (rule LeastI_ex)
  with True show ?thesis
    by (auto simp: filter_match_cases sublist_matches_at ListFilter_ItemVisible_def dest: not_less_Least)
next
  case False
  then show ?thesis
    by (auto simp: filter_match_cases sublist_matches_at ListFilter_ItemVisible_def)
qed

theorem list_filter_correct_witness:
  "ListFilter_Match (Some ''Zelda Oracle'') (Some ''ora'') = (True, 6, 3)"
proof -
  have "fst (ListFilter_Match (Some ''Zelda Oracle'') (Some ''ora'')) = True"
    "fst (snd (ListFilter_Match (Some ''Zelda Oracle'') (Some ''ora''))) = 6"
    by (simp_all add: ListFilter_Match_def upt_rec ci_char_def to_lower_def char_val_def)
  then show ?thesis
    using list_filter_correct [of "''Zelda Oracle''" "''ora''" False False]
    by (cases "ListFilter_Match (Some ''Zelda Oracle'') (Some ''ora'')") (simp add: Let_def)
qed

end
