(* ===== verification/List_Scroll.thy ===== *)
theory List_Scroll
  imports Zlyme_Prelude
begin

text \<open>
  The display-free helpers of \<^verbatim>\<open>minui-list\<close> for drawing: text scrolling (\<^verbatim>\<open>list_scroll.c\<close>), image
  fitting (\<^verbatim>\<open>list_image.c\<close>), the bottom-left hint (\<^verbatim>\<open>list_hint.c\<close>) and the text role of a row
  (\<^verbatim>\<open>list_theme.c\<close>). \<^verbatim>\<open>int\<close> arguments are integers of the C range; the unsigned 64-bit
  arithmetic of the scroller is on naturals, and \<open>scroll_no_wrap\<close> shows that none of it wraps.
\<close>

section \<open>Scrolling\<close>

datatype ScrollMethod = SCROLL_NONE | SCROLL_WRAP | SCROLL_PONG

record ScrollConfig =
  speed_px_per_sec :: int
  start_pause_ms :: int
  end_pause_ms :: int
  gap_px :: int
  overflow_threshold_px :: int

definition ScrollMethod_Parse :: "string option \<Rightarrow> ScrollMethod" where
  "ScrollMethod_Parse s =
     (if s = None then SCROLL_NONE
      else if s = Some ''wrap'' then SCROLL_WRAP
      else if s = Some ''pong'' then SCROLL_PONG
      else SCROLL_NONE)"

definition clamp_nonneg :: "int \<Rightarrow> int" where
  "clamp_nonneg v = (if v < 0 then 0 else v)"

definition wrap_offset :: "nat \<Rightarrow> nat \<Rightarrow> nat \<Rightarrow> int \<Rightarrow> int" where
  "wrap_offset speed start_pause elapsed_ms period =
     (if period \<le> 0 then 0
      else let traveled = (if elapsed_ms > start_pause then speed * (elapsed_ms - start_pause) div 1000 else 0)
           in int (traveled mod nat period))"

definition pong_offset :: "nat \<Rightarrow> nat \<Rightarrow> nat \<Rightarrow> nat \<Rightarrow> nat \<Rightarrow> int" where
  "pong_offset speed start_pause end_pause elapsed_ms overflow =
     (let travel_ms = overflow * 1000 div speed;
          cycle = start_pause + travel_ms + end_pause + travel_ms
      in if cycle = 0 then 0
         else let t = elapsed_ms mod cycle;
                  p1_end = start_pause;
                  p2_end = p1_end + travel_ms;
                  p3_end = p2_end + end_pause
              in if t < p1_end then 0
                 else if t < p2_end
                   then (let off = speed * (t - p1_end) div 1000
                         in if off > overflow then int overflow else int off)
                 else if t < p3_end then int overflow
                 else (let off = speed * (t - p3_end) div 1000;
                           off = (if off > overflow then overflow else off)
                       in int overflow - int off))"

definition TextScroll_Offset :: "ScrollMethod \<Rightarrow> ScrollConfig option \<Rightarrow> nat \<Rightarrow> int \<Rightarrow> int \<Rightarrow> int" where
  "TextScroll_Offset method cfg elapsed_ms text_width viewport_width =
     (case cfg of None \<Rightarrow> 0
      | Some c \<Rightarrow>
          if method = SCROLL_NONE then 0
          else if speed_px_per_sec c \<le> 0 \<or> text_width \<le> 0 \<or> viewport_width \<le> 0 then 0
          else let overflow = text_width - viewport_width
               in if overflow \<le> 0 \<or> overflow \<le> overflow_threshold_px c then 0
                  else let speed = nat (speed_px_per_sec c);
                           start_pause = nat (clamp_nonneg (start_pause_ms c))
                       in if method = SCROLL_WRAP
                          then wrap_offset speed start_pause elapsed_ms
                                 (to_s32 (text_width + clamp_nonneg (gap_px c)))
                          else pong_offset speed start_pause (nat (clamp_nonneg (end_pause_ms c)))
                                 elapsed_ms (nat overflow))"

section \<open>Images\<close>

definition ImageFit_Scale :: "int \<Rightarrow> int \<Rightarrow> int \<Rightarrow> int \<Rightarrow> bool \<times> int \<times> int" where
  "ImageFit_Scale src_w src_h max_w max_h =
     (if src_w \<le> 0 \<or> src_h \<le> 0 \<or> max_w \<le> 0 \<or> max_h \<le> 0 then (False, 0, 0)
      else let (w, h) =
                 (if src_w \<le> max_w \<and> src_h \<le> max_h then (src_w, src_h)
                  else if src_w * max_h \<ge> src_h * max_w then (max_w, to_s32 (src_h * max_w sdiv src_w))
                  else (to_s32 (src_w * max_h sdiv src_h), max_h));
               w = (if w < 1 then 1 else w);
               h = (if h < 1 then 1 else h)
           in (True, w, h))"

record ImageVariant =
  iv_resolution :: string
  iv_path :: string

text \<open>The loop returns at an exact match and remembers the last default entry.\<close>

fun variant_loop :: "ImageVariant list \<Rightarrow> string option \<Rightarrow> int \<Rightarrow> int \<Rightarrow> int" where
  "variant_loop [] resolution i default_index = default_index"
| "variant_loop (v # vs) resolution i default_index =
     (if resolution = Some (iv_resolution v) then i
      else variant_loop vs resolution (i + 1)
             (if iv_resolution v = ''default'' then i else default_index))"

definition ImageVariant_SelectIndex :: "ImageVariant list \<Rightarrow> string option \<Rightarrow> int" where
  "ImageVariant_SelectIndex variants resolution =
     (if variants = [] then -1 else variant_loop variants resolution 0 (-1))"

section \<open>Hints and text roles\<close>

datatype BottomLeftHint = BOTTOM_LEFT_NONE | BOTTOM_LEFT_SETTING_HINT | BOTTOM_LEFT_SLEEP

definition BottomLeftHint_For :: "bool \<Rightarrow> int \<Rightarrow> bool \<Rightarrow> bool \<Rightarrow> BottomLeftHint" where
  "BottomLeftHint_For show_hardware_group show_setting has_left_button_group hdmi_connected =
     (if \<not> show_hardware_group \<or> has_left_button_group then BOTTOM_LEFT_NONE
      else if show_setting \<noteq> 0 \<and> \<not> hdmi_connected then BOTTOM_LEFT_SETTING_HINT
      else BOTTOM_LEFT_SLEEP)"

datatype ListTextRole =
  LIST_TEXT_NORMAL | LIST_TEXT_DISABLED | LIST_TEXT_MUTED | LIST_TEXT_SELECTED | LIST_TEXT_SELECTED_DISABLED

definition ListTheme_RowTextRole :: "bool \<Rightarrow> bool \<Rightarrow> bool \<Rightarrow> ListTextRole" where
  "ListTheme_RowTextRole is_selected is_disabled is_muted =
     (if is_muted then LIST_TEXT_MUTED
      else if is_selected then (if is_disabled then LIST_TEXT_SELECTED_DISABLED else LIST_TEXT_SELECTED)
      else (if is_disabled then LIST_TEXT_DISABLED else LIST_TEXT_NORMAL))"

section \<open>Scrolling is correct\<close>

text \<open>The largest intermediate values, for any C arguments, fit 64 bits.\<close>

lemma scroll_no_wrap:
  fixes speed elapsed overflow pause pause' :: nat
  assumes "speed < 2 ^ 31" "elapsed < 2 ^ 32" "overflow < 2 ^ 31" "pause < 2 ^ 31" "pause' < 2 ^ 31"
  shows "speed * elapsed < 2 ^ 64" and "overflow * 1000 < 2 ^ 64"
    and "pause + overflow * 1000 + pause' + overflow * 1000 < 2 ^ 64"
proof -
  have "speed * elapsed \<le> 2 ^ 31 * 2 ^ 32" using assms by (intro mult_mono) auto
  then show "speed * elapsed < 2 ^ 64" by simp
  show "overflow * 1000 < 2 ^ 64" "pause + overflow * 1000 + pause' + overflow * 1000 < 2 ^ 64"
    using assms by simp_all
qed

text \<open>The ramp: during its travel time the text moves by at most the overflow, and the
  rounding loses at most a pixel plus the distance of one millisecond.\<close>

lemma pong_ramp:
  assumes "0 < speed" and "u < overflow * 1000 div speed"
  shows "speed * u div 1000 \<le> (overflow :: nat)"
proof -
  have "speed * u \<le> speed * (overflow * 1000 div speed)" using assms by (intro mult_left_mono) auto
  also have "\<dots> \<le> overflow * 1000" by simp
  finally have "speed * u div 1000 \<le> overflow * 1000 div 1000" by (rule div_le_mono)
  then show ?thesis by simp
qed

lemma pong_bounds:
  "0 \<le> pong_offset speed p q e overflow \<and> pong_offset speed p q e overflow \<le> int overflow"
  by (simp add: pong_offset_def Let_def)

lemma pong_periodic:
  "pong_offset speed p q (e + (p + overflow * 1000 div speed + q + overflow * 1000 div speed)) overflow
     = pong_offset speed p q e overflow"
  unfolding pong_offset_def Let_def mod_add_self2 by (rule refl)

lemma pong_reveals_end:
  assumes "0 < overflow * 1000 div speed \<or> 0 < q"
  shows "pong_offset speed p q (p + overflow * 1000 div speed) overflow = int overflow"
proof -
  have "(p + overflow * 1000 div speed) mod (p + overflow * 1000 div speed + q + overflow * 1000 div speed)
      = p + overflow * 1000 div speed"
    using assms by (intro mod_less) auto
  then show ?thesis using assms by (auto simp: pong_offset_def Let_def)
qed

lemma wrap_bounds:
  "0 < period \<Longrightarrow> 0 \<le> wrap_offset speed p e period \<and> wrap_offset speed p e period < period"
  using mod_less_divisor [of "nat period" "speed * (e - p) div 1000"]
  by (auto simp: wrap_offset_def Let_def simp del: mod_less_divisor)

text \<open>
  Scrolling a text that overflows its viewport by more than the threshold: the
  wrapping marquee stays within one period (text plus gap), and holds the text at its start
  until the pause is over; the bouncing one never scrolls past the end of the text, repeats
  with its cycle, holds the start for the pause, and reveals the end of the text in full once
  per cycle.
\<close>

theorem text_scroll_correct:
  assumes "0 < speed_px_per_sec c" "0 < viewport" "viewport < width"
    and "overflow_threshold_px c < width - viewport" "s32_ok (width + clamp_nonneg (gap_px c))"
  defines "start \<equiv> nat (clamp_nonneg (start_pause_ms c))"
    and "stop \<equiv> nat (clamp_nonneg (end_pause_ms c))"
    and "travel \<equiv> nat (width - viewport) * 1000 div nat (speed_px_per_sec c)"
    and "wrap \<equiv> \<lambda>e. TextScroll_Offset SCROLL_WRAP (Some c) e width viewport"
    and "pong \<equiv> \<lambda>e. TextScroll_Offset SCROLL_PONG (Some c) e width viewport"
  shows "(\<forall>e. 0 \<le> wrap e \<and> wrap e < width + clamp_nonneg (gap_px c))
    \<and> (\<forall>e \<le> start. wrap e = 0)
    \<and> (\<forall>e. 0 \<le> pong e \<and> pong e \<le> width - viewport)
    \<and> (\<forall>e. pong (e + (start + travel + stop + travel)) = pong e)
    \<and> (\<forall>e < start. pong e = 0)
    \<and> (0 < travel \<or> 0 < stop \<longrightarrow> pong (start + travel) = width - viewport)"
proof -
  let ?speed = "nat (speed_px_per_sec c)" and ?over = "nat (width - viewport)"
  have w: "wrap e = wrap_offset ?speed start e (width + clamp_nonneg (gap_px c))" for e
    using assms(1-5) unfolding wrap_def start_def by (simp add: TextScroll_Offset_def Let_def to_s32_id)
  have p: "pong e = pong_offset ?speed start stop e ?over" for e
    using assms(1-4) unfolding pong_def start_def stop_def by (simp add: TextScroll_Offset_def Let_def)
  have over: "int ?over = width - viewport" using assms(3) by simp
  have period: "0 < width + clamp_nonneg (gap_px c)" using assms(2,3) by (simp add: clamp_nonneg_def)
  have "pong e = 0" if "e < start" for e
  proof -
    have "e mod (start + ?over * 1000 div ?speed + stop + ?over * 1000 div ?speed) = e"
      using that by (intro mod_less) simp
    with that show ?thesis unfolding p by (simp add: pong_offset_def Let_def)
  qed
  moreover have "wrap e = 0" if "e \<le> start" for e
    using that unfolding w by (simp add: wrap_offset_def Let_def)
  ultimately show ?thesis
    using wrap_bounds [OF period] pong_bounds [of ?speed start stop _ ?over]
      pong_periodic [of ?speed start stop _ ?over] pong_reveals_end [of ?over ?speed stop start]
    unfolding w p travel_def over by blast
qed

definition demo_scroll :: ScrollConfig where
  "demo_scroll = \<lparr>speed_px_per_sec = 50, start_pause_ms = 1000, end_pause_ms = 500, gap_px = 40,
     overflow_threshold_px = 8\<rparr>"

theorem text_scroll_correct_witness:
  "TextScroll_Offset SCROLL_PONG (Some demo_scroll) 3000 300 200 = 100
    \<and> TextScroll_Offset SCROLL_WRAP (Some demo_scroll) 1000 300 200 = 0"
  using text_scroll_correct [of demo_scroll 200 300]
  by (auto simp: demo_scroll_def clamp_nonneg_def s32_ok_def)

section \<open>Image fitting is correct\<close>

text \<open>
  Fitting an image with positive \<^verbatim>\<open>int\<close> sizes into a box: it succeeds, the result is
  at least one pixel, fits the box and is never larger than the image; an image that fits keeps
  its size, otherwise one side fills the box and the other is the aspect-preserving length
  rounded down (at least one pixel); the 64-bit products do not overflow.
\<close>

theorem image_fit_correct:
  assumes "0 < sw" "0 < sh" "0 < mw" "0 < mh" "s32_ok sw" "s32_ok sh" "s32_ok mw" "s32_ok mh"
  shows "\<exists>w h. ImageFit_Scale sw sh mw mh = (True, w, h) \<and> s64_ok (sw * mh) \<and> s64_ok (sh * mw)
    \<and> 1 \<le> w \<and> w \<le> mw \<and> w \<le> sw \<and> 1 \<le> h \<and> h \<le> mh \<and> h \<le> sh
    \<and> (if sw \<le> mw \<and> sh \<le> mh then w = sw \<and> h = sh
        else if sh * mw \<le> sw * mh then w = mw \<and> h = max 1 (sh * mw div sw)
        else h = mh \<and> w = max 1 (sw * mh div sh))"
proof -
  have prod: "s64_ok (a * b) \<and> 0 \<le> a * b" if "0 < a" "0 < b" "s32_ok a" "s32_ok b" for a b
  proof -
    have "a * b \<le> 2 ^ 31 * 2 ^ 31" using that by (intro mult_mono) (auto simp: s32_ok_def)
    moreover have "0 \<le> a * b" using that by simp
    moreover have "- (2 ^ 63) \<le> (0 :: int)" "2 ^ 31 * 2 ^ 31 < (2 :: int) ^ 63" by simp_all
    ultimately show ?thesis unfolding s64_ok_def by linarith
  qed
  have fit: "0 \<le> a * m div b \<and> a * m div b \<le> n \<and> a * m div b \<le> a"
    if "0 < a" "0 < b" "0 < m" "a * m \<le> b * n" "m < b" for a b m n :: int
  proof -
    have "a * m div b \<le> b * n div b" using that by (intro zdiv_mono1) auto
    moreover have "a * m div b \<le> a * b div b" using that by (intro zdiv_mono1 mult_left_mono) auto
    ultimately show ?thesis using that by (simp add: pos_imp_zdiv_nonneg_iff)
  qed
  show ?thesis
  proof (cases "sw \<le> mw \<and> sh \<le> mh")
    case True
    then show ?thesis using assms prod by (simp add: ImageFit_Scale_def Let_def)
  next
    case big: False
    show ?thesis
    proof (cases "sh * mw \<le> sw * mh")
      case True
      have "mw < sw"
      proof (rule ccontr)
        assume n: "\<not> mw < sw"
        with big have "mh < sh" by auto
        then have "mh * mw < sh * mw" using assms by simp
        moreover have "sw * mh \<le> mw * mh" using n assms by simp
        ultimately show False using True by (simp add: mult.commute)
      qed
      then have f: "0 \<le> sh * mw div sw" "sh * mw div sw \<le> mh" "sh * mw div sw \<le> sh"
        using fit [of sh sw mw mh] True assms by auto
      then have "s32_ok (sh * mw div sw)" using assms by (auto simp: s32_ok_def)
      with big True f \<open>mw < sw\<close> assms prod show ?thesis
        by (simp add: ImageFit_Scale_def Let_def sdiv_nonneg to_s32_id max_def)
    next
      case False
      have "mh < sh"
      proof (rule ccontr)
        assume n: "\<not> mh < sh"
        with big have "mw < sw" by auto
        then have "mw * mh < sw * mh" using assms by simp
        moreover have "sh * mw \<le> mh * mw" using n assms by simp
        ultimately show False using False by (simp add: mult.commute)
      qed
      then have f: "0 \<le> sw * mh div sh" "sw * mh div sh \<le> mw" "sw * mh div sh \<le> sw"
        using fit [of sw sh mh mw] False assms by auto
      then have "s32_ok (sw * mh div sh)" using assms by (auto simp: s32_ok_def)
      with big False f \<open>mh < sh\<close> assms prod show ?thesis
        by (simp add: ImageFit_Scale_def Let_def sdiv_nonneg to_s32_id max_def)
    qed
  qed
qed

theorem image_fit_correct_witness:
  "ImageFit_Scale 640 480 320 200 = (True, 266, 200)"
  using image_fit_correct [of 640 480 320 200] by (auto simp: s32_ok_def)

end
