(* ===== verification/List_Keyboard.thy ===== *)
theory List_Keyboard
  imports Zlyme_Prelude
begin

text \<open>
  The filter keyboard of \<^verbatim>\<open>minui-list\<close> (\<^verbatim>\<open>list_keyboard.c\<close>): the three layout tables, the cursor
  and its moves. A key is its byte string (the special layout has UTF-8 symbols) and an
  unused cell is the empty string; coordinates are integers of the C range.
\<close>

section \<open>Layouts\<close>

abbreviation (input) "LIST_KEYBOARD_ROWS \<equiv> (5 :: int)"
abbreviation (input) "LIST_KEYBOARD_COLS \<equiv> (14 :: int)"
abbreviation (input) "LIST_KEYBOARD_LAYOUTS \<equiv> (3 :: int)"

definition keyboard_layout_lowercase :: "string list list" where
  "keyboard_layout_lowercase =
     [[[CHR 0x60], ''1'', ''2'', ''3'', ''4'', ''5'', ''6'', ''7'', ''8'', ''9'', ''0'',
       [CHR 0x2D], [CHR 0x3D]] @ replicate 1 [],
      [''q'', ''w'', ''e'', ''r'', ''t'', ''y'', ''u'', ''i'', ''o'', ''p'', [CHR 0x5B],
       [CHR 0x5D], [CHR 0x5C]] @ replicate 1 [],
      [''a'', ''s'', ''d'', ''f'', ''g'', ''h'', ''j'', ''k'', ''l'', [CHR 0x3B], [CHR 0x27]] @ replicate 3 [],
      [''z'', ''x'', ''c'', ''v'', ''b'', ''n'', ''m'', [CHR 0x2C], [CHR 0x2E], [CHR 0x2F]] @ replicate 4 [],
      [''shift'', ''space'', ''enter''] @ replicate 11 []]"

definition keyboard_layout_uppercase :: "string list list" where
  "keyboard_layout_uppercase =
     [[[CHR 0x7E], [CHR 0x21], [CHR 0x40], [CHR 0x23], [CHR 0x24], [CHR 0x25], [CHR 0x5E],
       [CHR 0x26], [CHR 0x2A], [CHR 0x28], [CHR 0x29], [CHR 0x5F], [CHR 0x2B]] @ replicate 1 [],
      [''Q'', ''W'', ''E'', ''R'', ''T'', ''Y'', ''U'', ''I'', ''O'', ''P'', [CHR 0x7B],
       [CHR 0x7D], [CHR 0x7C]] @ replicate 1 [],
      [''A'', ''S'', ''D'', ''F'', ''G'', ''H'', ''J'', ''K'', ''L'', [CHR 0x3A], [CHR 0x22]] @ replicate 3 [],
      [''Z'', ''X'', ''C'', ''V'', ''B'', ''N'', ''M'', [CHR 0x3C], [CHR 0x3E], [CHR 0x3F]] @ replicate 4 [],
      [''shift'', ''space'', ''enter''] @ replicate 11 []]"

definition keyboard_layout_special :: "string list list" where
  "keyboard_layout_special =
     [[[CHR 0x7E], [CHR 0x21], [CHR 0x40], [CHR 0x23], [CHR 0x24], [CHR 0x25], [CHR 0x5E],
       [CHR 0x26], [CHR 0x2A], [CHR 0x28], [CHR 0x29], [CHR 0x5F], [CHR 0x2B]] @ replicate 1 [],
      [[CHR 0x7B], [CHR 0x7D], [CHR 0x7C], [CHR 0x5C], [CHR 0x3C], [CHR 0x3E], [CHR 0x3F],
       [CHR 0x22], [CHR 0x3B], [CHR 0x3A], [CHR 0x5B], [CHR 0x5D], [CHR 0x5C]] @ replicate 1 [],
      [[CHR 0xC2, CHR 0xB1], [CHR 0xC2, CHR 0xA7], [CHR 0xC2, CHR 0xB6], [CHR 0xC2, CHR 0xA9],
       [CHR 0xC2, CHR 0xAE], [CHR 0xE2, CHR 0x84, CHR 0xA2], [CHR 0xE2, CHR 0x82, CHR 0xAC],
       [CHR 0xC2, CHR 0xA3], [CHR 0xC2, CHR 0xA5], [CHR 0xC2, CHR 0xA2], [CHR 0xC2, CHR 0xA4]] @ replicate 3 [],
      [[CHR 0xC2, CHR 0xB0], [CHR 0xE2, CHR 0x80, CHR 0xA2], [CHR 0xC2, CHR 0xB7],
       [CHR 0xE2, CHR 0x80, CHR 0xA0], [CHR 0xE2, CHR 0x80, CHR 0xA1], [CHR 0xC2, CHR 0xAC],
       [CHR 0xC2, CHR 0xA6], [CHR 0xC2, CHR 0xA1]] @ replicate 6 [],
      [''shift'', ''space'', ''enter''] @ replicate 11 []]"

definition layout_for :: "int \<Rightarrow> string list list" where
  "layout_for layout =
     (if layout = 1 then keyboard_layout_uppercase
      else if layout = 2 then keyboard_layout_special
      else keyboard_layout_lowercase)"

definition ListKeyboard_KeyAt :: "int \<Rightarrow> int \<Rightarrow> int \<Rightarrow> string" where
  "ListKeyboard_KeyAt layout row col =
     (if row < 0 \<or> row \<ge> LIST_KEYBOARD_ROWS \<or> col < 0 \<or> col \<ge> LIST_KEYBOARD_COLS then []
      else layout_for layout ! nat row ! nat col)"

definition count_row_length :: "string list list \<Rightarrow> int \<Rightarrow> int" where
  "count_row_length layout row = int (length (filter (\<lambda>k. k \<noteq> []) (layout ! nat row)))"

definition ListKeyboard_RowLength :: "int \<Rightarrow> int \<Rightarrow> int" where
  "ListKeyboard_RowLength layout row =
     (if row < 0 \<or> row \<ge> LIST_KEYBOARD_ROWS then 0 else count_row_length (layout_for layout) row)"

section \<open>The cursor\<close>

record KeyboardCursor =
  row :: int
  col :: int
  layout :: int

datatype ListKeyboardDir = LIST_KEYBOARD_UP | LIST_KEYBOARD_DOWN | LIST_KEYBOARD_LEFT | LIST_KEYBOARD_RIGHT

definition calculate_column_offset :: "string list list \<Rightarrow> int \<Rightarrow> int \<Rightarrow> int" where
  "calculate_column_offset lay from_row to_row =
     (count_row_length lay to_row - count_row_length lay from_row) sdiv 2"

definition adjust_offset_exit_last_row :: "int \<Rightarrow> int \<Rightarrow> int" where
  "adjust_offset_exit_last_row offset column =
     (if column = 0 then offset - 1 else if column = 2 then offset + 1 else offset)"

definition adjust_offset_enter_last_row :: "int \<Rightarrow> int \<Rightarrow> int \<Rightarrow> int" where
  "adjust_offset_enter_last_row offset c center =
     (if c > center then offset - 1 else if c < center then offset + 1 else offset)"

text \<open>Moving left from column \<open>k - 1\<close> to a key, or to \<open>-1\<close>; and right from column 0.\<close>

fun left_to_key :: "string list \<Rightarrow> nat \<Rightarrow> int" where
  "left_to_key cells 0 = -1"
| "left_to_key cells (Suc k) = (if cells ! k = [] then left_to_key cells k else int k)"

definition right_to_key :: "string list \<Rightarrow> int" where
  "right_to_key cells = int (length (takeWhile (\<lambda>k. k = []) cells))"

definition rescue :: "KeyboardCursor \<Rightarrow> string list list \<Rightarrow> KeyboardCursor" where
  "rescue cursor lay =
     (let r = (if row cursor < 0 then 0
               else if row cursor > LIST_KEYBOARD_ROWS - 1 then LIST_KEYBOARD_ROWS - 1 else row cursor);
          c = (if col cursor > LIST_KEYBOARD_COLS - 1 then LIST_KEYBOARD_COLS - 1 else col cursor);
          c = left_to_key (lay ! nat r) (nat (c + 1));
          c = (if c < 0 then right_to_key (lay ! nat r) else c)
      in cursor\<lparr>row := r, col := c\<rparr>)"

definition ListKeyboard_Rescue :: "KeyboardCursor \<Rightarrow> KeyboardCursor" where
  "ListKeyboard_Rescue cursor = rescue cursor (layout_for (layout cursor))"

definition move_up :: "KeyboardCursor \<Rightarrow> string list list \<Rightarrow> KeyboardCursor" where
  "move_up cursor lay =
     (if row cursor > 0
      then let offset = calculate_column_offset lay (row cursor) (row cursor - 1);
               offset = (if row cursor = LIST_KEYBOARD_ROWS - 1
                         then adjust_offset_exit_last_row offset (col cursor) else offset)
           in cursor\<lparr>row := row cursor - 1, col := col cursor + offset\<rparr>
      else let offset = calculate_column_offset lay 0 (LIST_KEYBOARD_ROWS - 1);
               row_length = count_row_length lay 0;
               center = (row_length - 1) sdiv 2;
               offset = (if \<not> (even row_length \<and> col cursor = center - 1)
                         then adjust_offset_enter_last_row offset (col cursor) center else offset)
           in cursor\<lparr>row := LIST_KEYBOARD_ROWS - 1, col := col cursor + offset\<rparr>)"

definition move_down :: "KeyboardCursor \<Rightarrow> string list list \<Rightarrow> KeyboardCursor" where
  "move_down cursor lay =
     (if row cursor < LIST_KEYBOARD_ROWS - 1
      then let offset = calculate_column_offset lay (row cursor) (row cursor + 1);
               row_length = count_row_length lay (row cursor);
               center = (row_length - 1) sdiv 2;
               offset = (if row cursor + 1 = LIST_KEYBOARD_ROWS - 1
                            \<and> (col cursor > center \<or> (odd row_length \<and> col cursor < center))
                         then adjust_offset_enter_last_row offset (col cursor) center else offset)
           in cursor\<lparr>row := row cursor + 1, col := col cursor + offset\<rparr>
      else let offset = calculate_column_offset lay (LIST_KEYBOARD_ROWS - 1) 0;
               offset = adjust_offset_exit_last_row offset (col cursor)
           in cursor\<lparr>row := 0, col := col cursor + offset\<rparr>)"

definition move_left :: "KeyboardCursor \<Rightarrow> string list list \<Rightarrow> KeyboardCursor" where
  "move_left cursor lay =
     (if col cursor > 0 then cursor\<lparr>col := col cursor - 1\<rparr>
      else cursor\<lparr>col := left_to_key (lay ! nat (row cursor)) (nat LIST_KEYBOARD_COLS)\<rparr>)"

definition move_right :: "KeyboardCursor \<Rightarrow> string list list \<Rightarrow> KeyboardCursor" where
  "move_right cursor lay =
     (let next_key = (if col cursor + 1 < LIST_KEYBOARD_COLS
                      then lay ! nat (row cursor) ! nat (col cursor + 1) else [])
      in if col cursor + 1 \<ge> LIST_KEYBOARD_COLS \<or> next_key = [] then cursor\<lparr>col := 0\<rparr>
         else if col cursor < LIST_KEYBOARD_COLS - 1 then cursor\<lparr>col := col cursor + 1\<rparr>
         else cursor)"

definition ListKeyboard_Move :: "KeyboardCursor \<Rightarrow> ListKeyboardDir \<Rightarrow> KeyboardCursor" where
  "ListKeyboard_Move cursor dir =
     (let lay = layout_for (layout cursor)
      in case dir of
           LIST_KEYBOARD_UP \<Rightarrow> rescue (move_up cursor lay) lay
         | LIST_KEYBOARD_DOWN \<Rightarrow> rescue (move_down cursor lay) lay
         | LIST_KEYBOARD_LEFT \<Rightarrow> move_left cursor lay
         | LIST_KEYBOARD_RIGHT \<Rightarrow> move_right cursor lay)"

definition ListKeyboard_CycleLayout :: "KeyboardCursor \<Rightarrow> KeyboardCursor" where
  "ListKeyboard_CycleLayout cursor =
     (let cursor = cursor\<lparr>layout := (layout cursor + 1) smod LIST_KEYBOARD_LAYOUTS\<rparr>
      in rescue cursor (layout_for (layout cursor)))"

section \<open>The shape of the tables\<close>

text \<open>Every row has 14 cells and its keys, at least one, are its first cells.\<close>

definition row_wf :: "string list \<Rightarrow> bool" where
  "row_wf cells \<longleftrightarrow> length cells = 14 \<and> cells ! 0 \<noteq> []
     \<and> dropWhile (\<lambda>k. k \<noteq> []) cells = replicate (length (dropWhile (\<lambda>k. k \<noteq> []) cells)) []"

lemma layout_wf: "length (layout_for l) = 5" "r < 5 \<Longrightarrow> row_wf (layout_for l ! r)"
proof -
  show "length (layout_for l) = 5"
    by (simp add: layout_for_def keyboard_layout_lowercase_def keyboard_layout_uppercase_def
        keyboard_layout_special_def)
  have "list_all row_wf (layout_for l)"
    by (simp add: layout_for_def keyboard_layout_lowercase_def keyboard_layout_uppercase_def
        keyboard_layout_special_def row_wf_def numeral_nat)
  then show "r < 5 \<Longrightarrow> row_wf (layout_for l ! r)"
    using \<open>length (layout_for l) = 5\<close> by (simp add: list_all_length)
qed

definition row_keys :: "string list \<Rightarrow> nat" where
  "row_keys cells = length (takeWhile (\<lambda>k. k \<noteq> []) cells)"

lemma row_wf_keys:
  assumes "row_wf cells"
  shows "0 < row_keys cells" and "row_keys cells \<le> 14"
    and "length (filter (\<lambda>k. k \<noteq> []) cells) = row_keys cells"
    and "c < 14 \<Longrightarrow> cells ! c \<noteq> [] \<longleftrightarrow> c < row_keys cells"
proof -
  let ?k = "takeWhile (\<lambda>k. k \<noteq> []) cells"
  obtain n where n: "cells = ?k @ replicate n []"
    using assms unfolding row_wf_def by (metis takeWhile_dropWhile_id)
  have l: "length cells = 14" "cells ! 0 \<noteq> []" using assms by (auto simp: row_wf_def)
  then show "0 < row_keys cells" by (cases cells) (auto simp: row_keys_def)
  show "row_keys cells \<le> 14" using length_takeWhile_le [of _ cells] l by (simp add: row_keys_def)
  have "filter (\<lambda>k. k \<noteq> []) ?k = ?k" by (auto simp: filter_id_conv dest: set_takeWhileD)
  then show "length (filter (\<lambda>k. k \<noteq> []) cells) = row_keys cells"
    unfolding row_keys_def by (subst n) simp
  have "?k ! c \<noteq> []" if "c < length ?k" using nth_mem [OF that] set_takeWhileD by fastforce
  moreover have "(?k @ replicate n []) ! c = []" if "\<not> c < length ?k" "c < 14"
  proof -
    have "length ?k + n = 14" using l(1) by (subst (asm) n) simp
    with that show ?thesis by (simp add: nth_append)
  qed
  ultimately show "c < 14 \<Longrightarrow> cells ! c \<noteq> [] \<longleftrightarrow> c < row_keys cells"
    unfolding row_keys_def by (metis n nth_append)
qed

lemma left_to_key_wf:
  assumes "row_wf cells"
  shows "k \<le> 14 \<Longrightarrow> left_to_key cells k = min (int k) (int (row_keys cells)) - 1"
proof (induction k)
  case (Suc k)
  then show ?case using row_wf_keys(4) [OF assms, of k] by (auto simp: min_def)
qed simp

lemma right_to_key_wf: "row_wf cells \<Longrightarrow> right_to_key cells = 0"
  by (cases cells) (auto simp: row_wf_def right_to_key_def)

section \<open>The cursor stays on a key\<close>

text \<open>The number of keys of the cursor's row, in its layout.\<close>

definition keys_in_row :: "KeyboardCursor \<Rightarrow> int" where
  "keys_in_row c = ListKeyboard_RowLength (layout c) (row c)"

definition cursor_ok :: "KeyboardCursor \<Rightarrow> bool" where
  "cursor_ok c \<longleftrightarrow> 0 \<le> row c \<and> row c < 5 \<and> 0 \<le> layout c \<and> layout c < 3
     \<and> 0 \<le> col c \<and> col c < 14 \<and> ListKeyboard_KeyAt (layout c) (row c) (col c) \<noteq> []"

lemma key_at_iff:
  assumes "0 \<le> r" "r < 5" "0 \<le> c" "c < 14"
  shows "ListKeyboard_KeyAt l r c \<noteq> [] \<longleftrightarrow> c < ListKeyboard_RowLength l r"
    and "0 < ListKeyboard_RowLength l r" and "ListKeyboard_RowLength l r \<le> 14"
    and "ListKeyboard_RowLength l r = int (row_keys (layout_for l ! nat r))"
proof -
  have wf: "row_wf (layout_for l ! nat r)" using layout_wf assms by simp
  show len: "ListKeyboard_RowLength l r = int (row_keys (layout_for l ! nat r))"
    using assms row_wf_keys(3) [OF wf] by (simp add: ListKeyboard_RowLength_def count_row_length_def)
  show "ListKeyboard_KeyAt l r c \<noteq> [] \<longleftrightarrow> c < ListKeyboard_RowLength l r"
    using row_wf_keys(4) [OF wf, of "nat c"] assms unfolding len
    by (simp add: ListKeyboard_KeyAt_def zless_nat_conj nat_less_iff)
  show "0 < ListKeyboard_RowLength l r" "ListKeyboard_RowLength l r \<le> 14"
    unfolding len using row_wf_keys(1,2) [OF wf] by simp_all
qed

lemma cursor_ok_iff:
  "cursor_ok c \<longleftrightarrow> 0 \<le> row c \<and> row c < 5 \<and> 0 \<le> layout c \<and> layout c < 3 \<and> 0 \<le> col c \<and> col c < keys_in_row c"
  using key_at_iff [of "row c" "col c" "layout c"] key_at_iff(3) [of "row c" 0 "layout c"]
  by (auto simp: cursor_ok_def keys_in_row_def)

lemma clamp_col:
  fixes c N :: int
  assumes "1 \<le> N" "N \<le> 14"
  shows "(if min (int (nat ((if c > 14 - 1 then 14 - 1 else c) + 1))) N - 1 < 0 then 0
      else min (int (nat ((if c > 14 - 1 then 14 - 1 else c) + 1))) N - 1) = max 0 (min c (N - 1))"
  using assms by (simp add: min_def max_def)

text \<open>The rescue clamps the row, and the column to the keys of that row.\<close>

lemma rescue_eq:
  assumes "lay = layout_for (layout c)"
  shows "rescue c lay =
    (let r = max 0 (min 4 (row c)) in c\<lparr>row := r, col := max 0 (min (col c) (ListKeyboard_RowLength (layout c) r - 1))\<rparr>)"
proof -
  let ?r = "max 0 (min 4 (row c))"
  let ?cells = "lay ! nat ?r"
  have r: "(if row c < 0 then 0 else if row c > 5 - 1 then 5 - 1 else row c) = ?r" by simp
  have wf: "row_wf ?cells" unfolding assms by (rule layout_wf(2)) simp
  have n: "ListKeyboard_RowLength (layout c) ?r = int (row_keys ?cells)"
    unfolding assms by (rule key_at_iff(4) [of _ 0]) simp_all
  have k: "nat ((if col c > 14 - 1 then 14 - 1 else col c) + 1) \<le> 14" by (simp add: nat_le_iff)
  have "1 \<le> int (row_keys ?cells)" "int (row_keys ?cells) \<le> 14" using row_wf_keys(1,2) [OF wf] by simp_all
  then show ?thesis
    unfolding rescue_def r Let_def n left_to_key_wf [OF wf k] right_to_key_wf [OF wf] by (simp only: clamp_col)
qed

lemma rescue_ok:
  assumes "lay = layout_for (layout c)" "0 \<le> layout c" "layout c < 3"
  shows "cursor_ok (rescue c lay)"
proof -
  define r where "r = max 0 (min 4 (row c))"
  define n where "n = ListKeyboard_RowLength (layout c) r"
  have r: "0 \<le> r" "r < 5" unfolding r_def by auto
  have "0 < n" unfolding n_def using r by (intro key_at_iff(2) [of _ 0]) simp_all
  then have "0 \<le> max 0 (min (col c) (n - 1))" "max 0 (min (col c) (n - 1)) < n" by linarith+
  then show ?thesis
    using assms(2,3) r unfolding cursor_ok_iff keys_in_row_def rescue_eq [OF assms(1)] Let_def
      r_def [symmetric] n_def [symmetric] by (simp add: n_def [symmetric])
qed

lemma move_frame [simp]:
  "layout (move_up c lay) = layout c" "layout (move_down c lay) = layout c"
  by (simp_all add: move_up_def move_down_def Let_def)

lemma move_left_eq:
  "cursor_ok c \<Longrightarrow> ListKeyboard_Move c LIST_KEYBOARD_LEFT =
     c\<lparr>col := if col c > 0 then col c - 1 else keys_in_row c - 1\<rparr>"
  using left_to_key_wf [OF layout_wf(2), of "nat (row c)" 14 "layout c"]
    key_at_iff(3,4) [of "row c" 0 "layout c"]
  by (auto simp: ListKeyboard_Move_def move_left_def Let_def cursor_ok_iff keys_in_row_def)

lemma move_right_eq:
  assumes "cursor_ok c"
  shows "ListKeyboard_Move c LIST_KEYBOARD_RIGHT =
     c\<lparr>col := if col c + 1 < keys_in_row c then col c + 1 else 0\<rparr>"
proof -
  have c: "0 \<le> row c" "row c < 5" "0 \<le> col c" "col c < keys_in_row c"
    using assms by (auto simp: cursor_ok_iff)
  have "keys_in_row c \<le> 14" using key_at_iff(3) [of "row c" 0 "layout c"] c by (simp add: keys_in_row_def)
  moreover have "layout_for (layout c) ! nat (row c) ! nat (col c + 1) \<noteq> [] \<longleftrightarrow> col c + 1 < keys_in_row c"
    if "col c + 1 < 14"
    using key_at_iff(1) [of "row c" "col c + 1" "layout c"] c that
    by (simp add: keys_in_row_def ListKeyboard_KeyAt_def)
  ultimately show ?thesis using c
    by (cases "col c + 1 < 14") (auto simp: ListKeyboard_Move_def move_right_def Let_def)
qed

lemma move_ok: "cursor_ok c \<Longrightarrow> cursor_ok (ListKeyboard_Move c dir)"
proof (cases dir)
  case LIST_KEYBOARD_LEFT
  then show "cursor_ok c \<Longrightarrow> ?thesis" by (simp add: move_left_eq) (simp add: cursor_ok_iff keys_in_row_def)
next
  case LIST_KEYBOARD_RIGHT
  then show "cursor_ok c \<Longrightarrow> ?thesis" by (simp add: move_right_eq) (simp add: cursor_ok_iff keys_in_row_def)
qed (simp_all add: ListKeyboard_Move_def Let_def cursor_ok_iff [of c] rescue_ok)

lemma cycle_ok: "cursor_ok c \<Longrightarrow> cursor_ok (ListKeyboard_CycleLayout c)"
proof -
  assume "cursor_ok c"
  then have "0 \<le> (layout c + 1) smod 3" "(layout c + 1) smod 3 < 3"
    by (auto simp: cursor_ok_def signed_modulo_int_def)
  then show ?thesis by (auto simp: ListKeyboard_CycleLayout_def Let_def intro!: rescue_ok)
qed

section \<open>Every key can be reached\<close>

lemma move_down_row:
  "cursor_ok c \<Longrightarrow> row (ListKeyboard_Move c LIST_KEYBOARD_DOWN) = (row c + 1) mod 5
     \<and> layout (ListKeyboard_Move c LIST_KEYBOARD_DOWN) = layout c"
  unfolding ListKeyboard_Move_def Let_def
  by (cases "row c = 4"; simp add: rescue_eq; simp add: Let_def move_down_def cursor_ok_iff)

abbreviation (input) moves :: "KeyboardCursor \<Rightarrow> ListKeyboardDir list \<Rightarrow> KeyboardCursor" where
  "moves \<equiv> foldl ListKeyboard_Move"

lemma moves_ok: "cursor_ok c \<Longrightarrow> cursor_ok (moves c ds)"
  by (induction ds arbitrary: c) (simp_all add: move_ok)

lemma downs:
  "cursor_ok c \<Longrightarrow> row (moves c (replicate n LIST_KEYBOARD_DOWN)) = (row c + int n) mod 5
     \<and> layout (moves c (replicate n LIST_KEYBOARD_DOWN)) = layout c"
proof (induction n arbitrary: c)
  case 0
  then show ?case by (simp add: cursor_ok_iff)
next
  case (Suc n)
  from Suc.IH [OF move_ok [OF Suc.prems]] move_down_row [OF Suc.prems] show ?case
    by (simp add: mod_simps ac_simps)
qed

lemma rights:
  "cursor_ok c \<Longrightarrow> col c + int n < keys_in_row c \<Longrightarrow>
     moves c (replicate n LIST_KEYBOARD_RIGHT) = c\<lparr>col := col c + int n\<rparr>"
proof (induction n arbitrary: c)
  case (Suc n)
  let ?c = "c\<lparr>col := col c + 1\<rparr>"
  have s: "ListKeyboard_Move c LIST_KEYBOARD_RIGHT = ?c" using Suc.prems by (simp add: move_right_eq)
  have "cursor_ok ?c" using move_ok [OF Suc.prems(1), of LIST_KEYBOARD_RIGHT] s by simp
  moreover have "col ?c + int n < keys_in_row ?c" using Suc.prems by (simp add: keys_in_row_def)
  ultimately show ?case using Suc.IH s by (simp add: add.assoc)
qed simp

text \<open>To any column of the row: to the last key, around to the first, and right again.\<close>

lemma reach_column:
  assumes "cursor_ok c" "0 \<le> t" "t < keys_in_row c"
  shows "\<exists>ds. moves c ds = c\<lparr>col := t\<rparr>"
proof -
  let ?n = "nat (keys_in_row c - 1 - col c)"
  let ?c1 = "c\<lparr>col := keys_in_row c - 1\<rparr>" and ?c2 = "c\<lparr>col := 0\<rparr>"
  have c: "0 \<le> col c" "col c < keys_in_row c" using assms(1) by (auto simp: cursor_ok_iff)
  have 1: "moves c (replicate ?n LIST_KEYBOARD_RIGHT) = ?c1" using rights [OF assms(1), of ?n] c by simp
  have ok1: "cursor_ok ?c1" using moves_ok [OF assms(1), of "replicate ?n LIST_KEYBOARD_RIGHT"] 1 by simp
  have 2: "ListKeyboard_Move ?c1 LIST_KEYBOARD_RIGHT = ?c2"
    using move_right_eq [OF ok1] by (simp add: keys_in_row_def)
  have ok2: "cursor_ok ?c2" using move_ok [OF ok1, of LIST_KEYBOARD_RIGHT] 2 by simp
  have 3: "moves ?c2 (replicate (nat t) LIST_KEYBOARD_RIGHT) = c\<lparr>col := t\<rparr>"
    using rights [OF ok2, of "nat t"] assms(2,3) by (simp add: keys_in_row_def)
  have "moves c (replicate ?n LIST_KEYBOARD_RIGHT @ LIST_KEYBOARD_RIGHT # replicate (nat t) LIST_KEYBOARD_RIGHT)
      = c\<lparr>col := t\<rparr>"
    using 1 2 3 by simp
  then show ?thesis ..
qed

text \<open>
  From any key every key of the layout can be reached with the direction pad:
  whatever the cursor and whatever non-empty cell of its layout, some sequence of steps moves
  the cursor there.
\<close>

theorem keyboard_reaches_every_key:
  assumes "cursor_ok c" and "ListKeyboard_KeyAt (layout c) r t \<noteq> []"
  shows "\<exists>ds. foldl ListKeyboard_Move c ds = c\<lparr>row := r, col := t\<rparr>"
proof -
  have rt: "0 \<le> r" "r < 5" "0 \<le> t" "t < 14" using assms(2) by (auto simp: ListKeyboard_KeyAt_def split: if_splits)
  let ?n = "nat ((r - row c) mod 5)"
  let ?c1 = "moves c (replicate ?n LIST_KEYBOARD_DOWN)"
  have "row ?c1 = (row c + (r - row c) mod 5) mod 5" using downs [OF assms(1), of ?n] by simp
  then have r1: "row ?c1 = r" using rt by (simp add: mod_simps)
  have l1: "layout ?c1 = layout c" using downs [OF assms(1)] by blast
  have ok1: "cursor_ok ?c1" using moves_ok [OF assms(1)] by blast
  have "t < keys_in_row ?c1"
    using key_at_iff(1) [OF rt, of "layout c"] assms(2) unfolding keys_in_row_def r1 l1 by blast
  then obtain ds where "moves ?c1 ds = ?c1\<lparr>col := t\<rparr>" using reach_column [OF ok1 rt(3)] by blast
  moreover have "?c1\<lparr>col := t\<rparr> = c\<lparr>row := r, col := t\<rparr>" using r1 l1 by (cases ?c1, cases c) auto
  ultimately have "moves c (replicate ?n LIST_KEYBOARD_DOWN @ ds) = c\<lparr>row := r, col := t\<rparr>" by simp
  then show ?thesis ..
qed

theorem keyboard_reaches_every_key_witness:
  "\<exists>ds. foldl ListKeyboard_Move \<lparr>row = 0, col = 12, layout = 2\<rparr> ds = \<lparr>row = 4, col = 2, layout = 2\<rparr>"
proof -
  have "cursor_ok \<lparr>row = 0, col = 12, layout = 2\<rparr>" "ListKeyboard_KeyAt 2 4 2 \<noteq> []"
    by (simp_all add: cursor_ok_def ListKeyboard_KeyAt_def layout_for_def keyboard_layout_special_def
        numeral_nat nth_append)
  then show ?thesis
    using keyboard_reaches_every_key [of "\<lparr>row = 0, col = 12, layout = 2\<rparr>" 4 2] by simp
qed

section \<open>Runs\<close>

datatype kb_event = Kb_Move ListKeyboardDir | Kb_Cycle | Kb_Rescue

definition kb_step :: "KeyboardCursor \<Rightarrow> kb_event \<Rightarrow> KeyboardCursor" where
  "kb_step c e = (case e of Kb_Move d \<Rightarrow> ListKeyboard_Move c d | Kb_Cycle \<Rightarrow> ListKeyboard_CycleLayout c
     | Kb_Rescue \<Rightarrow> ListKeyboard_Rescue c)"

lemma kb_step_ok: "cursor_ok c \<Longrightarrow> cursor_ok (kb_step c e)"
  by (cases e) (simp_all add: kb_step_def move_ok cycle_ok ListKeyboard_Rescue_def rescue_ok cursor_ok_iff [of c])

interpretation kb: transition_system kb_step "ListKeyboard_Rescue \<lparr>row = 0, col = 0, layout = 0\<rparr>" cursor_ok
  by unfold_locales (simp_all add: ListKeyboard_Rescue_def rescue_ok kb_step_ok)

text \<open>
  C12 (invariant). After the keyboard is opened, whatever keys are pressed, the cursor is inside
  the grid of a layout and on a non-empty key; the search loops of the rescue therefore stay
  inside the tables.
\<close>

theorem keyboard_cursor_on_key:
  "cursor_ok (foldl kb_step (ListKeyboard_Rescue \<lparr>row = 0, col = 0, layout = 0\<rparr>) es)"
  by (rule kb.inv_run)

end
