(* ===== verification/Dev_Types.thy ===== *)
theory Dev_Types
  imports C_Strings
begin

text \<open>
  The records of \<^verbatim>\<open>zcrapegoat/src/src/device.h\<close> that the scans, the queue and the client share: a system
  folder and a ROM.
\<close>

record console_dir =
  cd_name :: string
  cd_tag :: string
  cd_path :: string
  cd_display :: string
  cd_disabled :: bool

record rom_file =
  rf_name :: string
  rf_path :: string
  rf_display :: string
  rf_label :: string
  rf_multi_disc :: bool
  rf_cue_folder :: bool
  rf_disabled :: bool

end
