(* ===== verification/Scrape_Queue.thy ===== *)
theory Scrape_Queue
  imports Dev_Types
begin

text \<open>
  The download queue of the scraper, \<^verbatim>\<open>zcrapegoat/src/queue.c\<close>: its items, the operations the
  user interface and the daemon call, and the helpers the worker threads use under the queue
  mutex. Each operation here is one critical section (or a sequence of them run by a single
  caller); the threads and their interleaving are in \<open>Scrape_Workers\<close>. What the file system,
  the catalogue of systems and \<^verbatim>\<open>pthread_create\<close> answer is an input.
\<close>

section \<open>Data\<close>

abbreviation (input) "QUEUE_MAX_ITEMS \<equiv> (2048 :: nat)"
abbreviation (input) "PATH_MAX \<equiv> (4096 :: nat)"

datatype queue_item_type = QUEUE_TYPE_ARTWORK | QUEUE_TYPE_CHEAT | QUEUE_TYPE_MANUAL

datatype queue_item_status =
  QUEUE_NONE | QUEUE_IDLE | QUEUE_SEARCHING | QUEUE_DOWNLOADING | QUEUE_CLONING | QUEUE_MATCHING
  | QUEUE_DONE | QUEUE_NOT_FOUND | QUEUE_ERROR | QUEUE_SKIPPED

record queue_item =
  q_id :: u32
  q_type :: queue_item_type
  q_rom_display :: string
  q_rom_path :: string
  q_system_tag :: string
  q_system_display :: string
  q_console_path :: string
  q_system_id :: int
  q_cheat_dir :: string
  q_status :: queue_item_status
  q_error_msg :: string
  q_force :: bool

record queue_stats =
  qs_total :: nat
  qs_done :: nat
  qs_failed :: nat
  qs_pending :: nat

text \<open>What \<^verbatim>\<open>systems_resolve\<close> answers: the hidden flag and, when a platform is selected, its
  ScreenScraper id and its libretro directory.\<close>

record sg_mapping =
  mp_hidden :: bool
  mp_platform :: "(int \<times> string option) option"

text \<open>The shared variables of \<^verbatim>\<open>queue.c\<close>; of the settings only the manuals directory matters
  here, \<open>None\<close> while they are not valid.\<close>

record queue_state =
  g_items :: "queue_item list"
  g_next_item_id :: u32
  g_dirty :: bool
  g_manager_started :: bool
  g_worker_running :: bool
  g_interrupt :: bool
  g_api_req_today :: int
  g_api_max_req :: int
  g_api_max_threads :: int
  g_manual_dir :: "string option"

section \<open>Helpers under the mutex\<close>

definition is_terminal_status :: "queue_item_status \<Rightarrow> bool" where
  "is_terminal_status st \<longleftrightarrow> st = QUEUE_DONE \<or> st = QUEUE_NOT_FOUND \<or> st = QUEUE_ERROR \<or> st = QUEUE_SKIPPED"

definition queue_has_non_terminal_locked :: "queue_state \<Rightarrow> bool" where
  "queue_has_non_terminal_locked q = list_ex (\<lambda>it. \<not> is_terminal_status (q_status it)) (g_items q)"

definition queue_has_idle_items_locked :: "queue_state \<Rightarrow> bool" where
  "queue_has_idle_items_locked q = list_ex (\<lambda>it. q_status it = QUEUE_IDLE) (g_items q)"

text \<open>The snapshot is the item before the claim.\<close>

definition claim_item :: "queue_state \<Rightarrow> nat \<Rightarrow> queue_item_type \<Rightarrow> queue_item_status \<Rightarrow> (queue_state \<times> queue_item) option" where
  "claim_item q index ty next_status =
     (if index \<ge> length (g_items q) then None
      else if q_type (g_items q ! index) \<noteq> ty \<or> q_status (g_items q ! index) \<noteq> QUEUE_IDLE then None
      else Some (q\<lparr>g_items := (g_items q)[index := (g_items q ! index)\<lparr>q_status := next_status\<rparr>],
                   g_dirty := True\<rparr>, g_items q ! index))"

definition set_item_status :: "queue_state \<Rightarrow> nat \<Rightarrow> queue_item_status \<Rightarrow> queue_state" where
  "set_item_status q index st =
     (if index < length (g_items q)
      then q\<lparr>g_items := (g_items q)[index := (g_items q ! index)\<lparr>q_status := st\<rparr>], g_dirty := True\<rparr>
      else q)"

definition set_item_error :: "queue_state \<Rightarrow> nat \<Rightarrow> queue_item_status \<Rightarrow> string \<Rightarrow> queue_state" where
  "set_item_error q index st msg =
     (if index < length (g_items q)
      then q\<lparr>g_items := (g_items q)[index := (g_items q ! index)\<lparr>q_status := st, q_error_msg := fit 256 msg\<rparr>],
             g_dirty := True\<rparr>
      else q)"

fun next_cheat :: "queue_item list \<Rightarrow> nat \<Rightarrow> nat option" where
  "next_cheat [] i = None"
| "next_cheat (it # its) i =
     (if q_type it = QUEUE_TYPE_CHEAT \<and> q_status it = QUEUE_IDLE then Some i else next_cheat its (Suc i))"

definition find_next_cheat_index :: "queue_state \<Rightarrow> nat option" where
  "find_next_cheat_index q = next_cheat (g_items q) 0"

definition manager_should_run :: "queue_state \<Rightarrow> bool" where
  "manager_should_run q = g_worker_running q"

text \<open>The rom the workers search for, built from a claimed item; \<^verbatim>\<open>stat\<close> of the path and of the
  two probe files is the input.\<close>

record rom_probe =
  pr_is_dir :: bool
  pr_m3u :: bool
  pr_cue :: bool

record built_rom =
  br_path :: string
  br_display :: string
  br_name :: string
  br_is_multi_disc :: bool
  br_is_cue_folder :: bool

definition base_name :: "string \<Rightarrow> string" where
  "base_name p = rev (takeWhile (\<lambda>c. c \<noteq> CHR ''/'') (rev p))"

definition build_rom_from_item :: "queue_item \<Rightarrow> rom_probe \<Rightarrow> built_rom" where
  "build_rom_from_item item pr =
     \<lparr>br_path = fit PATH_MAX (q_rom_path item), br_display = fit 256 (q_rom_display item),
      br_name = fit 256 (base_name (q_rom_path item)),
      br_is_multi_disc = (pr_is_dir pr \<and> pr_m3u pr),
      br_is_cue_folder = (pr_is_dir pr \<and> \<not> pr_m3u pr \<and> pr_cue pr)\<rparr>"

section \<open>The manager thread's start and stop\<close>

text \<open>The result of \<^verbatim>\<open>pthread_create\<close> is an input; the flag says whether a thread was started.\<close>

definition ensure_manager_started :: "queue_state \<Rightarrow> bool \<Rightarrow> queue_state \<times> bool" where
  "ensure_manager_started q create_ok =
     (if g_manager_started q then (q, False)
      else let q = q\<lparr>g_manager_started := True, g_worker_running := True, g_interrupt := False\<rparr>
           in if create_ok then (q, True)
              else (q\<lparr>g_manager_started := False, g_worker_running := False\<rparr>, False))"

text \<open>After the manager thread, if there is one, has been joined.\<close>

definition stop_manager_for_transition :: "queue_state \<Rightarrow> queue_state" where
  "stop_manager_for_transition q = q\<lparr>g_manager_started := False, g_worker_running := False, g_interrupt := False\<rparr>"

definition queue_init :: "queue_state \<Rightarrow> queue_state" where
  "queue_init q = q\<lparr>g_items := [], g_next_item_id := 1, g_dirty := False, g_manager_started := False,
     g_worker_running := False, g_manual_dir := None, g_interrupt := False\<rparr>"

definition queue_shutdown :: "queue_state \<Rightarrow> queue_state" where
  "queue_shutdown q =
     (let joined = g_manager_started q;
          q = q\<lparr>g_worker_running := False\<rparr>;
          q = (if joined then q\<lparr>g_interrupt := True, g_manager_started := False\<rparr> else q)
      in q\<lparr>g_manual_dir := None, g_items := [], g_dirty := False\<rparr>)"

definition queue_set_settings :: "queue_state \<Rightarrow> string \<Rightarrow> queue_state" where
  "queue_set_settings q manual_dir = q\<lparr>g_manual_dir := Some manual_dir\<rparr>"

definition get_manual_download_dir :: "queue_state \<Rightarrow> string" where
  "get_manual_download_dir q = (case g_manual_dir q of None \<Rightarrow> [] | Some d \<Rightarrow> fit PATH_MAX d)"

section \<open>Adding\<close>

definition queue_is_queued :: "queue_state \<Rightarrow> string \<Rightarrow> queue_item_type \<Rightarrow> bool" where
  "queue_is_queued q rom_path ty =
     list_ex (\<lambda>it. q_type it = ty \<and> q_rom_path it = rom_path \<and> \<not> is_terminal_status (q_status it)) (g_items q)"

definition new_item :: "u32 \<Rightarrow> queue_item_type \<Rightarrow> rom_file \<Rightarrow> console_dir \<Rightarrow> int \<Rightarrow> string \<Rightarrow> bool \<Rightarrow> queue_item" where
  "new_item id0 ty rom console system_id cheat_dir force =
     \<lparr>q_id = id0, q_type = ty, q_rom_display = fit 256 (rf_display rom), q_rom_path = fit PATH_MAX (rf_path rom),
      q_system_tag = fit 64 (cd_tag console), q_system_display = fit 256 (cd_display console),
      q_console_path = fit PATH_MAX (cd_path console), q_system_id = system_id,
      q_cheat_dir = fit 256 cheat_dir, q_status = QUEUE_IDLE, q_error_msg = [], q_force = force\<rparr>"

text \<open>The locked section the three kinds of item share: no unfinished duplicate, room in the
  array, the item appended with the next id (which skips 0). The path of a ROM is itself a
  buffer of \<^verbatim>\<open>PATH_MAX\<close> bytes.\<close>

definition queue_push :: "queue_state \<Rightarrow> queue_item_type \<Rightarrow> rom_file \<Rightarrow> console_dir \<Rightarrow> int \<Rightarrow> string \<Rightarrow> bool \<Rightarrow> queue_state option" where
  "queue_push q ty rom console system_id cheat_dir force =
     (if queue_is_queued q (fit PATH_MAX (rf_path rom)) ty then None
      else if length (g_items q) \<ge> QUEUE_MAX_ITEMS then None
      else let nxt = g_next_item_id q + 1
           in Some (q\<lparr>g_items := g_items q @ [new_item (g_next_item_id q) ty rom console system_id cheat_dir force],
                      g_next_item_id := (if nxt = 0 then 1 else nxt), g_dirty := True\<rparr>))"

definition queue_add_artwork_internal :: "queue_state \<Rightarrow> rom_file \<Rightarrow> console_dir \<Rightarrow> bool \<Rightarrow> sg_mapping \<Rightarrow> bool \<Rightarrow> queue_state option" where
  "queue_add_artwork_internal q rom console force mapping artwork_exists =
     (case mp_platform mapping of
        None \<Rightarrow> None
      | Some (ss_id, libretro_dir) \<Rightarrow>
          if mp_hidden mapping \<or> ss_id < 0 then None
          else if \<not> force \<and> artwork_exists then None
          else queue_push q QUEUE_TYPE_ARTWORK rom console ss_id [] force)"

definition queue_add_cheat_internal :: "queue_state \<Rightarrow> rom_file \<Rightarrow> console_dir \<Rightarrow> bool \<Rightarrow> sg_mapping \<Rightarrow> bool \<Rightarrow> queue_state option" where
  "queue_add_cheat_internal q rom console force mapping cheat_exists =
     (case mp_platform mapping of
        Some (ss_id, Some cheat_dir) \<Rightarrow>
          if mp_hidden mapping then None
          else if length cheat_dir \<ge> 256 then None
          else if \<not> force \<and> cheat_exists then None
          else queue_push q QUEUE_TYPE_CHEAT rom console ss_id cheat_dir force
      | _ \<Rightarrow> None)"

definition queue_add_manual_internal :: "queue_state \<Rightarrow> rom_file \<Rightarrow> console_dir \<Rightarrow> bool \<Rightarrow> sg_mapping \<Rightarrow> bool \<Rightarrow> queue_state option" where
  "queue_add_manual_internal q rom console force mapping manual_exists =
     (case mp_platform mapping of
        None \<Rightarrow> None
      | Some (ss_id, libretro_dir) \<Rightarrow>
          if mp_hidden mapping \<or> ss_id < 0 then None
          else if get_manual_download_dir q = [] then None
          else if \<not> force \<and> manual_exists then None
          else queue_push q QUEUE_TYPE_MANUAL rom console ss_id [] force)"

definition queue_add_internal :: "queue_item_type \<Rightarrow> queue_state \<Rightarrow> rom_file \<Rightarrow> console_dir \<Rightarrow> bool \<Rightarrow> sg_mapping \<Rightarrow> bool \<Rightarrow> queue_state option" where
  "queue_add_internal ty =
     (case ty of QUEUE_TYPE_ARTWORK \<Rightarrow> queue_add_artwork_internal
        | QUEUE_TYPE_CHEAT \<Rightarrow> queue_add_cheat_internal
        | QUEUE_TYPE_MANUAL \<Rightarrow> queue_add_manual_internal)"

text \<open>The loop over the ROMs of a folder, each with its answer on an existing asset; the count
  of added items is returned.\<close>

fun queue_add_all :: "queue_item_type \<Rightarrow> queue_state \<Rightarrow> (rom_file \<times> bool) list \<Rightarrow> console_dir \<Rightarrow> bool \<Rightarrow> sg_mapping \<Rightarrow> queue_state \<times> nat" where
  "queue_add_all ty q [] console force mapping = (q, 0)"
| "queue_add_all ty q ((rom, exists) # roms) console force mapping =
     (case queue_add_internal ty q rom console force mapping exists of
        None \<Rightarrow> queue_add_all ty q roms console force mapping
      | Some q1 \<Rightarrow> (let (q2, n) = queue_add_all ty q1 roms console force mapping in (q2, n + 1)))"

section \<open>Querying\<close>

definition queue_get_rom_status :: "queue_state \<Rightarrow> string \<Rightarrow> queue_item_type \<Rightarrow> queue_item_status" where
  "queue_get_rom_status q rom_path ty =
     (case find (\<lambda>it. q_type it = ty \<and> q_rom_path it = rom_path) (rev (g_items q)) of
        None \<Rightarrow> QUEUE_NONE | Some it \<Rightarrow> q_status it)"

definition count_stats :: "queue_stats \<Rightarrow> queue_item \<Rightarrow> queue_stats" where
  "count_stats s it =
     (if q_status it = QUEUE_DONE \<or> q_status it = QUEUE_SKIPPED then s\<lparr>qs_done := qs_done s + 1\<rparr>
      else if q_status it = QUEUE_NOT_FOUND \<or> q_status it = QUEUE_ERROR then s\<lparr>qs_failed := qs_failed s + 1\<rparr>
      else s\<lparr>qs_pending := qs_pending s + 1\<rparr>)"

definition queue_get_stats :: "queue_state \<Rightarrow> queue_stats" where
  "queue_get_stats q =
     foldl count_stats \<lparr>qs_total = length (g_items q), qs_done = 0, qs_failed = 0, qs_pending = 0\<rparr> (g_items q)"

definition queue_get_api_stats :: "queue_state \<Rightarrow> int \<times> int \<times> int" where
  "queue_get_api_stats q = (g_api_req_today q, g_api_max_req q, g_api_max_threads q)"

definition queue_is_active :: "queue_state \<Rightarrow> bool" where
  "queue_is_active q = queue_has_non_terminal_locked q"

definition queue_check_dirty :: "queue_state \<Rightarrow> bool \<times> queue_state" where
  "queue_check_dirty q = (g_dirty q, q\<lparr>g_dirty := False\<rparr>)"

definition queue_has_unfinished_work :: "queue_state \<Rightarrow> bool" where
  "queue_has_unfinished_work q \<longleftrightarrow> queue_has_non_terminal_locked q \<or> queue_has_idle_items_locked q"

section \<open>Managing\<close>

definition queue_clear_done :: "queue_state \<Rightarrow> queue_state" where
  "queue_clear_done q =
     (if queue_has_non_terminal_locked q then q
      else let kept = filter (\<lambda>it. \<not> is_terminal_status (q_status it)) (g_items q);
               q = (if length kept \<noteq> length (g_items q) then q\<lparr>g_dirty := True\<rparr> else q)
           in q\<lparr>g_items := kept\<rparr>)"

definition cancel_item :: "queue_item \<Rightarrow> queue_item" where
  "cancel_item it =
     (if \<not> is_terminal_status (q_status it) then it\<lparr>q_status := QUEUE_SKIPPED, q_error_msg := ''Cancelled''\<rparr> else it)"

definition queue_cancel_all :: "queue_state \<Rightarrow> queue_state" where
  "queue_cancel_all q =
     (let q = stop_manager_for_transition q
      in q\<lparr>g_items := map cancel_item (g_items q), g_dirty := True,
           g_manager_started := False, g_worker_running := False\<rparr>)"

definition queue_snapshot :: "queue_state \<Rightarrow> nat \<Rightarrow> queue_item list" where
  "queue_snapshot q max_items = take max_items (g_items q)"

definition reset_item :: "queue_item \<Rightarrow> queue_item" where
  "reset_item it =
     (if \<not> is_terminal_status (q_status it) then it\<lparr>q_status := QUEUE_IDLE, q_error_msg := []\<rparr> else it)"

definition queue_handoff_snapshot :: "queue_state \<Rightarrow> nat \<Rightarrow> queue_state \<times> queue_item list" where
  "queue_handoff_snapshot q max_items =
     (let q = stop_manager_for_transition q;
          changed = queue_has_non_terminal_locked q;
          q = q\<lparr>g_items := map reset_item (g_items q), g_dirty := (g_dirty q \<or> changed)\<rparr>
      in (q, take max_items (g_items q)))"

text \<open>\<^verbatim>\<open>systems_valid_provider_dir\<close> and the resolved mapping of the item's folder are inputs.\<close>

definition restore_cheat_target_locked :: "queue_item \<Rightarrow> bool \<Rightarrow> sg_mapping \<Rightarrow> queue_item" where
  "restore_cheat_target_locked item valid_dir mapping =
     (if q_type item \<noteq> QUEUE_TYPE_CHEAT \<or> is_terminal_status (q_status item) then item
      else if q_cheat_dir item \<noteq> []
      then (if \<not> valid_dir
            then item\<lparr>q_status := QUEUE_ERROR, q_error_msg := ''Saved cheat database name is invalid''\<rparr> else item)
      else case mp_platform mapping of
             Some (ss_id, Some dir) \<Rightarrow>
               if mp_hidden mapping \<or> length dir \<ge> 256
               then item\<lparr>q_status := QUEUE_ERROR,
                     q_error_msg := fit 256 (''No cheat database selected for '' @ [CHR 0x27] @ q_system_tag item @ [CHR 0x27])\<rparr>
               else item\<lparr>q_cheat_dir := fit 256 dir\<rparr>
           | _ \<Rightarrow> item\<lparr>q_status := QUEUE_ERROR,
                     q_error_msg := fit 256 (''No cheat database selected for '' @ [CHR 0x27] @ q_system_tag item @ [CHR 0x27])\<rparr>)"

text \<open>The loop keeps the next id above every loaded one.\<close>

definition bump_id :: "u32 \<Rightarrow> queue_item \<Rightarrow> u32" where
  "bump_id nxt it = (if q_id it \<ge> nxt then q_id it + 1 else nxt)"

definition queue_load_items :: "queue_state \<Rightarrow> queue_item list \<Rightarrow> (queue_item \<Rightarrow> bool) \<Rightarrow> (queue_item \<Rightarrow> sg_mapping) \<Rightarrow> queue_state \<times> bool" where
  "queue_load_items q items valid resolve =
     (let items = take QUEUE_MAX_ITEMS items;
          has_pending = list_ex (\<lambda>it. \<not> is_terminal_status (q_status it)) items;
          loaded = map (\<lambda>it. restore_cheat_target_locked (reset_item it) (valid it) (resolve it)) items
      in (q\<lparr>g_items := loaded, g_next_item_id := foldl bump_id (g_next_item_id q) loaded, g_dirty := True\<rparr>,
          has_pending))"

text \<open>A mapping edit is refused while work remains; joining the manager cannot create work.\<close>

definition queue_begin_mapping_edit :: "queue_state \<Rightarrow> bool \<times> queue_state" where
  "queue_begin_mapping_edit q =
     (if queue_has_unfinished_work q then (False, q)
      else let q = stop_manager_for_transition q
           in if queue_has_unfinished_work q then (False, q) else (True, q))"

definition queue_invalidate_cheat_repo_state :: "queue_state \<Rightarrow> bool" where
  "queue_invalidate_cheat_repo_state q \<longleftrightarrow> \<not> queue_has_non_terminal_locked q"

end
