(* ===== verification/Scrape_Workers.thy ===== *)
theory Scrape_Workers
  imports Scrape_Queue
begin

text \<open>
  The threads of \<^verbatim>\<open>zcrapegoat/src/queue.c\<close>: the media workers (artwork and manuals), the cheat
  thread, the manager thread and the caller, interleaved at the granularity of their critical
  sections and atomic accesses. A thread is its program point with its local variables; one
  event advances one thread by one such access. What the network, the file system and
  \<^verbatim>\<open>pthread_create\<close> answer comes with the event.
\<close>

section \<open>Program points\<close>

text \<open>
  The program points shared by the workers: the loop head (interrupt flag, then running flag,
  then the next index), a claim about to be tried, and the points at which an item is held,
  with the snapshot taken by the claim.
\<close>

datatype phase =
    P_Top
  | P_Run
  | P_Fetch
  | P_Claim nat queue_item_status
  | P_Search nat queue_item
  | P_SetDownloading nat queue_item
  | P_Download nat queue_item
  | P_Check nat queue_item
  | P_List nat queue_item
  | P_SetMatching nat queue_item
  | P_Match nat queue_item
  | P_Final nat queue_item queue_item_status "string option"
  | P_Exit

datatype kind = K_Worker queue_item_type | K_First queue_item_type | K_Cheat

text \<open>The answers of the outside world to one step.\<close>

record ext =
  x_search :: int
  x_api :: "int \<times> int \<times> int"
  x_err :: "string option"
  x_download :: int
  x_exists :: bool
  x_repo_init :: bool
  x_init_ok :: bool
  x_update_busy :: bool
  x_checkout_ok :: bool
  x_build :: "string list option"
  x_regions_ok :: bool
  x_match :: "string option"
  x_copy_ok :: bool
  x_create_ok :: bool
  x_types_ok :: bool
  x_started :: nat

text \<open>The cheat lists already built, by libretro directory, and whether the repository is ready.\<close>

record cheat_state =
  ch_cache :: "(string \<times> string list) list"
  ch_ready :: bool

abbreviation (input) "MAX_CHEAT_CACHE \<equiv> (64 :: nat)"

definition clear_cheat_repo_state :: "cheat_state \<Rightarrow> cheat_state" where
  "clear_cheat_repo_state c = c\<lparr>ch_cache := [], ch_ready := False\<rparr>"

definition ensure_cheat_list :: "cheat_state \<Rightarrow> string \<Rightarrow> ext \<Rightarrow> cheat_state \<times> string list option" where
  "ensure_cheat_list c cheat_dir x =
     (if cheat_dir = [] then (c, None)
      else case map_of (ch_cache c) cheat_dir of
        Some l \<Rightarrow> (c, Some l)
      | None \<Rightarrow>
          let failed = (\<not> ch_ready c \<and> (if \<not> x_repo_init x then \<not> x_init_ok x else x_update_busy x))
          in if failed then (c, None)
             else let c = c\<lparr>ch_ready := True\<rparr>
             in if \<not> x_checkout_ok x then (c, None)
                else if length (ch_cache c) \<ge> MAX_CHEAT_CACHE then (c, None)
                else case x_build x of
                  None \<Rightarrow> (c, None)
                | Some l \<Rightarrow> (c\<lparr>ch_cache := ch_cache c @ [(fit 256 cheat_dir, l)]\<rparr>, Some l))"

text \<open>The manager's program points; \<open>man\<close> remembers whether manuals were waiting.\<close>

datatype mphase =
    M_Top
  | M_Interrupt
  | M_HasIdle
  | M_Kinds
  | M_StartCheat bool bool bool
  | M_Art bool bool
  | M_Man bool
  | M_Collect queue_item_type bool
  | M_Fail queue_item_type "nat list" bool
  | M_First queue_item_type phase bool
  | M_Workers queue_item_type bool
  | M_Join queue_item_type bool
  | M_JoinCheat
  | M_Stop

text \<open>A batch: the indices collected for it, the shared counter, and the number of threads the
  first answer allows.\<close>

record batch =
  b_indices :: "nat list"
  b_next :: nat
  b_max_threads :: int

record qsys =
  q :: queue_state
  cheats :: cheat_state
  work :: batch
  mgr :: "mphase option"
  threads :: "(kind \<times> phase) list"

section \<open>The workers\<close>

definition store_api :: "queue_state \<Rightarrow> int \<times> int \<times> int \<Rightarrow> queue_state" where
  "store_api s api =
     (let (today, max_req, max_thr) = api;
          s = s\<lparr>g_api_req_today := today, g_api_max_req := max_req\<rparr>
      in if max_thr > 0 then s\<lparr>g_api_max_threads := max_thr\<rparr> else s)"

definition err_text :: "string option \<Rightarrow> string \<Rightarrow> string" where
  "err_text err dflt = (case err of None \<Rightarrow> dflt | Some e \<Rightarrow> e)"

text \<open>The point a search leads to; a worker leaves its loop when interrupted (\<open>-2\<close>).\<close>

definition after_search :: "nat \<Rightarrow> queue_item \<Rightarrow> ext \<Rightarrow> phase" where
  "after_search i item x =
     (if x_search x = -2 then P_Exit
      else if x_search x = 1 then P_Final i item QUEUE_NOT_FOUND None
      else if x_search x \<noteq> 0 then P_Final i item QUEUE_ERROR (Some (err_text (x_err x) ''Search failed''))
      else P_SetDownloading i item)"

definition kind_type :: "kind \<Rightarrow> queue_item_type" where
  "kind_type k = (case k of K_Worker ty \<Rightarrow> ty | K_First ty \<Rightarrow> ty | K_Cheat \<Rightarrow> QUEUE_TYPE_CHEAT)"

text \<open>After a download: the workers leave an interrupted item as it is, the inline processing of
  the first item of a batch does not tell an interruption from a failure.\<close>

definition after_download :: "kind \<Rightarrow> nat \<Rightarrow> queue_item \<Rightarrow> ext \<Rightarrow> phase" where
  "after_download k i item x =
     (if x_download x = -2 \<and> k \<noteq> K_First (kind_type k) then P_Exit
      else if x_download x = 0 then P_Final i item QUEUE_DONE None
      else P_Final i item QUEUE_ERROR (Some (err_text (x_err x) ''Download failed'')))"

text \<open>Where a thread goes when it is done with an item.\<close>

definition loop_head :: "kind \<Rightarrow> phase" where
  "loop_head k = (case k of K_First ty \<Rightarrow> P_Exit | _ \<Rightarrow> P_Top)"

text \<open>One access of a thread: the queue, the cheat state and the batch counter it sees, and its
  next point.\<close>

fun thread_step :: "kind \<Rightarrow> ext \<Rightarrow> queue_state \<Rightarrow> cheat_state \<Rightarrow> batch \<Rightarrow> phase
    \<Rightarrow> queue_state \<times> cheat_state \<times> batch \<times> phase" where
  "thread_step k x s c b P_Top =
     (s, c, b, if g_interrupt s then P_Exit else if k = K_Cheat then P_Fetch else P_Run)"
| "thread_step k x s c b P_Run = (s, c, b, if manager_should_run s then P_Fetch else P_Exit)"
| "thread_step k x s c b P_Fetch =
     (if k = K_Cheat
      then (case find_next_cheat_index s of
              None \<Rightarrow> (s, c, b, P_Exit)
            | Some i \<Rightarrow> (s, c, b, P_Claim i (if ch_ready c then QUEUE_MATCHING else QUEUE_CLONING)))
      else let n = b_next b; b = b\<lparr>b_next := n + 1\<rparr>
           in if n \<ge> length (b_indices b) then (s, c, b, P_Exit)
              else (s, c, b, P_Claim (b_indices b ! n) QUEUE_SEARCHING))"
| "thread_step k x s c b (P_Claim i st) =
     (case claim_item s i (kind_type k) st of
        None \<Rightarrow> (s, c, b, loop_head k)
      | Some (s1, item) \<Rightarrow> (s1, c, b, if k = K_Cheat then P_Check i item else P_Search i item))"
| "thread_step k x s c b (P_Search i item) =
     (if x_search x \<ge> 0
      then (store_api s (x_api x), c,
            (if x_search x = 0 \<and> snd (snd (x_api x)) > 1 \<and> k = K_First (kind_type k)
             then b\<lparr>b_max_threads := snd (snd (x_api x))\<rparr> else b),
            after_search i item x)
      else (s, c, b, after_search i item x))"
| "thread_step k x s c b (P_SetDownloading i item) =
     (set_item_status s i QUEUE_DOWNLOADING, c, b, P_Download i item)"
| "thread_step k x s c b (P_Download i item) = (s, c, b, after_download k i item x)"
| "thread_step k x s c b (P_Check i item) =
     (s, c, b,
      if q_cheat_dir item = []
      then P_Final i item QUEUE_ERROR
             (Some (''No cheat database selected for '' @ [CHR 0x27] @ q_system_tag item @ [CHR 0x27]))
      else if \<not> q_force item \<and> x_exists x then P_Final i item QUEUE_SKIPPED None
      else P_List i item)"
| "thread_step k x s c b (P_List i item) =
     (let (c1, l) = ensure_cheat_list c (q_cheat_dir item) x
      in (s, c1, b,
          if g_interrupt s then P_Top
          else if l = None
          then P_Final i item QUEUE_ERROR
                 (Some (''Failed to build cheat list for '' @ [CHR 0x27] @ q_system_tag item @ [CHR 0x27]))
          else P_SetMatching i item))"
| "thread_step k x s c b (P_SetMatching i item) =
     (set_item_status s i QUEUE_MATCHING, c, b, P_Match i item)"
| "thread_step k x s c b (P_Match i item) =
     (s, c, b,
      if \<not> x_regions_ok x then P_Final i item QUEUE_ERROR (Some ''Failed to build region priority list'')
      else if x_match x = None then P_Final i item QUEUE_NOT_FOUND None
      else if x_copy_ok x then P_Final i item QUEUE_DONE None
      else P_Final i item QUEUE_ERROR (Some ''Failed to copy cheat file''))"
| "thread_step k x s c b (P_Final i item st msg) =
     ((case msg of None \<Rightarrow> set_item_status s i st | Some m \<Rightarrow> set_item_error s i st m), c, b, loop_head k)"
| "thread_step k x s c b P_Exit = (s, c, b, P_Exit)"

section \<open>The manager\<close>

definition idle_indices :: "queue_state \<Rightarrow> queue_item_type \<Rightarrow> nat list" where
  "idle_indices s ty =
     filter (\<lambda>i. q_type (g_items s ! i) = ty \<and> q_status (g_items s ! i) = QUEUE_IDLE) [0..<length (g_items s)]"

definition has_idle_of :: "queue_state \<Rightarrow> queue_item_type \<Rightarrow> bool" where
  "has_idle_of s ty = list_ex (\<lambda>it. q_status it = QUEUE_IDLE \<and> q_type it = ty) (g_items s)"

definition after_batch :: "queue_item_type \<Rightarrow> bool \<Rightarrow> mphase" where
  "after_batch ty man = (if ty = QUEUE_TYPE_ARTWORK then M_Man man else M_JoinCheat)"

definition settings_error :: "queue_item_type \<Rightarrow> string" where
  "settings_error ty =
     (if ty = QUEUE_TYPE_ARTWORK then ''Failed to build artwork/region settings'' else ''Failed to build region settings'')"

definition worker_count :: "batch \<Rightarrow> nat" where
  "worker_count b =
     (let n = b_max_threads b;
          n = (if n > int (length (b_indices b)) - 1 then int (length (b_indices b)) - 1 else n);
          n = (if n < 1 then 1 else n)
      in nat n)"

text \<open>A thread that has exited stays in the list; joining waits for the exit of all threads of a
  group.\<close>

definition all_exited :: "(kind \<Rightarrow> bool) \<Rightarrow> (kind \<times> phase) list \<Rightarrow> bool" where
  "all_exited grp ts = list_all (\<lambda>(k, p). grp k \<longrightarrow> p = P_Exit) ts"

fun mgr_step :: "ext \<Rightarrow> qsys \<Rightarrow> mphase \<Rightarrow> qsys" where
  "mgr_step x s M_Top = s\<lparr>mgr := Some (if manager_should_run (q s) then M_Interrupt else M_Stop)\<rparr>"
| "mgr_step x s M_Interrupt = s\<lparr>mgr := Some (if g_interrupt (q s) then M_Stop else M_HasIdle)\<rparr>"
| "mgr_step x s M_HasIdle = s\<lparr>mgr := Some (if queue_has_idle_items_locked (q s) then M_Kinds else M_Top)\<rparr>"
| "mgr_step x s M_Kinds = s\<lparr>mgr := Some (M_StartCheat (has_idle_of (q s) QUEUE_TYPE_ARTWORK)
     (has_idle_of (q s) QUEUE_TYPE_CHEAT) (has_idle_of (q s) QUEUE_TYPE_MANUAL))\<rparr>"
| "mgr_step x s (M_StartCheat art cheat man) =
     s\<lparr>mgr := Some (M_Art art man),
       threads := (if cheat \<and> \<not> g_interrupt (q s) \<and> x_create_ok x then threads s @ [(K_Cheat, P_Top)] else threads s)\<rparr>"
| "mgr_step x s (M_Art art man) =
     s\<lparr>mgr := Some (if art \<and> \<not> g_interrupt (q s) then M_Collect QUEUE_TYPE_ARTWORK man else M_Man man)\<rparr>"
| "mgr_step x s (M_Man man) =
     s\<lparr>mgr := Some (if man \<and> \<not> g_interrupt (q s) then M_Collect QUEUE_TYPE_MANUAL man else M_JoinCheat)\<rparr>"
| "mgr_step x s (M_Collect ty man) =
     (let ixs = idle_indices (q s) ty
      in if ixs = [] then s\<lparr>mgr := Some (after_batch ty man)\<rparr>
         else if \<not> x_types_ok x then s\<lparr>mgr := Some (M_Fail ty ixs man)\<rparr>
         else s\<lparr>mgr := Some (M_First ty (P_Claim (hd ixs) QUEUE_SEARCHING) man),
                work := \<lparr>b_indices = ixs, b_next = 0, b_max_threads = 1\<rparr>\<rparr>)"
| "mgr_step x s (M_Fail ty [] man) = s\<lparr>mgr := Some (after_batch ty man)\<rparr>"
| "mgr_step x s (M_Fail ty (i # ixs) man) =
     s\<lparr>q := set_item_error (q s) i QUEUE_ERROR (settings_error ty), mgr := Some (M_Fail ty ixs man)\<rparr>"
| "mgr_step x s (M_First ty p man) =
     (if p = P_Exit then s\<lparr>mgr := Some (M_Workers ty man), work := (work s)\<lparr>b_next := 1\<rparr>\<rparr>
      else let (s1, c1, b1, p1) = thread_step (K_First ty) x (q s) (cheats s) (work s) p
           in s\<lparr>q := s1, cheats := c1, work := b1, mgr := Some (M_First ty p1 man)\<rparr>)"
| "mgr_step x s (M_Workers ty man) =
     (if length (b_indices (work s)) > 1 \<and> \<not> g_interrupt (q s)
      then s\<lparr>mgr := Some (M_Join ty man),
             threads := threads s @ replicate (min (x_started x) (worker_count (work s))) (K_Worker ty, P_Top)\<rparr>
      else s\<lparr>mgr := Some (after_batch ty man)\<rparr>)"
| "mgr_step x s (M_Join ty man) =
     (if all_exited (\<lambda>k. k \<noteq> K_Cheat) (threads s) then s\<lparr>mgr := Some (after_batch ty man)\<rparr> else s)"
| "mgr_step x s M_JoinCheat =
     (if all_exited (\<lambda>k. k = K_Cheat) (threads s) then s\<lparr>mgr := Some M_Top\<rparr> else s)"
| "mgr_step x s M_Stop = s\<lparr>q := (q s)\<lparr>g_worker_running := False\<rparr>, mgr := None\<rparr>"

section \<open>The caller\<close>

text \<open>The calls of the interface or the daemon. Those that join the manager are enabled once it
  has exited; loading is done before any manager runs.\<close>

datatype ui_op =
    U_Add queue_item_type rom_file console_dir bool sg_mapping bool
  | U_Ensure bool
  | U_Interrupt
  | U_Cancel
  | U_Handoff
  | U_Clear
  | U_Load "queue_item list" "queue_item \<Rightarrow> bool" "queue_item \<Rightarrow> sg_mapping"
  | U_Dirty
  | U_Settings string
  | U_MappingEdit

fun ui_step :: "ui_op \<Rightarrow> qsys \<Rightarrow> qsys" where
  "ui_step (U_Add ty rom con force m ex) s =
     (case queue_add_internal ty (q s) rom con force m ex of None \<Rightarrow> s | Some q1 \<Rightarrow> s\<lparr>q := q1\<rparr>)"
| "ui_step (U_Ensure ok) s =
     (let (q1, started) = ensure_manager_started (q s) ok
      in if started then s\<lparr>q := q1, mgr := Some M_Top\<rparr> else s\<lparr>q := q1\<rparr>)"
| "ui_step U_Interrupt s = s\<lparr>q := (q s)\<lparr>g_interrupt := True\<rparr>\<rparr>"
| "ui_step U_Cancel s = (if mgr s = None then s\<lparr>q := queue_cancel_all (q s)\<rparr> else s)"
| "ui_step U_Handoff s = (if mgr s = None then s\<lparr>q := fst (queue_handoff_snapshot (q s) QUEUE_MAX_ITEMS)\<rparr> else s)"
| "ui_step U_Clear s = s\<lparr>q := queue_clear_done (q s)\<rparr>"
| "ui_step (U_Load items valid resolve) s =
     (if mgr s = None then s\<lparr>q := fst (queue_load_items (q s) items valid resolve)\<rparr> else s)"
| "ui_step U_Dirty s = s\<lparr>q := snd (queue_check_dirty (q s))\<rparr>"
| "ui_step (U_Settings dir) s = s\<lparr>q := queue_set_settings (q s) dir\<rparr>"
| "ui_step U_MappingEdit s =
     (if queue_has_unfinished_work (q s) \<or> mgr s \<noteq> None then s
      else s\<lparr>q := stop_manager_for_transition (q s), cheats := clear_cheat_repo_state (cheats s)\<rparr>)"

section \<open>The system\<close>

datatype q_event = Ev_Thread nat ext | Ev_Manager ext | Ev_Ui ui_op

definition thread_run :: "nat \<Rightarrow> ext \<Rightarrow> qsys \<Rightarrow> qsys" where
  "thread_run n x s =
     (if n < length (threads s)
      then let (k, p) = threads s ! n; (s1, c1, b1, p1) = thread_step k x (q s) (cheats s) (work s) p
           in s\<lparr>q := s1, cheats := c1, work := b1, threads := (threads s)[n := (k, p1)]\<rparr>
      else s)"

definition q_step :: "qsys \<Rightarrow> q_event \<Rightarrow> qsys" where
  "q_step s e =
     (case e of
        Ev_Thread n x \<Rightarrow> thread_run n x s
      | Ev_Manager x \<Rightarrow> (case mgr s of None \<Rightarrow> s | Some m \<Rightarrow> mgr_step x s m)
      | Ev_Ui u \<Rightarrow> ui_step u s)"

definition queue_zero :: queue_state where
  "queue_zero = \<lparr>g_items = [], g_next_item_id = 1, g_dirty = False, g_manager_started = False,
     g_worker_running = False, g_interrupt = False, g_api_req_today = 0, g_api_max_req = 0,
     g_api_max_threads = 0, g_manual_dir = None\<rparr>"

definition q_start :: qsys where
  "q_start = \<lparr>q = queue_init queue_zero, cheats = \<lparr>ch_cache = [], ch_ready = False\<rparr>,
     work = \<lparr>b_indices = [], b_next = 0, b_max_threads = 1\<rparr>, mgr = None, threads = []\<rparr>"

end
