(* ===== verification/Scrape_Inv.thy ===== *)
theory Scrape_Inv
  imports Scrape_Workers
begin

text \<open>
  The invariant of the scraper's threads: an item that a thread holds is claimed by that
  thread alone, and stays the item it claimed, under every interleaving of workers, cheat
  thread, manager and caller.
\<close>

section \<open>Claims\<close>

definition active :: "queue_item \<Rightarrow> bool" where
  "active it \<longleftrightarrow> \<not> is_terminal_status (q_status it) \<and> q_status it \<noteq> QUEUE_IDLE"

text \<open>The same job: all fields but the status and the message.\<close>

definition same_job :: "queue_item \<Rightarrow> queue_item \<Rightarrow> bool" where
  "same_job a b \<longleftrightarrow> a\<lparr>q_status := q_status b, q_error_msg := q_error_msg b\<rparr> = b"

fun held :: "phase \<Rightarrow> (nat \<times> queue_item) option" where
  "held (P_Search i it) = Some (i, it)"
| "held (P_SetDownloading i it) = Some (i, it)"
| "held (P_Download i it) = Some (i, it)"
| "held (P_Check i it) = Some (i, it)"
| "held (P_List i it) = Some (i, it)"
| "held (P_SetMatching i it) = Some (i, it)"
| "held (P_Match i it) = Some (i, it)"
| "held (P_Final i it st msg) = Some (i, it)"
| "held _ = None"

text \<open>A claim is about to set an active status, a final status is terminal.\<close>

fun phase_ok :: "phase \<Rightarrow> bool" where
  "phase_ok (P_Claim i st) \<longleftrightarrow> \<not> is_terminal_status st \<and> st \<noteq> QUEUE_IDLE"
| "phase_ok (P_Final i it st msg) \<longleftrightarrow> is_terminal_status st"
| "phase_ok _ \<longleftrightarrow> True"

text \<open>What thread \<open>n\<close> holds, and the claims of all threads: each held item is in the queue, active,
  still the claimed job, of the thread's kind, and held by no other thread.\<close>

definition holds :: "(kind \<times> phase) list \<Rightarrow> nat \<Rightarrow> (nat \<times> queue_item) option" where
  "holds ts n = (if n < length ts then held (snd (ts ! n)) else None)"

definition claim_ok :: "queue_item list \<Rightarrow> kind \<Rightarrow> nat \<Rightarrow> queue_item \<Rightarrow> bool" where
  "claim_ok items k i it \<longleftrightarrow>
     i < length items \<and> active (items ! i) \<and> same_job (items ! i) it \<and> q_type it = kind_type k"

definition claims_ok :: "queue_item list \<Rightarrow> (kind \<times> phase) list \<Rightarrow> bool" where
  "claims_ok items ts \<longleftrightarrow>
     (\<forall>n i it. holds ts n = Some (i, it) \<longrightarrow> claim_ok items (fst (ts ! n)) i it)
   \<and> (\<forall>n m i a b. holds ts n = Some (i, a) \<and> holds ts m = Some (i, b) \<longrightarrow> n = m)"

lemma claims_okI:
  assumes "\<And>n i it. holds ts n = Some (i, it) \<Longrightarrow> claim_ok items (fst (ts ! n)) i it"
    and "\<And>n m i a b. holds ts n = Some (i, a) \<Longrightarrow> holds ts m = Some (i, b) \<Longrightarrow> n = m"
  shows "claims_ok items ts"
  using assms unfolding claims_ok_def by blast

lemma claims_okD:
  assumes "claims_ok items ts"
  shows "holds ts n = Some (i, it) \<Longrightarrow> claim_ok items (fst (ts ! n)) i it"
    and "holds ts n = Some (i, a) \<Longrightarrow> holds ts m = Some (i, b) \<Longrightarrow> n = m"
  using assms unfolding claims_ok_def by blast+

lemma holds_update:
  "n < length ts \<Longrightarrow> holds (ts[n := t]) m = (if m = n then held (snd t) else holds ts m)"
  by (auto simp: holds_def)

lemma kind_update: "n < length ts \<Longrightarrow> fst t = fst (ts ! n) \<Longrightarrow> fst (ts[n := t] ! m) = fst (ts ! m)"
  by (cases "m = n") auto

lemma same_job_refl [simp]: "same_job a a"
  by (simp add: same_job_def)

lemma same_job_update [simp]:
  "same_job (a\<lparr>q_status := st\<rparr>) b \<longleftrightarrow> same_job a b"
  "same_job (a\<lparr>q_status := st, q_error_msg := m\<rparr>) b \<longleftrightarrow> same_job a b"
  by (simp_all add: same_job_def)

lemma same_job_fields: "same_job a b \<Longrightarrow> q_type a = q_type b \<and> q_rom_path a = q_rom_path b \<and> q_id a = q_id b"
  unfolding same_job_def by (cases a; cases b) auto

lemma active_update [simp]:
  "active (a\<lparr>q_status := st\<rparr>) \<longleftrightarrow> \<not> is_terminal_status st \<and> st \<noteq> QUEUE_IDLE"
  "active (a\<lparr>q_status := st, q_error_msg := m\<rparr>) \<longleftrightarrow> \<not> is_terminal_status st \<and> st \<noteq> QUEUE_IDLE"
  by (simp_all add: active_def)

text \<open>The ways a step of thread \<open>n\<close> can change the claims: it keeps or drops what it holds, it
  changes the item it holds, or it claims an item that no thread can hold.\<close>

lemma claims_local:
  assumes c: "claims_ok items ts" and n: "n < length ts" "fst t = fst (ts ! n)"
    and h: "held (snd t) = holds ts n \<or> held (snd t) = None"
  shows "claims_ok items (ts[n := t])"
proof -
  have sub: "holds ts m = Some x" if "holds (ts[n := t]) m = Some x" for m x
    using that h by (auto simp: holds_update [OF n(1)] split: if_splits)
  show ?thesis
    by (rule claims_okI) (auto simp: kind_update [OF n] dest!: sub intro: claims_okD [OF c])
qed

lemma claim_ok_other:
  "claim_ok items k j it \<Longrightarrow> j \<noteq> i \<Longrightarrow> claim_ok (items[i := new]) k j it"
  by (simp add: claim_ok_def)

lemma claims_set:
  assumes c: "claims_ok items ts" and n: "n < length ts" "fst t = fst (ts ! n)"
    and h: "holds ts n = Some (i, it)" and new: "same_job new it"
    and t: "held (snd t) = None \<or> held (snd t) = Some (i, it) \<and> active new"
  shows "claims_ok (items[i := new]) (ts[n := t])"
proof (rule claims_okI)
  fix m j a
  assume m: "holds (ts[n := t]) m = Some (j, a)"
  show "claim_ok (items[i := new]) (fst (ts[n := t] ! m)) j a"
  proof (cases "m = n")
    case True
    then show ?thesis
      using m t new claims_okD(1) [OF c h] by (auto simp: holds_update [OF n(1)] kind_update [OF n] claim_ok_def)
  next
    case False
    then have hm: "holds ts m = Some (j, a)" using m by (simp add: holds_update [OF n(1)])
    then have "j \<noteq> i" using claims_okD(2) [OF c] h False by blast
    with claims_okD(1) [OF c hm] show ?thesis by (simp add: kind_update [OF n] claim_ok_other)
  qed
next
  fix m m' j a b
  assume "holds (ts[n := t]) m = Some (j, a)" "holds (ts[n := t]) m' = Some (j, b)"
  then show "m = m'"
    using t h claims_okD(2) [OF c] by (auto simp: holds_update [OF n(1)] split: if_splits)
qed

lemma claims_claim:
  assumes c: "claims_ok items ts" and n: "n < length ts" "fst t = fst (ts ! n)"
    and i: "i < length items" "\<not> active (items ! i)" "q_type (items ! i) = kind_type (fst t)"
    and t: "held (snd t) = Some (i, items ! i)" and new: "active new" "same_job new (items ! i)"
  shows "claims_ok (items[i := new]) (ts[n := t])"
proof -
  have free: "j \<noteq> i" if "holds ts m = Some (j, a)" for m j a
    using claims_okD(1) [OF c that] i(2) by (auto simp: claim_ok_def)
  show ?thesis
  proof (rule claims_okI)
    fix m j a
    assume m: "holds (ts[n := t]) m = Some (j, a)"
    show "claim_ok (items[i := new]) (fst (ts[n := t] ! m)) j a"
    proof (cases "m = n")
      case True
      then show ?thesis
        using m t i new n by (auto simp: holds_update [OF n(1)] kind_update [OF n] claim_ok_def)
    next
      case False
      then have hm: "holds ts m = Some (j, a)" using m by (simp add: holds_update [OF n(1)])
      with free [OF hm] claims_okD(1) [OF c hm] show ?thesis by (simp add: kind_update [OF n] claim_ok_other)
    qed
  next
    fix m m' j a b
    assume "holds (ts[n := t]) m = Some (j, a)" "holds (ts[n := t]) m' = Some (j, b)"
    then show "m = m'"
      using t free claims_okD(2) [OF c] by (fastforce simp: holds_update [OF n(1)] split: if_splits)
  qed
qed

section \<open>A thread's step keeps the claims\<close>

lemma claim_item_Some:
  "claim_item s i ty st = Some (s1, it) \<longleftrightarrow>
     i < length (g_items s) \<and> q_type (g_items s ! i) = ty \<and> q_status (g_items s ! i) = QUEUE_IDLE
     \<and> it = g_items s ! i \<and> s1 = s\<lparr>g_items := (g_items s)[i := (g_items s ! i)\<lparr>q_status := st\<rparr>], g_dirty := True\<rparr>"
  by (auto simp: claim_item_def)

lemma store_api_items [simp]: "g_items (store_api s a) = g_items s"
  "g_manager_started (store_api s a) = g_manager_started s"
  by (simp_all add: store_api_def Let_def split: prod.splits)

lemma set_item_items:
  "g_items (set_item_status s i st) =
     (if i < length (g_items s) then (g_items s)[i := (g_items s ! i)\<lparr>q_status := st\<rparr>] else g_items s)"
  "g_items (set_item_error s i st m) =
     (if i < length (g_items s)
      then (g_items s)[i := (g_items s ! i)\<lparr>q_status := st, q_error_msg := fit 256 m\<rparr>] else g_items s)"
  "g_manager_started (set_item_status s i st) = g_manager_started s"
  "g_manager_started (set_item_error s i st m) = g_manager_started s"
  by (simp_all add: set_item_status_def set_item_error_def)

lemma held_after [simp]:
  "held (after_search i it x) \<in> {Some (i, it), None}" "held (after_download k i it x) \<in> {Some (i, it), None}"
  "held (loop_head k) = None"
  "phase_ok (after_search i it x)" "phase_ok (after_download k i it x)" "phase_ok (loop_head k)"
  by (auto simp: after_search_def after_download_def loop_head_def is_terminal_status_def split: kind.splits)

lemma thread_step_frame:
  assumes "thread_step k x s c b p = (s1, c1, b1, p1)" and "phase_ok p"
  shows "phase_ok p1" and "length (g_items s1) = length (g_items s)"
    and "g_manager_started s1 = g_manager_started s"
  using assms
  by (cases p; auto simp: Let_def set_item_items claim_item_Some is_terminal_status_def
      split: if_splits option.splits prod.splits)+

text \<open>Points that touch no item keep or drop what they hold.\<close>

definition quiet_point :: "phase \<Rightarrow> bool" where
  "quiet_point p \<longleftrightarrow> (case p of P_Claim i st \<Rightarrow> False | P_SetDownloading i it \<Rightarrow> False
     | P_SetMatching i it \<Rightarrow> False | P_Final i it st m \<Rightarrow> False | _ \<Rightarrow> True)"

lemma thread_step_quiet:
  assumes "thread_step k x s c b p = (s1, c1, b1, p1)" and "quiet_point p"
  shows "g_items s1 = g_items s" and "held p1 = held p \<or> held p1 = None"
proof -
  show "g_items s1 = g_items s"
    using assms by (cases p; auto simp: quiet_point_def Let_def split: if_splits option.splits prod.splits)
  show "held p1 = held p \<or> held p1 = None"
  proof (cases p)
    case (P_Search i it)
    with assms(1) have "p1 = after_search i it x" by (auto split: if_splits)
    with P_Search held_after(1) [of i it x] show ?thesis by auto
  next
    case (P_Download i it)
    with assms(1) have "p1 = after_download k i it x" by simp
    with P_Download held_after(2) [of k i it x] show ?thesis by auto
  qed (use assms in \<open>auto simp: quiet_point_def Let_def split: if_splits option.splits prod.splits\<close>)
qed

lemma thread_step_claims:
  assumes c: "claims_ok (g_items s) ts" and n: "n < length ts" "ts ! n = (k, p)"
    and ok: "phase_ok p" and st: "thread_step k x s c b p = (s1, c1, b1, p1)"
  shows "claims_ok (g_items s1) (ts[n := (k, p1)])"
proof (cases "quiet_point p")
  case True
  from thread_step_quiet [OF st True] n show ?thesis
    by (simp add: claims_local [OF c n(1)] holds_def)
next
  case False
  have h: "holds ts n = held p" using n by (simp add: holds_def)
  have in_range: "i < length (g_items s)" "same_job (g_items s ! i) it" if "held p = Some (i, it)" for i it
    using claims_okD(1) [OF c, of n] h that by (auto simp: claim_ok_def)
  show ?thesis
  proof (cases p)
    case (P_Claim i st0)
    show ?thesis
    proof (cases "claim_item s i (kind_type k) st0")
      case None
      with P_Claim st have "s1 = s" "p1 = loop_head k" by auto
      with c n show ?thesis by (simp add: claims_local)
    next
      case (Some r)
      obtain s2 it where r: "r = (s2, it)" by (cases r)
      with Some P_Claim st have p1: "s1 = s2" "p1 = (if k = K_Cheat then P_Check i it else P_Search i it)" by auto
      have "held p1 = Some (i, it)" using p1 by simp
      with Some [unfolded r claim_item_Some] p1 P_Claim ok show ?thesis
        by (auto simp: active_def intro!: claims_claim [OF c n(1)] simp: n(2))
    qed
  next
    case (P_SetDownloading i it)
    with st in_range h show ?thesis
      by (auto simp: set_item_items is_terminal_status_def intro!: claims_set [OF c n(1)] simp: n(2))
  next
    case (P_SetMatching i it)
    with st in_range h show ?thesis
      by (auto simp: set_item_items is_terminal_status_def intro!: claims_set [OF c n(1)] simp: n(2))
  next
    case (P_Final i it st0 m)
    with st in_range h show ?thesis
      by (auto simp: set_item_items split: option.splits intro!: claims_set [OF c n(1)] simp: n(2))
  qed (use False in \<open>simp_all add: quiet_point_def\<close>)
qed

text \<open>What a step of a thread does to the items: nothing, or one item goes from idle to active
  (of the thread's type), from active to active, or from active to terminal.\<close>

definition item_moves :: "kind \<Rightarrow> queue_item \<Rightarrow> queue_item \<Rightarrow> bool" where
  "item_moves k old new \<longleftrightarrow> same_job new old \<and>
     (q_status old = QUEUE_IDLE \<and> q_type old = kind_type k \<and> active new
      \<or> active old \<and> (active new \<or> is_terminal_status (q_status new)))"

lemma same_job_sym: "same_job a b \<Longrightarrow> same_job b a"
  unfolding same_job_def by (cases a; cases b) auto

lemma thread_step_items:
  assumes c: "claims_ok (g_items s) ts" and n: "n < length ts" "ts ! n = (k, p)"
    and ok: "phase_ok p" and st: "thread_step k x s c b p = (s1, c1, b1, p1)"
  shows "g_items s1 = g_items s \<or>
    (\<exists>i < length (g_items s). \<exists>new. g_items s1 = (g_items s)[i := new] \<and> item_moves k (g_items s ! i) new)"
proof (cases "quiet_point p")
  case True
  from thread_step_quiet [OF st True] show ?thesis by simp
next
  case False
  have held: "i < length (g_items s) \<and> active (g_items s ! i)" if "held p = Some (i, it)" for i it
    using claims_okD(1) [OF c, of n] n that by (auto simp: claim_ok_def holds_def)
  have self: "same_job (a\<lparr>q_status := st\<rparr>) a" "same_job (a\<lparr>q_status := st, q_error_msg := m\<rparr>) a" for a st m
    by simp_all
  show ?thesis
  proof (cases p)
    case (P_Claim i st0)
    with st ok show ?thesis
      by (cases "claim_item s i (kind_type k) st0")
        (auto simp: claim_item_Some item_moves_def intro!: exI [of _ i])
  next
    case (P_SetDownloading i it)
    with st held [of i it] show ?thesis
      by (auto simp: set_item_items item_moves_def is_terminal_status_def intro!: exI [of _ i])
  next
    case (P_SetMatching i it)
    with st held [of i it] show ?thesis
      by (auto simp: set_item_items item_moves_def is_terminal_status_def intro!: exI [of _ i])
  next
    case (P_Final i it st0 m)
    with st ok held [of i it] show ?thesis
      by (auto simp: set_item_items item_moves_def split: option.splits intro!: exI [of _ i])
  qed (use False in \<open>simp_all add: quiet_point_def\<close>)
qed

section \<open>The invariant of the system\<close>

text \<open>The manager runs the first item of a batch itself: it is thread 0.\<close>

definition mgr_thread :: "mphase option \<Rightarrow> kind \<times> phase" where
  "mgr_thread m = (case m of Some (M_First ty p man) \<Rightarrow> (K_First ty, p) | _ \<Rightarrow> (K_Cheat, P_Exit))"

definition all_threads :: "qsys \<Rightarrow> (kind \<times> phase) list" where
  "all_threads s = mgr_thread (mgr s) # threads s"

text \<open>Which threads can be alive at each point of the manager.\<close>

definition live_kinds :: "mphase option \<Rightarrow> kind set" where
  "live_kinds m =
     (case m of
        Some (M_Art a b) \<Rightarrow> {K_Cheat} | Some (M_Man b) \<Rightarrow> {K_Cheat} | Some (M_Collect ty b) \<Rightarrow> {K_Cheat}
      | Some (M_Fail ty l b) \<Rightarrow> {K_Cheat} | Some (M_First ty p b) \<Rightarrow> {K_Cheat} | Some (M_Workers ty b) \<Rightarrow> {K_Cheat}
      | Some (M_Join ty b) \<Rightarrow> {K_Cheat, K_Worker ty} | Some M_JoinCheat \<Rightarrow> {K_Cheat}
      | _ \<Rightarrow> {})"

definition threads_ok :: "mphase option \<Rightarrow> (kind \<times> phase) list \<Rightarrow> bool" where
  "threads_ok m ts \<longleftrightarrow> (\<forall>(k, p) \<in> set ts. p = P_Exit \<or> k \<in> live_kinds m)"

fun mgr_ok :: "mphase \<Rightarrow> queue_item list \<Rightarrow> bool" where
  "mgr_ok (M_Fail ty ixs man) items \<longleftrightarrow> ty \<noteq> QUEUE_TYPE_CHEAT \<and> distinct ixs
     \<and> (\<forall>i \<in> set ixs. i < length items \<and> q_status (items ! i) = QUEUE_IDLE \<and> q_type (items ! i) = ty)"
| "mgr_ok (M_Collect ty man) items \<longleftrightarrow> ty \<noteq> QUEUE_TYPE_CHEAT"
| "mgr_ok (M_First ty p man) items \<longleftrightarrow> ty \<noteq> QUEUE_TYPE_CHEAT"
| "mgr_ok (M_Workers ty man) items \<longleftrightarrow> ty \<noteq> QUEUE_TYPE_CHEAT"
| "mgr_ok (M_Join ty man) items \<longleftrightarrow> ty \<noteq> QUEUE_TYPE_CHEAT"
| "mgr_ok _ items \<longleftrightarrow> True"

definition sys_inv :: "qsys \<Rightarrow> bool" where
  "sys_inv s \<longleftrightarrow> length (g_items (q s)) \<le> 2048
     \<and> claims_ok (g_items (q s)) (all_threads s)
     \<and> (\<forall>t \<in> set (all_threads s). phase_ok (snd t))
     \<and> threads_ok (mgr s) (threads s)
     \<and> (mgr s \<noteq> None \<longrightarrow> g_manager_started (q s))
     \<and> (\<forall>m. mgr s = Some m \<longrightarrow> mgr_ok m (g_items (q s)))"

text \<open>Claims when nobody holds anything, when idle threads come and go, and when items change
  that nobody can hold.\<close>

lemma claims_none: "\<forall>t \<in> set ts. held (snd t) = None \<Longrightarrow> claims_ok items ts"
  by (rule claims_okI) (auto simp: holds_def split: if_splits)

lemma claims_head:
  assumes "claims_ok items (t # ts)" and "held (snd t') = None"
  shows "claims_ok items (t' # ts)"
proof -
  have sub: "holds (t # ts) m = Some x \<and> m \<noteq> 0" if "holds (t' # ts) m = Some x" for m x
    using that assms(2) by (cases m) (auto simp: holds_def split: if_splits)
  have k: "m \<noteq> 0 \<Longrightarrow> fst ((t' # ts) ! m) = fst ((t # ts) ! m)" for m by (cases m) auto
  show ?thesis
    by (rule claims_okI) (use sub k claims_okD [OF assms(1)] in \<open>metis+\<close>)
qed

lemma claims_append:
  assumes "claims_ok items ts" and "\<forall>u \<in> set us. held (snd u) = None"
  shows "claims_ok items (ts @ us)"
proof -
  have sub: "holds ts m = Some x \<and> (ts @ us) ! m = ts ! m" if "holds (ts @ us) m = Some x" for m x
    using that assms(2) by (auto simp: holds_def nth_append split: if_splits)
  show ?thesis
    by (rule claims_okI) (use sub claims_okD [OF assms(1)] in \<open>metis+\<close>)
qed

lemma claims_items:
  assumes "claims_ok items ts"
    and "\<And>i. i < length items \<Longrightarrow> active (items ! i) \<Longrightarrow> i < length items' \<and> items' ! i = items ! i"
  shows "claims_ok items' ts"
  by (rule claims_okI) (use claims_okD [OF assms(1)] assms(2) in \<open>auto simp: claim_ok_def\<close>)

lemma no_active_no_claims:
  assumes "claims_ok items ts" and "\<forall>it \<in> set items. \<not> active it"
  shows "claims_ok items' ts"
proof -
  have "holds ts n \<noteq> Some (i, it)" for n i it
    using claims_okD(1) [OF assms(1), of n i it] assms(2) by (auto simp: claim_ok_def)
  then show ?thesis by (intro claims_okI) auto
qed

section \<open>Every step keeps the invariant\<close>

lemma sys_invD:
  assumes "sys_inv s"
  shows "length (g_items (q s)) \<le> 2048" "claims_ok (g_items (q s)) (all_threads s)"
    "t \<in> set (all_threads s) \<Longrightarrow> phase_ok (snd t)" "threads_ok (mgr s) (threads s)"
    "mgr s \<noteq> None \<Longrightarrow> g_manager_started (q s)" "mgr s = Some m \<Longrightarrow> mgr_ok m (g_items (q s))"
  using assms unfolding sys_inv_def by blast+

lemma mgr_ok_items:
  assumes "mgr_ok m items"
    and "\<And>i ty ixs man. m = M_Fail ty ixs man \<Longrightarrow> i \<in> set ixs \<Longrightarrow>
      i < length items' \<and> q_status (items' ! i) = QUEUE_IDLE \<and> q_type (items' ! i) = ty"
  shows "mgr_ok m items'"
  using assms by (cases m) auto

lemma thread_run_inv:
  assumes inv: "sys_inv s"
  shows "sys_inv (thread_run n x s)"
proof (cases "n < length (threads s)")
  case True
  obtain k p where kp: "threads s ! n = (k, p)" by (cases "threads s ! n")
  obtain s1 c1 b1 p1 where st: "thread_step k x (q s) (cheats s) (work s) p = (s1, c1, b1, p1)"
    by (cases "thread_step k x (q s) (cheats s) (work s) p") auto
  let ?s' = "s\<lparr>q := s1, cheats := c1, work := b1, threads := (threads s)[n := (k, p1)]\<rparr>"
  have run: "thread_run n x s = ?s'" using True kp st by (simp add: thread_run_def)
  have n': "Suc n < length (all_threads s)" "all_threads s ! Suc n = (k, p)"
    using True kp by (simp_all add: all_threads_def)
  have upd: "all_threads ?s' = (all_threads s)[Suc n := (k, p1)]" by (simp add: all_threads_def)
  have pok: "phase_ok p" using sys_invD(3) [OF inv, of "(k, p)"] n' nth_mem by fastforce
  note fr = thread_step_frame [OF st pok]
  have cl: "claims_ok (g_items s1) (all_threads ?s')"
    unfolding upd by (rule thread_step_claims [OF sys_invD(2) [OF inv] n' pok st])
  have ph: "phase_ok (snd t)" if "t \<in> set (all_threads ?s')" for t
    using that fr(1) sys_invD(3) [OF inv] set_update_subset_insert unfolding upd by fastforce
  have live: "p = P_Exit \<or> k \<in> live_kinds (mgr s)"
    using sys_invD(4) [OF inv] nth_mem [OF True] unfolding kp threads_ok_def by auto
  moreover have "p = P_Exit \<Longrightarrow> p1 = P_Exit" using st by auto
  ultimately have th: "threads_ok (mgr s) ((threads s)[n := (k, p1)])"
    using sys_invD(4) [OF inv] set_update_subset_insert [of "threads s" n "(k, p1)"] unfolding threads_ok_def by blast
  have "mgr_ok m (g_items s1)" if m: "mgr s = Some m" for m
  proof (rule mgr_ok_items [OF sys_invD(6) [OF inv m]])
    fix i ty ixs man
    assume f: "m = M_Fail ty ixs man" "i \<in> set ixs"
    with sys_invD(6) [OF inv m] have i: "i < length (g_items (q s))" "q_status (g_items (q s) ! i) = QUEUE_IDLE"
      "q_type (g_items (q s) ! i) = ty" "ty \<noteq> QUEUE_TYPE_CHEAT" by auto
    from thread_step_items [OF sys_invD(2) [OF inv] n' pok st]
    show "i < length (g_items s1) \<and> q_status (g_items s1 ! i) = QUEUE_IDLE \<and> q_type (g_items s1 ! i) = ty"
    proof
      assume "\<exists>j < length (g_items (q s)). \<exists>new. g_items s1 = (g_items (q s))[j := new] \<and> item_moves k (g_items (q s) ! j) new"
      then obtain j new where j: "g_items s1 = (g_items (q s))[j := new]" "item_moves k (g_items (q s) ! j) new" by blast
      have "k = K_Cheat \<or> p = P_Exit" using live m f by (auto simp: live_kinds_def)
      then have "j \<noteq> i \<or> g_items s1 = g_items (q s)"
        using j(2) i st by (auto simp: item_moves_def kind_type_def active_def)
      then show ?thesis
      proof
        assume "j \<noteq> i"
        then show ?thesis using i by (simp add: j(1))
      qed (use i in simp)
    qed (use i in simp)
  qed
  then show ?thesis
    unfolding run sys_inv_def using sys_invD(1,5) [OF inv] cl ph th fr by simp
qed (use inv in \<open>simp add: thread_run_def\<close>)

lemma idle_indices_ok:
  "distinct (idle_indices s ty)"
  "i \<in> set (idle_indices s ty) \<longleftrightarrow>
     i < length (g_items s) \<and> q_type (g_items s ! i) = ty \<and> q_status (g_items s ! i) = QUEUE_IDLE"
  by (auto simp: idle_indices_def)

lemma threads_ok_mono: "threads_ok m ts \<Longrightarrow> live_kinds m \<subseteq> live_kinds m' \<Longrightarrow> threads_ok m' ts"
  unfolding threads_ok_def by blast

text \<open>A manager step that changes neither the items nor the other threads.\<close>

lemma mgr_move_inv:
  assumes inv: "sys_inv s" and m: "mgr s = Some m"
    and th: "threads_ok (Some m') (threads s)" and ok: "mgr_ok m' (g_items (q s))"
    and f: "held (snd (mgr_thread (Some m'))) = None" "phase_ok (snd (mgr_thread (Some m')))"
  shows "sys_inv (s\<lparr>mgr := Some m', work := w\<rparr>)" "sys_inv (s\<lparr>mgr := Some m'\<rparr>)"
  using sys_invD [OF inv] th ok f m claims_head [OF sys_invD(2) [OF inv, unfolded all_threads_def] f(1)]
  by (auto simp: sys_inv_def all_threads_def)

lemma all_exited_threads:
  assumes "threads_ok (Some m) ts" and "all_exited grp ts" and "live_kinds (Some m) \<subseteq> {k. grp k} \<union> live_kinds (Some m')"
  shows "threads_ok (Some m') ts"
  using assms unfolding threads_ok_def all_exited_def list_all_iff by fastforce

text \<open>The manager's own run of the first item of a batch is a thread step at index 0.\<close>

lemma mgr_first_inv:
  assumes inv: "sys_inv s" and m: "mgr s = Some (M_First ty p man)"
    and st: "thread_step (K_First ty) x (q s) (cheats s) (work s) p = (s1, c1, b1, p1)"
  shows "sys_inv (s\<lparr>q := s1, cheats := c1, work := b1, mgr := Some (M_First ty p1 man)\<rparr>)" (is "sys_inv ?s'")
proof -
  have n: "0 < length (all_threads s)" "all_threads s ! 0 = (K_First ty, p)"
    using m by (simp_all add: all_threads_def mgr_thread_def)
  have upd: "all_threads ?s' = (all_threads s)[0 := (K_First ty, p1)]"
    by (simp add: all_threads_def mgr_thread_def)
  have pok: "phase_ok p" using sys_invD(3) [OF inv, of "(K_First ty, p)"] n nth_mem by fastforce
  note fr = thread_step_frame [OF st pok]
  have cl: "claims_ok (g_items s1) (all_threads ?s')"
    unfolding upd by (rule thread_step_claims [OF sys_invD(2) [OF inv] n pok st])
  have ph: "phase_ok (snd t)" if "t \<in> set (all_threads ?s')" for t
    using that fr(1) sys_invD(3) [OF inv] set_update_subset_insert unfolding upd by fastforce
  have th: "threads_ok (mgr ?s') (threads ?s')"
    using sys_invD(4) [OF inv] m by (simp add: threads_ok_def live_kinds_def)
  have "ty \<noteq> QUEUE_TYPE_CHEAT" using sys_invD(6) [OF inv m] by simp
  then show ?thesis
    unfolding sys_inv_def using sys_invD(1) [OF inv] sys_invD(5) [OF inv] m cl ph th fr by simp
qed

text \<open>A manager step that starts threads.\<close>

lemma mgr_spawn_inv:
  assumes inv: "sys_inv s" and m: "mgr s = Some m"
    and th: "threads_ok (Some m') (threads s)" and ok: "mgr_ok m' (g_items (q s))"
    and f: "mgr_thread (Some m') = (K_Cheat, P_Exit)"
    and us: "\<forall>u \<in> set us. snd u = P_Top \<and> fst u \<in> live_kinds (Some m')"
  shows "sys_inv (s\<lparr>mgr := Some m', threads := threads s @ us\<rparr>)"
proof -
  have "claims_ok (g_items (q s)) (mgr_thread (Some m') # threads s)"
    using claims_head [OF sys_invD(2) [OF inv, unfolded all_threads_def]] f by simp
  then have "claims_ok (g_items (q s)) ((mgr_thread (Some m') # threads s) @ us)"
    using us by (intro claims_append) auto
  moreover have "threads_ok (Some m') (threads s @ us)"
    using th us unfolding threads_ok_def by auto
  ultimately show ?thesis
    using sys_invD [OF inv] ok f us m by (auto simp: sys_inv_def all_threads_def)
qed

lemma in_set_neq: "x \<notin> set xs \<Longrightarrow> y \<in> set xs \<Longrightarrow> x \<noteq> y"
  by auto

text \<open>An idle media item marked as failed by the manager: no thread can hold it.\<close>

lemma mgr_fail_inv:
  assumes inv: "sys_inv s" and m: "mgr s = Some (M_Fail ty (i # ixs) man)"
  shows "sys_inv (s\<lparr>q := set_item_error (q s) i QUEUE_ERROR msg, mgr := Some (M_Fail ty ixs man)\<rparr>)" (is "sys_inv ?s'")
proof -
  from sys_invD(6) [OF inv m] have i: "i < length (g_items (q s))" "q_status (g_items (q s) ! i) = QUEUE_IDLE"
    and rest: "mgr_ok (M_Fail ty ixs man) (g_items (q s))" "i \<notin> set ixs" by auto
  have it: "g_items (q ?s') = (g_items (q s))[i := (g_items (q s) ! i)\<lparr>q_status := QUEUE_ERROR, q_error_msg := fit 256 msg\<rparr>]"
    using i by (simp add: set_item_items)
  have "claims_ok (g_items (q ?s')) (all_threads s)"
    unfolding it by (rule claims_items [OF sys_invD(2) [OF inv]]) (use i in \<open>auto simp: active_def nth_list_update\<close>)
  moreover have "all_threads ?s' = all_threads s" using m by (simp add: all_threads_def mgr_thread_def)
  moreover have "mgr_ok (M_Fail ty ixs man) (g_items (q ?s'))"
    unfolding it by (rule mgr_ok_items [OF rest(1)]) (use rest(1) in \<open>simp add: in_set_neq [OF rest(2)]\<close>)
  moreover have "threads_ok (mgr ?s') (threads ?s')"
    using sys_invD(4) [OF inv] m by (simp add: threads_ok_def live_kinds_def)
  moreover have "length (g_items (q ?s')) = length (g_items (q s))"
    "g_manager_started (q ?s') = g_manager_started (q s)" by (simp_all add: set_item_items)
  ultimately show ?thesis
    unfolding sys_inv_def using sys_invD [OF inv] m by simp
qed

lemma after_batch_ok [simp]:
  "mgr_ok (after_batch ty man) items" "mgr_thread (Some (after_batch ty man)) = (K_Cheat, P_Exit)"
  "live_kinds (Some (after_batch ty man)) = {K_Cheat}"
  by (simp_all add: after_batch_def mgr_thread_def live_kinds_def)

lemma mgr_stop_inv:
  assumes inv: "sys_inv s" and m: "mgr s = Some M_Stop"
  shows "sys_inv (s\<lparr>q := (q s)\<lparr>g_worker_running := False\<rparr>, mgr := None\<rparr>)"
proof -
  have "mgr_thread None = mgr_thread (mgr s)" "threads_ok None (threads s)"
    using sys_invD(4) [OF inv] m by (simp_all add: mgr_thread_def threads_ok_def live_kinds_def)
  then show ?thesis using sys_invD [OF inv] by (auto simp: sys_inv_def all_threads_def)
qed

lemma live_simps:
  "live_kinds (Some M_Top) = {}" "live_kinds (Some M_Interrupt) = {}" "live_kinds (Some M_HasIdle) = {}"
  "live_kinds (Some M_Kinds) = {}" "live_kinds (Some (M_StartCheat a c d)) = {}" "live_kinds (Some M_Stop) = {}"
  "live_kinds (Some (M_Art a d)) = {K_Cheat}" "live_kinds (Some (M_Man d)) = {K_Cheat}"
  "live_kinds (Some (M_Collect ty d)) = {K_Cheat}" "live_kinds (Some (M_Fail ty l d)) = {K_Cheat}"
  "live_kinds (Some (M_First ty p d)) = {K_Cheat}" "live_kinds (Some (M_Workers ty d)) = {K_Cheat}"
  "live_kinds (Some (M_Join ty d)) = {K_Cheat, K_Worker ty}" "live_kinds (Some M_JoinCheat) = {K_Cheat}"
  by (simp_all add: live_kinds_def)

lemma mgr_step_inv:
  assumes inv: "sys_inv s" and m: "mgr s = Some m"
  shows "sys_inv (mgr_step x s m)"
proof -
  note mv = mgr_move_inv [OF inv m]
  note th = sys_invD(4) [OF inv, unfolded m] and ok = sys_invD(6) [OF inv m]
  note k = threads_ok_mono [OF th]
  show ?thesis
  proof (cases m)
    case (M_StartCheat art cheat man)
    let ?us = "if cheat \<and> \<not> g_interrupt (q s) \<and> x_create_ok x then [(K_Cheat, P_Top)] else []"
    have "mgr_step x s m = s\<lparr>mgr := Some (M_Art art man), threads := threads s @ ?us\<rparr>"
      by (simp add: M_StartCheat)
    also have "sys_inv \<dots>"
      by (intro mgr_spawn_inv [OF inv m] k) (auto simp: M_StartCheat live_simps mgr_thread_def)
    finally show ?thesis .
  next
    case (M_Collect ty man)
    have "sys_inv (s\<lparr>mgr := Some (after_batch ty man)\<rparr>)" by (intro mv k) (simp_all add: M_Collect live_simps)
    moreover have "sys_inv (s\<lparr>mgr := Some (M_Fail ty (idle_indices (q s) ty) man)\<rparr>)"
      by (intro mv k) (use ok in \<open>simp_all add: M_Collect idle_indices_ok live_simps mgr_thread_def\<close>)
    moreover have "sys_inv (s\<lparr>mgr := Some (M_First ty (P_Claim i QUEUE_SEARCHING) man), work := w\<rparr>)" for i w
      by (intro mv k) (use ok in \<open>simp_all add: M_Collect live_simps mgr_thread_def is_terminal_status_def\<close>)
    ultimately show ?thesis by (simp add: M_Collect Let_def)
  next
    case (M_Fail ty ixs man)
    show ?thesis
    proof (cases ixs)
      case Nil
      then show ?thesis by (auto simp: M_Fail intro!: mv k simp: live_simps)
    next
      case (Cons i rest)
      then show ?thesis using mgr_fail_inv [OF inv] m M_Fail by simp
    qed
  next
    case (M_First ty p man)
    show ?thesis
    proof (cases "p = P_Exit")
      case True
      then show ?thesis using ok
        by (auto simp: M_First live_simps mgr_thread_def intro!: mv k)
    next
      case False
      then show ?thesis using mgr_first_inv [OF inv] m M_First by (auto split: prod.splits)
    qed
  next
    case (M_Workers ty man)
    let ?us = "replicate (min (x_started x) (worker_count (work s))) (K_Worker ty, P_Top)"
    have "sys_inv (s\<lparr>mgr := Some (M_Join ty man), threads := threads s @ ?us\<rparr>)"
      using ok by (intro mgr_spawn_inv [OF inv m] k) (auto simp: M_Workers live_simps mgr_thread_def)
    moreover have "sys_inv (s\<lparr>mgr := Some (after_batch ty man)\<rparr>)"
      by (intro mv k) (auto simp: M_Workers live_simps)
    ultimately show ?thesis by (simp add: M_Workers)
  next
    case (M_Join ty man)
    show ?thesis
      using inv by (auto simp: M_Join intro!: mv all_exited_threads [OF th] simp: live_simps)
  next
    case M_JoinCheat
    show ?thesis
      using inv by (auto simp: M_JoinCheat mgr_thread_def intro!: mv all_exited_threads [OF th] simp: live_simps)
  next
    case M_Stop
    then show ?thesis using mgr_stop_inv [OF inv] m by simp
  qed (auto simp: live_simps mgr_thread_def intro!: mv k)
qed

end
