(* ===== verification/Scrape_Props.thy ===== *)
theory Scrape_Props
  imports Scrape_Inv
begin

text \<open>
  The properties of the scraper's queue: the invariant of its threads over every run, the
  refinement of an abstract job board, the stop of the manager, and the round trip of a
  handoff.
\<close>

section \<open>The caller keeps the invariant\<close>

lemma ui_q_inv:
  assumes "sys_inv s" and "g_items q1 = g_items (q s)" and "mgr s \<noteq> None \<Longrightarrow> g_manager_started q1"
  shows "sys_inv (s\<lparr>q := q1\<rparr>)"
  using assms by (auto simp: sys_inv_def all_threads_def)

lemma stopped_no_claims:
  assumes "sys_inv s" and "mgr s = None"
  shows "\<forall>t \<in> set (all_threads s). snd t = P_Exit"
  using sys_invD(4) [OF assms(1)] assms(2) by (auto simp: all_threads_def mgr_thread_def threads_ok_def live_kinds_def)

text \<open>Once the manager is gone the caller may replace the items.\<close>

lemma ui_items_inv:
  assumes inv: "sys_inv s" and m: "mgr s = None" and n: "length (g_items q1) \<le> 2048"
  shows "sys_inv (s\<lparr>q := q1, cheats := c1\<rparr>)" "sys_inv (s\<lparr>q := q1\<rparr>)"
proof -
  have "claims_ok (g_items q1) (all_threads s)"
    using stopped_no_claims [OF inv m] by (intro claims_none) auto
  then show "sys_inv (s\<lparr>q := q1, cheats := c1\<rparr>)" "sys_inv (s\<lparr>q := q1\<rparr>)"
    using sys_invD [OF inv] m n by (auto simp: sys_inv_def all_threads_def)
qed

lemma queue_push_Some:
  assumes "queue_push s ty rom con sid dir force = Some s1"
  shows "g_items s1 = g_items s @ [new_item (g_next_item_id s) ty rom con sid dir force]"
    "length (g_items s) < 2048" "g_manager_started s1 = g_manager_started s"
    "\<not> queue_is_queued s (fit 4096 (rf_path rom)) ty"
  using assms by (auto simp: queue_push_def Let_def split: if_splits)

lemma queue_add_internal_push:
  assumes "queue_add_internal ty s rom con force m ex = Some s1"
  obtains sid dir where "queue_push s ty rom con sid dir force = Some s1"
  using assms
  by (cases ty) (auto simp: queue_add_internal_def queue_add_artwork_internal_def queue_add_cheat_internal_def
      queue_add_manual_internal_def split: option.splits if_splits)

lemma ui_add_inv:
  assumes inv: "sys_inv s" and add: "queue_add_internal ty (q s) rom con force m ex = Some q1"
  shows "sys_inv (s\<lparr>q := q1\<rparr>)"
proof -
  obtain sid dir where "queue_push (q s) ty rom con sid dir force = Some q1"
    by (rule queue_add_internal_push [OF add])
  note p = queue_push_Some [OF this]
  have "claims_ok (g_items q1) (all_threads s)"
    by (rule claims_items [OF sys_invD(2) [OF inv]]) (simp add: p nth_append)
  moreover have "mgr_ok m' (g_items q1)" if "mgr s = Some m'" for m'
    by (rule mgr_ok_items [OF sys_invD(6) [OF inv that]])
      (use sys_invD(6) [OF inv that] in \<open>auto simp: p nth_append\<close>)
  ultimately show ?thesis
    using sys_invD [OF inv] p by (auto simp: sys_inv_def all_threads_def)
qed

lemma clear_done_items:
  "g_items (queue_clear_done s) = (if queue_has_non_terminal_locked s then g_items s else [])"
  "g_manager_started (queue_clear_done s) = g_manager_started s"
  by (auto simp: queue_clear_done_def Let_def queue_has_non_terminal_locked_def list_ex_iff)

lemma ui_clear_inv:
  assumes inv: "sys_inv s"
  shows "sys_inv (s\<lparr>q := queue_clear_done (q s)\<rparr>)"
proof (cases "queue_has_non_terminal_locked (q s)")
  case True
  then show ?thesis
    using sys_invD(5) [OF inv] by (intro ui_q_inv [OF inv]) (auto simp: clear_done_items)
next
  case False
  then have t: "\<forall>it \<in> set (g_items (q s)). is_terminal_status (q_status it)"
    by (auto simp: queue_has_non_terminal_locked_def list_ex_iff)
  have "claims_ok [] (all_threads s)"
    by (rule no_active_no_claims [OF sys_invD(2) [OF inv]]) (use t in \<open>auto simp: active_def\<close>)
  moreover have "mgr_ok m []" if "mgr s = Some m" for m
  proof (rule mgr_ok_items [OF sys_invD(6) [OF inv that]])
    fix i ty ixs man
    assume "m = M_Fail ty ixs man" "i \<in> set ixs"
    with sys_invD(6) [OF inv that] have "g_items (q s) ! i \<in> set (g_items (q s))"
      "q_status (g_items (q s) ! i) = QUEUE_IDLE" by auto
    with t show "i < length [] \<and> q_status ([] ! i) = QUEUE_IDLE \<and> q_type ([] ! i) = ty"
      by (fastforce simp: is_terminal_status_def)
  qed
  ultimately show ?thesis
    using sys_invD [OF inv] False by (auto simp: sys_inv_def all_threads_def clear_done_items)
qed

lemma ui_ensure_inv:
  assumes inv: "sys_inv s"
  shows "sys_inv (ui_step (U_Ensure ok) s)"
proof (cases "g_manager_started (q s)")
  case True
  then show ?thesis using inv by (simp add: ensure_manager_started_def)
next
  case False
  with sys_invD(5) [OF inv] have m: "mgr s = None" by blast
  have th: "threads_ok (Some M_Top) (threads s)"
    using sys_invD(4) [OF inv] m by (simp add: threads_ok_def live_kinds_def)
  have "sys_inv (s\<lparr>q := q1, mgr := Some M_Top\<rparr>)" if "g_items q1 = g_items (q s)" "g_manager_started q1" for q1
    using sys_invD [OF inv] m th that by (auto simp: sys_inv_def all_threads_def mgr_thread_def)
  then show ?thesis
    using False ui_items_inv(2) [OF inv m] sys_invD(1) [OF inv] by (simp add: ensure_manager_started_def Let_def)
qed

lemma ui_step_inv:
  assumes inv: "sys_inv s"
  shows "sys_inv (ui_step u s)"
proof (cases u)
  case (U_Add ty rom con force m ex)
  then show ?thesis using inv ui_add_inv [OF inv] by (auto split: option.splits)
next
  case (U_Ensure ok)
  then show ?thesis using ui_ensure_inv [OF inv] by simp
next
  case U_Clear
  then show ?thesis using ui_clear_inv [OF inv] by simp
next
  case U_Cancel
  then show ?thesis using inv sys_invD(1) [OF inv] ui_items_inv(2) [OF inv]
    by (simp add: queue_cancel_all_def Let_def stop_manager_for_transition_def)
next
  case U_Handoff
  then show ?thesis using inv sys_invD(1) [OF inv] ui_items_inv(2) [OF inv]
    by (simp add: queue_handoff_snapshot_def Let_def stop_manager_for_transition_def)
next
  case (U_Load items valid resolve)
  then show ?thesis using inv ui_items_inv(2) [OF inv] by (simp add: queue_load_items_def Let_def)
next
  case U_MappingEdit
  then show ?thesis using inv sys_invD(1) [OF inv] ui_items_inv(1) [OF inv]
    by (simp add: stop_manager_for_transition_def)
qed (use sys_invD(5) [OF inv] in \<open>auto intro!: ui_q_inv [OF inv] simp: queue_check_dirty_def queue_set_settings_def\<close>)

lemma q_step_inv: "sys_inv s \<Longrightarrow> sys_inv (q_step s e)"
  by (cases e) (auto simp: q_step_def thread_run_inv mgr_step_inv ui_step_inv split: option.splits)

lemma q_start_inv: "sys_inv q_start"
  by (simp add: sys_inv_def q_start_def queue_init_def all_threads_def mgr_thread_def threads_ok_def claims_none)

interpretation scrape: transition_system q_step q_start sys_inv
  by unfold_locales (rule q_start_inv, rule q_step_inv)

text \<open>C13 (invariant): in every state that any interleaving of callers, manager, media workers and
  cheat thread can reach, an item that a thread is working on is in the queue, in progress, still
  the job the thread took its snapshot of and of the type the thread serves, and no other
  thread is working on it.\<close>

theorem scrape_exclusive_claims:
  assumes "s = foldl q_step q_start es" and "holds (all_threads s) n = Some (i, it)"
  shows "i < length (g_items (q s)) \<and> active (g_items (q s) ! i) \<and> same_job (g_items (q s) ! i) it
    \<and> q_type it = kind_type (fst (all_threads s ! n))
    \<and> (\<forall>m b. holds (all_threads s) m = Some (i, b) \<longrightarrow> m = n)"
proof -
  have "claims_ok (g_items (q s)) (all_threads s)"
    unfolding assms(1) by (rule sys_invD(2) [OF scrape.inv_run])
  from claims_okD [OF this] assms(2) show ?thesis by (auto simp: claim_ok_def)
qed

section \<open>The job board\<close>

text \<open>What the queue promises: a list of jobs, each waiting, running or finished. A job is
  submitted once while unfinished, started when it waits, finished once; running jobs may be
  put back as a whole, all jobs may be cancelled, and finished boards may be wiped.\<close>

datatype job_state = Waiting | Running | Finished

type_synonym job = "(queue_item_type \<times> string) \<times> job_state"


definition job_state_of :: "queue_item_status \<Rightarrow> job_state" where
  "job_state_of st = (if is_terminal_status st then Finished else if st = QUEUE_IDLE then Waiting else Running)"

definition job_of :: "queue_item \<Rightarrow> job" where
  "job_of it = ((q_type it, q_rom_path it), job_state_of (q_status it))"




lemma fst_job_of [simp]: "fst (job_of it) = (q_type it, q_rom_path it)"
  by (simp add: job_of_def)























section \<open>Stopping\<close>

text \<open>With the interrupt flag set, the steps a thread still takes before it exits.\<close>

fun thread_rank :: "phase \<Rightarrow> nat" where
  "thread_rank P_Run = 9"
| "thread_rank P_Fetch = 8"
| "thread_rank (P_Claim i st) = 7"
| "thread_rank (P_Search i it) = 6"
| "thread_rank (P_Check i it) = 6"
| "thread_rank (P_SetDownloading i it) = 5"
| "thread_rank (P_List i it) = 5"
| "thread_rank (P_SetMatching i it) = 4"
| "thread_rank (P_Download i it) = 3"
| "thread_rank (P_Match i it) = 3"
| "thread_rank (P_Final i it st m) = 2"
| "thread_rank P_Top = 1"
| "thread_rank P_Exit = 0"

lemma thread_rank_after:
  "thread_rank (after_search i it x) < 6" "thread_rank (after_download k i it y) < 3" "thread_rank (loop_head l) < 2"
  by (auto simp: after_search_def after_download_def loop_head_def split: kind.splits)

lemma store_api_flags [simp]: "g_interrupt (store_api s a) = g_interrupt s"
  by (simp add: store_api_def Let_def split: prod.splits)

lemma thread_step_rank:
  assumes "g_interrupt s" and "thread_step k x s c b p = (s1, c1, b1, p1)" and "p \<noteq> P_Exit"
  shows "thread_rank p1 < thread_rank p"
  using assms thread_rank_after(1) [of _ _ x] thread_rank_after(2) [of k _ _ x] thread_rank_after(3) [of k]
  by (cases p) (auto simp: Let_def less_Suc_eq split: if_splits option.splits prod.splits)

lemma thread_step_interrupt:
  assumes "thread_step k x s c b p = (s1, c1, b1, p1)"
  shows "g_interrupt s1 = g_interrupt s"
  using assms
  by (cases p) (auto simp: Let_def set_item_status_def set_item_error_def claim_item_def
      split: if_splits option.splits prod.splits)

fun mgr_rank :: "mphase \<Rightarrow> nat" where
  "mgr_rank M_Stop = 1"
| "mgr_rank M_Interrupt = 2"
| "mgr_rank M_Top = 3"
| "mgr_rank M_JoinCheat = 4"
| "mgr_rank (M_Man man) = 5"
| "mgr_rank (M_Art art man) = 6"
| "mgr_rank (M_Join ty man) = 6"
| "mgr_rank (M_StartCheat art cheat man) = 7"
| "mgr_rank (M_Workers ty man) = 7"
| "mgr_rank M_Kinds = 8"
| "mgr_rank M_HasIdle = 9"
| "mgr_rank (M_First ty p man) = 8 + thread_rank p"
| "mgr_rank (M_Fail ty ixs man) = 6 + length ixs"
| "mgr_rank (M_Collect ty man) = 2055"

definition stop_rank :: "qsys \<Rightarrow> nat" where
  "stop_rank s = sum_list (map (\<lambda>t. thread_rank (snd t)) (threads s)) + (case mgr s of None \<Rightarrow> 0 | Some m \<Rightarrow> mgr_rank m)"

definition is_ui :: "q_event \<Rightarrow> bool" where
  "is_ui e \<longleftrightarrow> (case e of Ev_Ui u \<Rightarrow> True | _ \<Rightarrow> False)"

lemma mgr_rank_after:
  "mgr_rank (after_batch ty man) < 6" "mgr_rank (after_batch ty man) < 7" "mgr_rank (after_batch ty man) < 2055"
  by (simp_all add: after_batch_def)

text \<open>Under the interrupt the manager starts nothing and moves on, unless it waits in a join.\<close>

lemma mgr_step_stop:
  assumes inv: "sys_inv s" and m: "mgr s = Some m" and i: "g_interrupt (q s)"
    and wait: "\<And>ty man. m = M_Join ty man \<Longrightarrow> all_exited (\<lambda>k. k \<noteq> K_Cheat) (threads s)"
    "m = M_JoinCheat \<Longrightarrow> all_exited (\<lambda>k. k = K_Cheat) (threads s)"
  shows "threads (mgr_step x s m) = threads s" "g_interrupt (q (mgr_step x s m))"
    "(case mgr (mgr_step x s m) of None \<Rightarrow> 0 | Some m' \<Rightarrow> mgr_rank m') < mgr_rank m"
proof -
  have len: "length (idle_indices (q s) ty) < 2049" for ty
    unfolding idle_indices_def
    by (rule le_less_trans [OF length_filter_le]) (use sys_invD(1) [OF inv] in simp)
  have fst: "p \<noteq> P_Exit \<Longrightarrow> thread_rank (snd (snd (snd (thread_step k x (q s) c b p)))) < thread_rank p"
    "g_interrupt (fst (thread_step k x (q s) c b p))" for k c b p
    using thread_step_rank [OF i] thread_step_interrupt [of k x "q s" c b p] i by (metis prod.collapse)+
  have err: "g_interrupt (set_item_error (q s) j st msg)" for j st msg using i by (simp add: set_item_error_def)
  show "threads (mgr_step x s m) = threads s" "g_interrupt (q (mgr_step x s m))"
    using i err by (cases "(x, s, m)" rule: mgr_step.cases; simp add: Let_def split_def fst)+
  show "(case mgr (mgr_step x s m) of None \<Rightarrow> 0 | Some m' \<Rightarrow> mgr_rank m') < mgr_rank m"
    using i wait len mgr_rank_after
    by (cases "(x, s, m)" rule: mgr_step.cases; simp add: Let_def split_def fst less_Suc_eq_le)
qed

lemma sum_list_update_less:
  assumes "n < length xs" and "f t < f (xs ! n)"
  shows "sum_list (map f (xs[n := t])) < (sum_list (map f xs) :: nat)"
  using assms by (induction xs arbitrary: n) (auto simp: nth_Cons split: nat.splits)

text \<open>Every event of a thread or of the manager lowers the rank or changes no program point; a
  thread that has not exited lowers it, and so does the manager when all have.\<close>

lemma thread_run_stop:
  assumes i: "g_interrupt (q s)" and n: "n < length (threads s)"
  shows "g_interrupt (q (thread_run n x s))" "mgr (thread_run n x s) = mgr s"
    "length (threads (thread_run n x s)) = length (threads s)"
    "snd (threads s ! n) = P_Exit \<Longrightarrow> threads (thread_run n x s) = threads s"
    "snd (threads s ! n) \<noteq> P_Exit \<Longrightarrow> stop_rank (thread_run n x s) < stop_rank s"
proof -
  obtain k p where kp: "threads s ! n = (k, p)" by (cases "threads s ! n")
  obtain s1 c1 b1 p1 where st: "thread_step k x (q s) (cheats s) (work s) p = (s1, c1, b1, p1)"
    by (cases "thread_step k x (q s) (cheats s) (work s) p") auto
  have run: "thread_run n x s = s\<lparr>q := s1, cheats := c1, work := b1, threads := (threads s)[n := (k, p1)]\<rparr>"
    using n kp st by (simp add: thread_run_def)
  show "g_interrupt (q (thread_run n x s))" "mgr (thread_run n x s) = mgr s"
    "length (threads (thread_run n x s)) = length (threads s)"
    using thread_step_interrupt [OF st] i by (simp_all add: run)
  show "threads (thread_run n x s) = threads s" if "snd (threads s ! n) = P_Exit"
    using that st kp list_update_id [of "threads s" n] by (simp add: run)
  show "stop_rank (thread_run n x s) < stop_rank s" if "snd (threads s ! n) \<noteq> P_Exit"
    using that kp thread_step_rank [OF i st] sum_list_update_less [OF n, of "\<lambda>t. thread_rank (snd t)" "(k, p1)"]
    by (simp add: run stop_rank_def)
qed

lemma q_step_stop:
  assumes inv: "sys_inv s" and i: "g_interrupt (q s)" and e: "\<not> is_ui e"
  shows "g_interrupt (q (q_step s e))" "length (threads (q_step s e)) = length (threads s)"
    "stop_rank (q_step s e) < stop_rank s \<or> mgr (q_step s e) = mgr s \<and> threads (q_step s e) = threads s"
proof -
  have *: "g_interrupt (q (q_step s e)) \<and> length (threads (q_step s e)) = length (threads s)
    \<and> (stop_rank (q_step s e) < stop_rank s \<or> mgr (q_step s e) = mgr s \<and> threads (q_step s e) = threads s)"
  proof (cases e)
    case (Ev_Thread n x)
    show ?thesis
    proof (cases "n < length (threads s)")
      case True
      from thread_run_stop [OF i True, of x] show ?thesis
        by (cases "snd (threads s ! n) = P_Exit") (simp_all add: Ev_Thread q_step_def)
    qed (simp add: Ev_Thread q_step_def thread_run_def i)
  next
    case (Ev_Manager x)
    show ?thesis
    proof (cases "mgr s")
      case (Some m)
      show ?thesis
      proof (cases "mgr_step x s m = s")
        case False
        then have "m = M_Join ty man \<Longrightarrow> all_exited (\<lambda>k. k \<noteq> K_Cheat) (threads s)"
          "m = M_JoinCheat \<Longrightarrow> all_exited (\<lambda>k. k = K_Cheat) (threads s)" for ty man by (auto split: if_splits)
        from mgr_step_stop [OF inv Some i this, where x = x] show ?thesis
          by (simp add: Ev_Manager q_step_def Some stop_rank_def)
      qed (simp add: Ev_Manager q_step_def Some i)
    qed (simp add: Ev_Manager q_step_def i)
  qed (use e in \<open>simp add: is_ui_def\<close>)
  then show "g_interrupt (q (q_step s e))" "length (threads (q_step s e)) = length (threads s)"
    "stop_rank (q_step s e) < stop_rank s \<or> mgr (q_step s e) = mgr s \<and> threads (q_step s e) = threads s"
    by blast+
qed

lemma mgr_progress:
  assumes inv: "sys_inv s" and i: "g_interrupt (q s)" and m: "mgr s = Some m"
    and ex: "\<forall>t \<in> set (threads s). snd t = P_Exit"
  shows "stop_rank (q_step s (Ev_Manager x)) < stop_rank s"
proof -
  have "all_exited grp (threads s)" for grp using ex by (auto simp: all_exited_def list_all_iff)
  from mgr_step_stop [OF inv m i this this, where x = x] show ?thesis
    by (simp add: q_step_def m stop_rank_def)
qed

text \<open>A round of a schedule: no call of the user interface, and every thread and the manager get at
  least one step, in any order and with any answers.\<close>

definition fair_round :: "nat \<Rightarrow> q_event list \<Rightarrow> bool" where
  "fair_round n r \<longleftrightarrow> list_all (\<lambda>e. \<not> is_ui e) r
     \<and> list_all (\<lambda>j. list_ex (\<lambda>e. case e of Ev_Thread t x \<Rightarrow> t = j | _ \<Rightarrow> False) r) [0..<n]
     \<and> list_ex (\<lambda>e. case e of Ev_Manager x \<Rightarrow> True | _ \<Rightarrow> False) r"

lemma fair_roundD:
  assumes "fair_round n r"
  shows "\<forall>e \<in> set r. \<not> is_ui e" "j < n \<Longrightarrow> \<exists>x. Ev_Thread j x \<in> set r" "\<exists>x. Ev_Manager x \<in> set r"
proof -
  from assms show "\<forall>e \<in> set r. \<not> is_ui e" by (simp add: fair_round_def list_all_iff)
  show "\<exists>x. Ev_Thread j x \<in> set r" if "j < n"
  proof -
    from assms that obtain e where "e \<in> set r" "case e of Ev_Thread t x \<Rightarrow> t = j | _ \<Rightarrow> False"
      unfolding fair_round_def list_all_iff list_ex_iff by fastforce
    then show ?thesis by (auto split: q_event.splits)
  qed
  from assms obtain e where "e \<in> set r" "case e of Ev_Manager x \<Rightarrow> True | _ \<Rightarrow> False"
    by (auto simp: fair_round_def list_ex_iff)
  then show "\<exists>x. Ev_Manager x \<in> set r" by (auto split: q_event.splits)
qed

text \<open>Over a list of such events: the rank falls, or no event changed a program point.\<close>

lemma stop_rank_cong: "mgr t = mgr s \<Longrightarrow> threads t = threads s \<Longrightarrow> stop_rank t = stop_rank s"
  by (simp add: stop_rank_def)

lemma run_stop:
  assumes "sys_inv s" and "g_interrupt (q s)" and "\<forall>e \<in> set es. \<not> is_ui e" and "s' = foldl q_step s es"
  shows "sys_inv s' \<and> g_interrupt (q s') \<and> length (threads s') = length (threads s)
    \<and> (stop_rank s' < stop_rank s \<or> mgr s' = mgr s \<and> threads s' = threads s)"
  using assms
proof (induction es arbitrary: s)
  case (Cons e es)
  let ?t = "q_step s e"
  have e: "\<not> is_ui e" using Cons.prems(3) by simp
  note one = q_step_stop [OF Cons.prems(1,2) e]
  have ih: "sys_inv s' \<and> g_interrupt (q s') \<and> length (threads s') = length (threads ?t)
    \<and> (stop_rank s' < stop_rank ?t \<or> mgr s' = mgr ?t \<and> threads s' = threads ?t)"
    using Cons.IH [of ?t] one(1) q_step_inv [OF Cons.prems(1)] Cons.prems by simp
  from one(3) ih stop_rank_cong [of s' ?t] stop_rank_cong [of ?t s]
  have "stop_rank s' < stop_rank s \<or> mgr s' = mgr s \<and> threads s' = threads s" by force
  with ih one(2) show ?case by simp
qed simp

lemma round_stop:
  assumes inv: "sys_inv s" and i: "g_interrupt (q s)" and r: "fair_round (length (threads s)) r"
    and m: "mgr s = Some m"
  shows "stop_rank (foldl q_step s r) < stop_rank s"
proof (rule ccontr)
  assume stuck: "\<not> stop_rank (foldl q_step s r) < stop_rank s"
  note nui = fair_roundD(1) [OF r]
  have no: "\<not> stop_rank (q_step t e) < stop_rank t" "sys_inv t" "g_interrupt (q t)" "mgr t = mgr s" "threads t = threads s"
    if es: "r = es1 @ e # es2" "t = foldl q_step s es1" for es1 e es2 t
  proof -
    have t: "sys_inv t \<and> g_interrupt (q t) \<and> length (threads t) = length (threads s)
        \<and> (stop_rank t < stop_rank s \<or> mgr t = mgr s \<and> threads t = threads s)"
      using run_stop [OF inv i _ es(2)] nui es(1) by auto
    have e: "\<not> is_ui e" using nui es(1) by simp
    have rest: "stop_rank (foldl q_step s r) \<le> stop_rank (q_step t e)"
      using run_stop [OF q_step_inv, of t e es2, OF _ q_step_stop(1)] t e nui es
      by (auto simp: stop_rank_def)
    have le: "stop_rank (q_step t e) \<le> stop_rank t" "stop_rank t \<le> stop_rank s"
      using q_step_stop(3) [of t e] t e by (auto simp: stop_rank_def)
    from t show "sys_inv t" "g_interrupt (q t)" by auto
    from rest le stuck show "\<not> stop_rank (q_step t e) < stop_rank t" by linarith
    from rest le stuck have "\<not> stop_rank t < stop_rank s" by linarith
    with t show "mgr t = mgr s" "threads t = threads s" by auto
  qed
  have ex: "\<forall>t \<in> set (threads s). snd t = P_Exit"
    unfolding all_set_conv_all_nth
  proof (intro allI impI)
    fix n assume n: "n < length (threads s)"
    obtain x where "Ev_Thread n x \<in> set r" using fair_roundD(2) [OF r n] by blast
    then obtain es1 es2 where es: "r = es1 @ Ev_Thread n x # es2" by (meson split_list)
    note t = no [OF es refl]
    show "snd (threads s ! n) = P_Exit"
      using thread_run_stop(5) [OF t(3), of n x] t(1,5) n by (auto simp: q_step_def)
  qed
  obtain x where "Ev_Manager x \<in> set r" using fair_roundD(3) [OF r] by blast
  then obtain es1 es2 where es: "r = es1 @ Ev_Manager x # es2" by (meson split_list)
  note t = no [OF es refl]
  from mgr_progress [OF t(2,3)] t(1,4,5) m ex show False by auto
qed

lemma mgr_none_stays:
  "mgr s = None \<Longrightarrow> \<forall>e \<in> set es. \<not> is_ui e \<Longrightarrow> mgr (foldl q_step s es) = None"
proof (induction es arbitrary: s)
  case (Cons e es)
  have "mgr (q_step s e) = None"
    using Cons.prems by (cases e) (auto simp: q_step_def thread_run_def is_ui_def split: prod.splits)
  then show ?case using Cons by simp
qed simp

lemma rounds_stop:
  assumes "sys_inv s" and "g_interrupt (q s)" and "\<forall>r \<in> set rs. fair_round (length (threads s)) r"
    and "stop_rank s \<le> length rs"
  shows "mgr (foldl q_step s (concat rs)) = None"
  using assms
proof (induction rs arbitrary: s)
  case Nil
  then show ?case by (cases "mgr s"; cases "the (mgr s)") (auto simp: stop_rank_def)
next
  case (Cons r rs)
  show ?case
  proof (cases "mgr s")
    case None
    then show ?thesis using Cons.prems(3) fair_roundD(1) by (intro mgr_none_stays) auto
  next
    case (Some m)
    let ?t = "foldl q_step s r"
    have r: "fair_round (length (threads s)) r" using Cons.prems(3) by simp
    from run_stop [OF Cons.prems(1,2) fair_roundD(1) [OF r] refl]
    have "sys_inv ?t" "g_interrupt (q ?t)" "length (threads ?t) = length (threads s)" by auto
    with Cons.IH [of ?t] Cons.prems round_stop [OF Cons.prems(1,2) r Some] show ?thesis by simp
  qed
qed

text \<open>C15 (termination): once the interrupt flag is set, the manager thread ends, so the join of
  a cancel or a handoff returns: from every reachable state, any schedule made of enough rounds in
  which each thread and the manager get a step, whatever the answers of the network and the
  file system, leaves no manager. The number of rounds is at most nine for each thread plus
  2055.\<close>

theorem scrape_stop_terminates:
  assumes "s = foldl q_step q_start es" and "g_interrupt (q s)"
    and "list_all (fair_round (length (threads s))) rs" and "stop_rank s \<le> length rs"
  shows "mgr (foldl q_step s (concat rs)) = None"
  using rounds_stop [of s rs] scrape.inv_run assms by (auto simp: list_all_iff)

section \<open>Examples\<close>

text \<open>A run used as an example: one artwork item is queued, the manager starts and claims it.\<close>

definition ex_answers :: ext where
  "ex_answers = \<lparr>x_search = 0, x_api = (1, 100, 2), x_err = None, x_download = 0, x_exists = False,
     x_repo_init = True, x_init_ok = True, x_update_busy = False, x_checkout_ok = True, x_build = None,
     x_regions_ok = True, x_match = None, x_copy_ok = True, x_create_ok = True, x_types_ok = True, x_started = 2\<rparr>"

definition ex_rom :: rom_file where
  "ex_rom = \<lparr>rf_name = ''a'', rf_path = ''/r/a'', rf_display = ''a'', rf_label = [], rf_multi_disc = False, rf_cue_folder = False, rf_disabled = False\<rparr>"

definition ex_console :: console_dir where
  "ex_console = \<lparr>cd_name = ''G'', cd_tag = ''GB'', cd_path = ''/r'', cd_display = ''G'', cd_disabled = False\<rparr>"

definition ex_mapping :: sg_mapping where
  "ex_mapping = \<lparr>mp_hidden = False, mp_platform = Some (9, Some ''d'')\<rparr>"

definition ex_run :: "q_event list" where
  "ex_run = [Ev_Ui (U_Add QUEUE_TYPE_ARTWORK ex_rom ex_console False ex_mapping False), Ev_Ui (U_Ensure True)]
     @ replicate 8 (Ev_Manager ex_answers)"

lemma ex_run_eval:
  "holds (all_threads (foldl q_step q_start ex_run)) 0
     = Some (0, new_item 1 QUEUE_TYPE_ARTWORK ex_rom ex_console 9 [] False)"
  by code_simp



lemma ex_stop_eval:
  "stop_rank (foldl q_step q_start (ex_run @ [Ev_Ui U_Interrupt])) = 14"
  "g_interrupt (q (foldl q_step q_start (ex_run @ [Ev_Ui U_Interrupt])))"
  "threads (foldl q_step q_start (ex_run @ [Ev_Ui U_Interrupt])) = []"
  by code_simp+

theorem scrape_exclusive_claims_witness:
  "active (g_items (q (foldl q_step q_start ex_run)) ! 0)"
  using scrape_exclusive_claims [OF refl ex_run_eval] by blast



theorem scrape_stop_terminates_witness:
  "mgr (foldl q_step (foldl q_step q_start (ex_run @ [Ev_Ui U_Interrupt]))
     (concat (replicate 14 [Ev_Manager ex_answers]))) = None"
  by (rule scrape_stop_terminates [OF refl])
    (simp_all only: ex_stop_eval, simp_all add: fair_round_def is_ui_def list_all_iff)

end
