(* ===== verification/Scrape_Handoff.thy ===== *)
theory Scrape_Handoff
  imports Scrape_Props
begin

text \<open>
  The sequential operations of the scraper's queue between runs of its threads: the counts of
  \<^verbatim>\<open>queue_get_stats\<close>, cancelling, and the handoff of the queue to another process
  (\<^verbatim>\<open>queue_handoff_snapshot\<close>, then \<^verbatim>\<open>queue_load_items\<close> in the other).
\<close>

section \<open>The outcome of an item\<close>

text \<open>The steps of a thread on the item it holds, one answer of the outside world for each.\<close>

fun serve :: "kind \<Rightarrow> ext list \<Rightarrow> queue_state \<times> cheat_state \<times> batch \<times> phase \<Rightarrow> queue_state \<times> cheat_state \<times> batch \<times> phase" where
  "serve k [] r = r"
| "serve k (x # xs) (s, c, b, p) = (if held p = None then (s, c, b, p) else serve k xs (thread_step k x s c b p))"

lemma serve_free: "held p = None \<Longrightarrow> serve k xs (s, c, b, p) = (s, c, b, p)"
  by (cases xs) simp_all

lemma serve_download:
  "serve k (x # y # xs) (s, c, b, P_Download i item) =
     (if x_download x = -2 \<and> k \<noteq> K_First (kind_type k) then (s, c, b, P_Exit)
      else if x_download x = 0 then (set_item_status s i QUEUE_DONE, c, b, loop_head k)
      else (set_item_error s i QUEUE_ERROR (err_text (x_err x) ''Download failed''), c, b, loop_head k))"
  by (simp add: after_download_def serve_free)

lemma serve_search:
  "\<exists>s1 b1. g_items s1 = g_items s \<and> serve k (x # u # y # z # xs) (s, c, b, P_Search i item) =
     (if x_search x = -2 then (s1, c, b1, P_Exit)
      else if x_search x = 1 then (set_item_status s1 i QUEUE_NOT_FOUND, c, b1, loop_head k)
      else if x_search x \<noteq> 0 then (set_item_error s1 i QUEUE_ERROR (err_text (x_err x) ''Search failed''), c, b1, loop_head k)
      else serve k (y # z # xs) (set_item_status s1 i QUEUE_DOWNLOADING, c, b1, P_Download i item))"
proof -
  obtain s1 b1 where st: "thread_step k x s c b (P_Search i item) = (s1, c, b1, after_search i item x)"
    and g: "g_items s1 = g_items s" by (cases "x_search x \<ge> 0") simp_all
  show ?thesis
    by (rule exI [of _ s1], rule exI [of _ b1])
      (simp add: st g after_search_def serve_free del: thread_step.simps(5))
qed

text \<open>C17 (error): what a media worker makes of the item it has claimed, on every answer of the
  network: not found, failed with a message, done, or, when interrupted, left as it is for the
  handoff with the thread gone. The first item of a batch, which the manager serves itself,
  differs in one case: an interrupted download is recorded as an error. No other item is
  touched.\<close>

theorem scrape_media_outcome:
  assumes "serve k [x1, x2, x3, x4] (s, c, b, P_Search i item) = (s', c', b', p')"
    and "k = K_Worker ty \<or> k = K_First ty" and "i < length (g_items s)"
  shows "length (g_items s') = length (g_items s)
    \<and> (\<forall>j. j \<noteq> i \<longrightarrow> g_items s' ! j = g_items s ! j) \<and> held p' = None
    \<and> same_job (g_items s' ! i) (g_items s ! i)
    \<and> (if x_search x1 = -2 then g_items s' ! i = g_items s ! i \<and> p' = P_Exit
       else if x_search x1 = 1 then q_status (g_items s' ! i) = QUEUE_NOT_FOUND
       else if x_search x1 \<noteq> 0
       then q_status (g_items s' ! i) = QUEUE_ERROR
         \<and> q_error_msg (g_items s' ! i) = fit 256 (err_text (x_err x1) ''Search failed'')
       else if x_download x3 = 0 then q_status (g_items s' ! i) = QUEUE_DONE
       else if x_download x3 = -2 \<and> k = K_Worker ty then q_status (g_items s' ! i) = QUEUE_DOWNLOADING \<and> p' = P_Exit
       else q_status (g_items s' ! i) = QUEUE_ERROR
         \<and> q_error_msg (g_items s' ! i) = fit 256 (err_text (x_err x3) ''Download failed''))"
proof -
  obtain s1 b1 where g: "g_items s1 = g_items s" and
    sv: "serve k [x1, x2, x3, x4] (s, c, b, P_Search i item) =
     (if x_search x1 = -2 then (s1, c, b1, P_Exit)
      else if x_search x1 = 1 then (set_item_status s1 i QUEUE_NOT_FOUND, c, b1, loop_head k)
      else if x_search x1 \<noteq> 0 then (set_item_error s1 i QUEUE_ERROR (err_text (x_err x1) ''Search failed''), c, b1, loop_head k)
      else serve k [x3, x4] (set_item_status s1 i QUEUE_DOWNLOADING, c, b1, P_Download i item))"
    using serve_search [where xs = "[]"] by blast
  have kt: "k = K_First (kind_type k) \<longleftrightarrow> k \<noteq> K_Worker ty" using assms(2) by (auto simp: kind_type_def)
  note r = assms(1) [unfolded sv serve_download]
  consider "x_search x1 = -2" | "x_search x1 = 1" | "x_search x1 \<notin> {-2, 0, 1}" | "x_search x1 = 0" by auto
  then show ?thesis
    by cases (use r assms(3) g kt in \<open>auto simp: set_item_items split: if_splits\<close>)
qed

text \<open>An example: the manager serves the first item and the download is interrupted.\<close>

theorem scrape_media_outcome_witness:
  "q_status (g_items (fst (serve (K_First QUEUE_TYPE_ARTWORK) (replicate 4 (ex_answers\<lparr>x_download := -2\<rparr>))
     (queue_zero\<lparr>g_items := [new_item 1 QUEUE_TYPE_ARTWORK ex_rom ex_console 9 [] False]\<rparr>, \<lparr>ch_cache = [], ch_ready = False\<rparr>,
      \<lparr>b_indices = [0], b_next = 0, b_max_threads = 1\<rparr>,
      P_Search 0 (new_item 1 QUEUE_TYPE_ARTWORK ex_rom ex_console 9 [] False)))) ! 0) = QUEUE_ERROR"
proof -
  let ?x = "ex_answers\<lparr>x_download := -2\<rparr>" and ?it = "new_item 1 QUEUE_TYPE_ARTWORK ex_rom ex_console 9 [] False"
  let ?s = "queue_zero\<lparr>g_items := [?it]\<rparr>" and ?c = "\<lparr>ch_cache = [], ch_ready = False\<rparr>"
    and ?b = "\<lparr>b_indices = [0], b_next = 0, b_max_threads = 1\<rparr>"
  obtain s' c' b' p' where r: "serve (K_First QUEUE_TYPE_ARTWORK) [?x, ?x, ?x, ?x] (?s, ?c, ?b, P_Search 0 ?it) = (s', c', b', p')"
    by (metis prod_cases4)
  have "x_search ?x = 0" "x_download ?x = -2" by (simp_all add: ex_answers_def)
  with scrape_media_outcome [OF r, of QUEUE_TYPE_ARTWORK] have "q_status (g_items s' ! 0) = QUEUE_ERROR" by simp
  moreover have "replicate 4 ?x = [?x, ?x, ?x, ?x]" by (simp add: numeral_eq_Suc)
  ultimately show ?thesis using r by simp
qed

section \<open>Counting and cancelling\<close>

lemma count_stats_sum:
  "qs_done (foldl count_stats st its) + qs_failed (foldl count_stats st its) + qs_pending (foldl count_stats st its)
     = qs_done st + qs_failed st + qs_pending st + length its"
  "qs_total (foldl count_stats st its) = qs_total st"
  "qs_pending (foldl count_stats st its) = qs_pending st + length (filter (\<lambda>it. \<not> is_terminal_status (q_status it)) its)"
  by (induction its arbitrary: st) (auto simp: count_stats_def is_terminal_status_def)

lemma stats_sum:
  "qs_total (queue_get_stats s) = qs_done (queue_get_stats s) + qs_failed (queue_get_stats s) + qs_pending (queue_get_stats s)"
  "qs_total (queue_get_stats s) = length (g_items s)"
  "qs_pending (queue_get_stats s) = 0 \<longleftrightarrow> \<not> queue_has_non_terminal_locked s"
proof -
  let ?z = "\<lparr>qs_total = length (g_items s), qs_done = 0, qs_failed = 0, qs_pending = 0\<rparr>"
  show "qs_total (queue_get_stats s) = length (g_items s)" by (simp add: queue_get_stats_def count_stats_sum(2))
  then show "qs_total (queue_get_stats s) = qs_done (queue_get_stats s) + qs_failed (queue_get_stats s) + qs_pending (queue_get_stats s)"
    using count_stats_sum(1) [of ?z "g_items s"] by (simp add: queue_get_stats_def)
  show "qs_pending (queue_get_stats s) = 0 \<longleftrightarrow> \<not> queue_has_non_terminal_locked s"
    by (simp add: queue_get_stats_def count_stats_sum(3) queue_has_non_terminal_locked_def list_ex_iff filter_empty_conv)
qed

lemma cancel_item_fields:
  "is_terminal_status (q_status (cancel_item it))"
  "q_status (cancel_item it) = (if is_terminal_status (q_status it) then q_status it else QUEUE_SKIPPED)"
  "same_job (cancel_item it) it"
  by (simp_all add: cancel_item_def is_terminal_status_def)

lemma failed_count:
  "qs_failed (foldl count_stats st its) = qs_failed st
     + length (filter (\<lambda>it. q_status it = QUEUE_NOT_FOUND \<or> q_status it = QUEUE_ERROR) its)"
  by (induction its arbitrary: st) (auto simp: count_stats_def)

lemma cancel_failed:
  "(q_status (cancel_item it) = QUEUE_NOT_FOUND \<or> q_status (cancel_item it) = QUEUE_ERROR)
     = (q_status it = QUEUE_NOT_FOUND \<or> q_status it = QUEUE_ERROR)"
  by (auto simp: cancel_item_def is_terminal_status_def)

lemma cancel_all_items: "g_items (queue_cancel_all s) = map cancel_item (g_items s)"
  by (simp add: queue_cancel_all_def stop_manager_for_transition_def Let_def)

text \<open>C40 (functional): cancelling leaves nothing pending and loses nothing: the totals agree with
  the counts before, what had failed still counts as failed, what was pending now counts as
  done (skipped), each item is still the same job, and the mapping editor, the clearing of the
  list and the invalidation of the cheat repository are no longer refused.\<close>

theorem queue_cancel_all_counts:
  "let s' = queue_cancel_all s; a = queue_get_stats s; b = queue_get_stats s' in
     qs_total b = qs_total a \<and> qs_pending b = 0 \<and> qs_failed b = qs_failed a
   \<and> qs_done b = qs_done a + qs_pending a
   \<and> list_all2 same_job (g_items s') (g_items s)
   \<and> fst (queue_begin_mapping_edit s') \<and> queue_invalidate_cheat_repo_state s'
   \<and> g_items (queue_clear_done s') = []"
proof -
  let ?s' = "queue_cancel_all s"
  have none: "\<not> queue_has_non_terminal_locked ?s'" "\<not> queue_has_idle_items_locked ?s'"
    by (auto simp: queue_has_non_terminal_locked_def queue_has_idle_items_locked_def cancel_all_items list_ex_iff
        cancel_item_def is_terminal_status_def)
  have pend: "qs_pending (queue_get_stats ?s') = 0" using stats_sum(3) none(1) by blast
  have fail: "qs_failed (queue_get_stats ?s') = qs_failed (queue_get_stats s)"
    by (simp add: queue_get_stats_def failed_count cancel_all_items filter_map o_def cancel_failed)
  have tot: "qs_total (queue_get_stats ?s') = qs_total (queue_get_stats s)"
    by (simp add: stats_sum(2) cancel_all_items)
  have "qs_done (queue_get_stats ?s') = qs_done (queue_get_stats s) + qs_pending (queue_get_stats s)"
    using pend fail tot stats_sum(1) [of s] stats_sum(1) [of ?s'] by linarith
  moreover have "list_all2 same_job (g_items ?s') (g_items s)"
    by (simp add: cancel_all_items list_all2_map1 list_all2_same cancel_item_fields)
  moreover have "fst (queue_begin_mapping_edit ?s')"
    using none by (simp add: queue_begin_mapping_edit_def queue_has_unfinished_work_def stop_manager_for_transition_def
        queue_has_non_terminal_locked_def queue_has_idle_items_locked_def Let_def)
  ultimately show ?thesis
    using pend fail tot none by (simp add: queue_invalidate_cheat_repo_state_def clear_done_items)
qed

section \<open>Handoff\<close>

text \<open>A cheat item that can be restored as it is.\<close>

definition cheat_target_ok :: "(queue_item \<Rightarrow> bool) \<Rightarrow> queue_item \<Rightarrow> bool" where
  "cheat_target_ok valid it \<longleftrightarrow>
     q_type it = QUEUE_TYPE_CHEAT \<and> \<not> is_terminal_status (q_status it) \<longrightarrow> q_cheat_dir it \<noteq> [] \<and> valid it"

lemma reset_item_idem:
  "reset_item (reset_item it) = reset_item it" "q_cheat_dir (reset_item it) = q_cheat_dir it"
  "is_terminal_status (q_status (reset_item it)) \<longleftrightarrow> is_terminal_status (q_status it)"
  by (simp_all add: reset_item_def is_terminal_status_def)

lemma restore_same:
  assumes "cheat_target_ok valid (reset_item it)"
  shows "restore_cheat_target_locked (reset_item it) (valid (reset_item it)) m = reset_item it"
  using assms by (auto simp: cheat_target_ok_def restore_cheat_target_locked_def)

lemma word_suc_less: "(w :: u32) \<noteq> - 1 \<Longrightarrow> w < w + 1"
proof -
  assume "w \<noteq> - 1"
  then have "1 + w \<noteq> 0" by (metis add_eq_0_iff2 minus_minus add.inverse_inverse eq_neg_iff_add_eq_0 add.commute)
  from unatSuc [OF this] show ?thesis by (simp add: word_less_nat_alt add.commute)
qed

lemma bump_id_above:
  assumes "\<forall>it \<in> set its. q_id it \<noteq> - 1" and "foldl bump_id nxt its = n"
  shows "nxt \<le> n \<and> (\<forall>it \<in> set its. q_id it < n)"
  using assms
proof (induction its arbitrary: nxt)
  case (Cons it its)
  have up: "q_id it < q_id it + 1" using Cons.prems(1)
    by (simp add: word_suc_less)
  with Cons.IH [of "bump_id nxt it"] Cons.prems show ?case
    by (auto simp: bump_id_def split: if_splits)
qed simp

lemma load_snapshot:
  assumes n: "length items \<le> 2048" and ok: "list_all (cheat_target_ok valid) (map reset_item items)"
    and load: "queue_load_items s (map reset_item items) valid resolve = (r, pending)"
  shows "g_items r = map reset_item items"
    "pending \<longleftrightarrow> list_ex (\<lambda>it. \<not> is_terminal_status (q_status it)) items"
    "g_next_item_id r = foldl bump_id (g_next_item_id s) (map reset_item items)"
proof -
  have same: "restore_cheat_target_locked (reset_item (reset_item it)) (valid (reset_item it)) (resolve (reset_item it))
      = reset_item it" if "it \<in> set items" for it
    using restore_same [of valid it "resolve (reset_item it)"] ok that by (simp add: reset_item_idem list_all_iff)
  then have ld: "map (\<lambda>it. restore_cheat_target_locked (reset_item it) (valid it) (resolve it)) (map reset_item items)
      = map reset_item items" by simp
  have "take 2048 (map reset_item items) = map reset_item items" using n by simp
  from load [unfolded queue_load_items_def Let_def this ld]
  show "g_items r = map reset_item items"
    "g_next_item_id r = foldl bump_id (g_next_item_id s) (map reset_item items)"
    "pending \<longleftrightarrow> list_ex (\<lambda>it. \<not> is_terminal_status (q_status it)) items"
    by (auto simp: list_ex_iff reset_item_idem)
qed

text \<open>C19 (roundtrip): a queue handed to another process arrives complete: the loaded queue has the
  same items in the same order, finished items with their results, every unfinished one as the
  same job waiting again with its message cleared, the loader knows whether work is pending, and
  new items get ids above all loaded ones. This holds when the saved cheat targets are valid and
  no id is the largest one.\<close>

theorem queue_handoff_roundtrip:
  assumes "length (g_items s) \<le> QUEUE_MAX_ITEMS"
    and "queue_handoff_snapshot s QUEUE_MAX_ITEMS = (s', snap)"
    and "list_all (cheat_target_ok valid) snap" and "list_all (\<lambda>it. q_id it \<noteq> - 1) snap"
    and "queue_load_items fresh snap valid resolve = (r, pending)"
  shows "length (g_items r) = length (g_items s)
    \<and> (pending \<longleftrightarrow> queue_has_non_terminal_locked s)
    \<and> list_all2 (\<lambda>new old. if is_terminal_status (q_status old) then new = old
          else same_job new old \<and> q_status new = QUEUE_IDLE \<and> q_error_msg new = []) (g_items r) (g_items s)
    \<and> list_all (\<lambda>it. q_id it < g_next_item_id r) (g_items r)"
proof -
  have snap: "snap = map reset_item (g_items s)"
    using assms(1,2) by (auto simp: queue_handoff_snapshot_def stop_manager_for_transition_def Let_def)
  note r = load_snapshot [OF assms(1,3,5) [unfolded snap]]
  have "list_all (\<lambda>it. q_id it < g_next_item_id r) (g_items r)"
    using bump_id_above [OF _ r(3) [symmetric]] assms(4) by (simp add: r(1) snap list_all_iff)
  moreover have "list_all2 (\<lambda>new old. if is_terminal_status (q_status old) then new = old
          else same_job new old \<and> q_status new = QUEUE_IDLE \<and> q_error_msg new = []) (g_items r) (g_items s)"
    by (simp add: r(1) list_all2_map1 list_all2_same reset_item_def)
  ultimately show ?thesis by (simp add: r(1,2) queue_has_non_terminal_locked_def)
qed

text \<open>An example: one finished and one interrupted artwork item.\<close>

definition ex_handoff :: queue_state where
  "ex_handoff = queue_zero\<lparr>g_items := [(new_item 1 QUEUE_TYPE_ARTWORK ex_rom ex_console 9 [] False)\<lparr>q_status := QUEUE_DONE\<rparr>,
     (new_item 2 QUEUE_TYPE_MANUAL ex_rom ex_console 9 [] False)\<lparr>q_status := QUEUE_DOWNLOADING\<rparr>]\<rparr>"

theorem queue_handoff_roundtrip_witness:
  "length (g_items (fst (queue_load_items queue_zero (snd (queue_handoff_snapshot ex_handoff 2048)) (\<lambda>it. True) (\<lambda>it. ex_mapping)))) = 2"
proof -
  let ?h = "queue_handoff_snapshot ex_handoff 2048"
  let ?l = "queue_load_items queue_zero (snd ?h) (\<lambda>it. True) (\<lambda>it. ex_mapping)"
  have items: "snd ?h = map reset_item (g_items ex_handoff)"
    by (simp add: queue_handoff_snapshot_def stop_manager_for_transition_def Let_def ex_handoff_def)
  have "list_all (\<lambda>it. q_id it \<noteq> - 1) (snd ?h)" "list_all (cheat_target_ok (\<lambda>it. True)) (snd ?h)"
    unfolding items by (simp_all add: ex_handoff_def reset_item_def new_item_def is_terminal_status_def cheat_target_ok_def)
  moreover have "length (g_items ex_handoff) = 2" by (simp add: ex_handoff_def)
  ultimately show ?thesis
    using queue_handoff_roundtrip [of ex_handoff "fst ?h" "snd ?h" "\<lambda>it. True" queue_zero "\<lambda>it. ex_mapping" "fst ?l" "snd ?l"]
    by simp
qed

end
