(* ===== verification/Input_Manager.thy ===== *)
theory Input_Manager
  imports C_Strings
begin

text \<open>
  The client of the input service InputPlumber: \<^verbatim>\<open>zlyme-input/order.c\<close>, \<^verbatim>\<open>lifecycle.c\<close> and
  \<^verbatim>\<open>zlyme-input.c\<close>. The service is reached over D-Bus and is not part of the repository: it is the
  parameter \<open>P\<close>, one function for each call of the program, which takes the state of the outside
  world and returns the reply, if there is one, and the next state. What the program prints
  for diagnosis is left out.
\<close>

section \<open>Player order\<close>

definition is_builtin :: "string \<Rightarrow> string option \<Rightarrow> bool" where
  "is_builtin builtin_name name = (name = Some builtin_name)"

text \<open>The two loops over the parallel arrays. The paths are compared as pointers, so they are
  values of any type here, and the caller pairs each string with its address. When the counts
  disagree the array is not reported as changed.\<close>

definition zlyme_order_builtin_last :: "'p list \<Rightarrow> string option list \<Rightarrow> string \<Rightarrow> bool \<times> 'p list" where
  "zlyme_order_builtin_last paths names builtin_name =
     (let rows = zip paths names;
          dst = map fst (filter (\<lambda>r. \<not> is_builtin builtin_name (snd r)) rows)
              @ map fst (filter (\<lambda>r. is_builtin builtin_name (snd r)) rows)
      in if length dst \<noteq> length paths then (False, dst)
         else (list_ex (\<lambda>(d, p). d \<noteq> p) (zip dst paths), dst))"

section \<open>Lifecycle\<close>

definition zlyme_release_done :: "bool \<Rightarrow> bool \<Rightarrow> bool" where
  "zlyme_release_done composite_present gamepad_target_present \<longleftrightarrow> \<not> composite_present \<and> \<not> gamepad_target_present"

definition zlyme_reclaim_done :: "bool \<Rightarrow> bool \<Rightarrow> bool" where
  "zlyme_reclaim_done composite_present gamepad_target_present \<longleftrightarrow> composite_present \<and> gamepad_target_present"

definition zlyme_should_activate :: "bool \<Rightarrow> bool \<Rightarrow> bool" where
  "zlyme_should_activate has_owner manager_is_ready \<longleftrightarrow> has_owner \<and> manager_is_ready"

definition zlyme_should_deactivate :: "bool \<Rightarrow> bool" where
  "zlyme_should_deactivate has_owner \<longleftrightarrow> \<not> has_owner"

section \<open>The objects of the service\<close>

record device =
  dv_path :: string
  dv_name :: string
  dv_has_gamepad :: bool

text \<open>The reply of \<^verbatim>\<open>GetManagedObjects\<close>: object paths with their interfaces and properties.\<close>

datatype variant = V_String string | V_Array "string list" | V_Other

type_synonym props = "(string \<times> variant) list"
type_synonym objects = "(string \<times> (string \<times> props) list) list"

abbreviation (input) "COMPOSITE_IFACE \<equiv> ''org.shadowblip.Input.CompositeDevice''"
abbreviation (input) "MANAGER_IFACE \<equiv> ''org.shadowblip.InputManager''"
abbreviation (input) "BUS_NAME \<equiv> ''org.shadowblip.InputPlumber''"
abbreviation (input) "BUILTIN_NAME \<equiv> ''Miyoo Flip Gamepad''"

definition dup_basic_string :: "variant \<Rightarrow> string option" where
  "dup_basic_string v = (case v of V_String s \<Rightarrow> Some s | _ \<Rightarrow> None)"

definition array_has_gamepad_target :: "variant \<Rightarrow> bool" where
  "array_has_gamepad_target v =
     (case v of V_Array ss \<Rightarrow> list_ex (\<lambda>s. has_substring ''/devices/target/gamepad'' s) ss | _ \<Rightarrow> False)"

text \<open>The inner loop over the properties of one interface.\<close>

fun composite_props :: "props \<Rightarrow> string option \<times> bool \<Rightarrow> string option \<times> bool" where
  "composite_props [] r = r"
| "composite_props ((key, v) # ps) (name, pad) =
     composite_props ps
       (if key = ''Name'' \<and> name = None then dup_basic_string v else name,
        pad \<or> key = ''TargetDevices'' \<and> array_has_gamepad_target v)"

fun composite_fields :: "(string \<times> props) list \<Rightarrow> string option \<times> bool \<Rightarrow> string option \<times> bool" where
  "composite_fields [] r = r"
| "composite_fields ((iface, ps) # ifs) r =
     composite_fields ifs (if iface = COMPOSITE_IFACE then composite_props ps r else r)"

fun composites_of :: "objects \<Rightarrow> device list" where
  "composites_of [] = []"
| "composites_of ((path, ifs) # objs) =
     (case composite_fields ifs (None, False) of
        (Some name, pad) \<Rightarrow>
          if has_substring ''/CompositeDevice'' path
          then \<lparr>dv_path = path, dv_name = name, dv_has_gamepad = pad\<rparr> # composites_of objs else composites_of objs
      | (None, pad) \<Rightarrow> composites_of objs)"

definition find_builtin :: "device list \<Rightarrow> device option" where
  "find_builtin devs = find (\<lambda>d. dv_name d = BUILTIN_NAME) devs"

definition builtin_state :: "device list \<Rightarrow> bool \<times> bool" where
  "builtin_state devs =
     (case find_builtin devs of None \<Rightarrow> (False, False) | Some d \<Rightarrow> (True, dv_has_gamepad d))"

section \<open>The calls\<close>

text \<open>The functions of the bus and of the service the program uses; the clock is in milliseconds.\<close>

record 's plumber =
  p_up :: "'s \<Rightarrow> bool \<times> 's"
  p_objects :: "'s \<Rightarrow> objects option \<times> 's"
  p_get_order :: "'s \<Rightarrow> string list option \<times> 's"
  p_set_order :: "string list \<Rightarrow> 's \<Rightarrow> unit option \<times> 's"
  p_get_manage :: "'s \<Rightarrow> bool option \<times> 's"
  p_set_manage :: "bool \<Rightarrow> 's \<Rightarrow> unit option \<times> 's"
  p_rescan :: "'s \<Rightarrow> unit option \<times> 's"
  p_stop :: "string \<Rightarrow> 's \<Rightarrow> unit option \<times> 's"
  p_wait :: "int \<Rightarrow> 's \<Rightarrow> 's"
  p_clock :: "'s \<Rightarrow> int"

definition list_composites :: "'s plumber \<Rightarrow> 's \<Rightarrow> device list option \<times> 's" where
  "list_composites P s = (let (r, s) = p_objects P s in (map_option composites_of r, s))"

definition name_of :: "device list \<Rightarrow> string \<Rightarrow> string option" where
  "name_of devs path = map_option dv_name (find (\<lambda>d. dv_path d = path) devs)"

text \<open>The paths of the current order with the names of their devices, then the devices the order
  does not have yet.\<close>

definition order_rows :: "device list \<Rightarrow> string list \<Rightarrow> (string \<times> string) list" where
  "order_rows devs order =
     map (\<lambda>p. (p, case name_of devs p of None \<Rightarrow> [] | Some n \<Rightarrow> n)) order
     @ map (\<lambda>d. (dv_path d, dv_name d)) (filter (\<lambda>d. \<not> list_ex (\<lambda>p. p = dv_path d) order) devs)"

definition reconcile :: "'s plumber \<Rightarrow> 's \<Rightarrow> int \<times> 's" where
  "reconcile P s =
     (case list_composites P s of
        (None, s) \<Rightarrow> (1, s)
      | (Some devs, s) \<Rightarrow>
        case p_get_order P s of
          (None, s) \<Rightarrow> (1, s)
        | (Some order, s) \<Rightarrow>
            let rows = order_rows devs order;
                (changed, dst) = zlyme_order_builtin_last (zip [0..<length rows] (map fst rows))
                                   (map (\<lambda>r. Some (snd r)) rows) BUILTIN_NAME
            in if changed
               then (case p_set_order P (map snd dst) s of (None, s) \<Rightarrow> (1, s) | (Some u, s) \<Rightarrow> (0, s))
               else (0, s))"

section \<open>Waiting\<close>

text \<open>The polling loop; \<open>None\<close> is a loop that does not end.\<close>

partial_function (option) wait_loop :: "'s plumber \<Rightarrow> bool \<Rightarrow> int \<Rightarrow> 's \<Rightarrow> (int \<times> 's) option" where
  "wait_loop P want_ready deadline s =
     (case list_composites P s of
        (None, s) \<Rightarrow> Some (1, s)
      | (Some devs, s) \<Rightarrow>
          let (present, gamepad) = builtin_state devs
          in if (if want_ready then zlyme_reclaim_done present gamepad else zlyme_release_done present gamepad)
             then Some (0, s)
             else if p_clock P s \<ge> deadline then Some (1, s)
             else wait_loop P want_ready deadline (p_wait P (min 200 (deadline - p_clock P s)) s))"

definition wait_until :: "'s plumber \<Rightarrow> bool \<Rightarrow> 's \<Rightarrow> (int \<times> 's) option" where
  "wait_until P want_ready s = wait_loop P want_ready (p_clock P s + 3000) s"

section \<open>The commands\<close>

definition cmd_release :: "'s plumber \<Rightarrow> 's \<Rightarrow> (int \<times> 's) option" where
  "cmd_release P s =
     (case p_up P s of
        (False, s) \<Rightarrow> Some (1, s)
      | (True, s) \<Rightarrow>
        case list_composites P s of
          (None, s) \<Rightarrow> Some (1, s)
        | (Some devs, s) \<Rightarrow>
            if (case builtin_state devs of (present, gamepad) \<Rightarrow> zlyme_release_done present gamepad) then Some (0, s)
            else case find_builtin devs of
                None \<Rightarrow> Some (1, s)
              | Some d \<Rightarrow>
                  case p_stop P (dv_path d) s of
                    (None, s) \<Rightarrow> Some (1, s)
                  | (Some u, s) \<Rightarrow>
                      map_option (\<lambda>(rc, s). (if rc \<noteq> 0 then 1 else 0, s)) (wait_until P False s))"

definition cmd_reclaim :: "'s plumber \<Rightarrow> 's \<Rightarrow> (int \<times> 's) option" where
  "cmd_reclaim P s =
     (case p_up P s of
        (False, s) \<Rightarrow> Some (1, s)
      | (True, s) \<Rightarrow>
        case list_composites P s of
          (None, s) \<Rightarrow> Some (1, s)
        | (Some devs, s) \<Rightarrow>
            if (case builtin_state devs of (present, gamepad) \<Rightarrow> zlyme_reclaim_done present gamepad)
            then Some (0, snd (reconcile P s))
            else case p_rescan P s of
                (None, s) \<Rightarrow> Some (1, s)
              | (Some u, s) \<Rightarrow>
                  case wait_until P True s of
                    None \<Rightarrow> None
                  | Some (rc, s) \<Rightarrow>
                      if rc \<noteq> 0 then Some (1, s)
                      else case reconcile P s of (rc, s) \<Rightarrow> Some (if rc \<noteq> 0 then 1 else 0, s))"

definition cmd_ensure :: "'s plumber \<Rightarrow> 's \<Rightarrow> (int \<times> 's) option" where
  "cmd_ensure P s = (case p_up P s of (False, s) \<Rightarrow> Some (0, s) | (True, s) \<Rightarrow> cmd_reclaim P s)"

text \<open>\<^verbatim>\<open>status\<close> prints one line; the exit code, the text and the state.\<close>

fun join_names :: "bool \<Rightarrow> device list \<Rightarrow> string" where
  "join_names first [] = []"
| "join_names first (d # ds) = (if first then '' devices='' else '','') @ dv_name d @ join_names False ds"

definition cmd_status :: "'s plumber \<Rightarrow> 's \<Rightarrow> int \<times> string \<times> 's" where
  "cmd_status P s =
     (case p_up P s of
        (False, s) \<Rightarrow> (0, ''unavailable'' @ [CHR 0x0A], s)
      | (True, s) \<Rightarrow>
        case p_get_manage P s of
          (None, s) \<Rightarrow> (1, [], s)
        | (Some manage, s) \<Rightarrow>
          case list_composites P s of
            (None, s) \<Rightarrow> (1, [], s)
          | (Some devs, s) \<Rightarrow>
              (0, ''manage='' @ (if manage then ''1'' else ''0'') @ '' builtin=''
                  @ (if find_builtin devs \<noteq> None then ''virtual'' else ''released'')
                  @ join_names True devs @ [CHR 0x0A], s))"

section \<open>The daemon\<close>

definition manager_ready :: "'s plumber \<Rightarrow> 's \<Rightarrow> bool \<times> 's" where
  "manager_ready P s =
     (case p_up P s of (False, s) \<Rightarrow> (False, s) | (True, s) \<Rightarrow> let (r, s) = p_get_manage P s in (r \<noteq> None, s))"

text \<open>The second argument of \<^verbatim>\<open>zlyme_should_activate\<close> is evaluated first by the calling convention or
  last; both are reads, taken here in the order written.\<close>

definition activate :: "'s plumber \<Rightarrow> 's \<Rightarrow> int \<times> 's" where
  "activate P s =
     (let (up, s) = p_up P s; (ready, s) = manager_ready P s
      in if \<not> zlyme_should_activate up ready then (1, s)
         else case p_set_manage P True s of
                (None, s) \<Rightarrow> (1, s)
              | (Some u, s) \<Rightarrow> (0, snd (reconcile P s)))"

text \<open>A message of the bus: whether it is a signal, its member and its string arguments.\<close>

record dbus_msg =
  dm_signal :: bool
  dm_member :: "string option"
  dm_args :: "string list"

definition arg :: "nat \<Rightarrow> dbus_msg \<Rightarrow> string" where
  "arg i m = (if i < length (dm_args m) then dm_args m ! i else [])"

definition owner_event :: "dbus_msg \<Rightarrow> bool" where
  "owner_event m \<longleftrightarrow> dm_signal m \<and> dm_member m = Some ''NameOwnerChanged'' \<and> arg 0 m = BUS_NAME"

definition interesting :: "dbus_msg \<Rightarrow> bool" where
  "interesting m \<longleftrightarrow> dm_signal m \<and>
     (dm_member m = Some ''InterfacesAdded'' \<or> dm_member m = Some ''InterfacesRemoved''
      \<or> dm_member m = Some ''PropertiesChanged'' \<and> arg 0 m = MANAGER_IFACE)"

definition run_message :: "'s plumber \<Rightarrow> dbus_msg \<Rightarrow> bool \<times> 's \<Rightarrow> bool \<times> 's" where
  "run_message P m st =
     (let (active, s) = st;
          active = (if owner_event m \<and> arg 2 m = [] then False else active);
          (up, s) = p_up P s
      in if zlyme_should_deactivate up then (False, s)
         else if \<not> active \<or> owner_event m
         then (let (rc, s) = activate P s in (if rc = 0 then True else active, s))
         else if interesting m then (active, snd (reconcile P s))
         else (active, s))"

definition cmd_run_start :: "'s plumber \<Rightarrow> 's \<Rightarrow> bool \<times> 's" where
  "cmd_run_start P s = (let (rc, s) = activate P s in (rc = 0, s))"

datatype input_cmd = C_Run | C_Release | C_Reclaim | C_Ensure | C_Status

definition input_command :: "string list \<Rightarrow> input_cmd option" where
  "input_command argv =
     (case argv of
        [prog, cmd] \<Rightarrow>
          if cmd = ''run'' then Some C_Run else if cmd = ''release'' then Some C_Release
          else if cmd = ''reclaim'' then Some C_Reclaim else if cmd = ''ensure'' then Some C_Ensure
          else if cmd = ''status'' then Some C_Status else None
      | _ \<Rightarrow> None)"

end
