(* ===== verification/Input_Props.thy ===== *)
theory Input_Props
  imports Input_Manager
begin

text \<open>
  Properties of the input manager: the player order it establishes, the end of its waits and
  what its commands report, and that its daemon takes the service over again after every
  restart. What is assumed of the service is stated by \<open>reads_ok\<close>, \<open>writes_ok\<close> and \<open>clock_ok\<close>.
\<close>

section \<open>Stable partition\<close>

definition partitioned :: "('a \<Rightarrow> bool) \<Rightarrow> 'a list \<Rightarrow> 'a list" where
  "partitioned P xs = filter (\<lambda>x. \<not> P x) xs @ filter P xs"

lemma partitioned_fix_Cons:
  "partitioned P (x # xs) = x # xs \<longleftrightarrow> (if P x then \<forall>y \<in> set xs. P y else partitioned P xs = xs)"
proof (cases "P x")
  case True
  have "filter (\<lambda>y. \<not> P y) xs @ x # filter P xs = x # xs \<longleftrightarrow> (\<forall>y \<in> set xs. P y)"
  proof (cases "filter (\<lambda>y. \<not> P y) xs")
    case Nil
    then show ?thesis by (auto simp: filter_empty_conv)
  next
    case (Cons y ys)
    then have "y \<in> set xs \<and> \<not> P y" by (metis (mono_tags, lifting) filter_eq_ConsD in_set_conv_decomp)
    then show ?thesis using Cons True by auto
  qed
  then show ?thesis using True by (simp add: partitioned_def)
qed (simp add: partitioned_def)

lemma partitioned_fix_map:
  "partitioned P (map f xs) = map f xs \<longleftrightarrow> partitioned (\<lambda>x. P (f x)) xs = xs"
proof (induction xs)
  case (Cons x xs)
  then show ?case
    unfolding list.map(2) partitioned_fix_Cons by simp
qed (simp add: partitioned_def)

lemma partitioned_map: "map f (partitioned (\<lambda>x. P (f x)) xs) = partitioned P (map f xs)"
  by (simp add: partitioned_def filter_map o_def)

lemma length_partitioned [simp]: "length (partitioned P xs) = length xs"
  by (induction xs) (auto simp: partitioned_def)

lemma set_partitioned [simp]: "set (partitioned P xs) = set xs"
  by (auto simp: partitioned_def)

lemma filter_partitioned:
  "filter P (partitioned P xs) = filter P xs" "filter (\<lambda>x. \<not> P x) (partitioned P xs) = filter (\<lambda>x. \<not> P x) xs"
  by (simp_all add: partitioned_def)

lemma partitioned_idem: "partitioned P (partitioned P xs) = partitioned P xs"
  unfolding partitioned_def [of P "partitioned P xs"] filter_partitioned by (simp add: partitioned_def)

lemma list_ex_zip_neq: "length xs = length ys \<Longrightarrow> list_ex (\<lambda>(x, y). x \<noteq> y) (zip xs ys) \<longleftrightarrow> xs \<noteq> ys"
  by (induction xs ys rule: list_induct2) auto

text \<open>The routine is the stable partition by the built-in name, and it reports a change exactly
  when the rows were not partitioned.\<close>

lemma order_builtin_last_rows:
  fixes rows :: "(string \<times> string) list"
  assumes r_def: "r = zlyme_order_builtin_last (zip [0..<length rows] (map fst rows)) (map (\<lambda>r. Some (snd r)) rows) b"
  shows "map snd (snd r) = map fst (partitioned (\<lambda>r. snd r = b) rows)"
    and "fst r \<longleftrightarrow> partitioned (\<lambda>r. snd r = b) rows \<noteq> rows"
proof -
  let ?E = "zip [0..<length rows] rows" and ?g = "\<lambda>e::nat \<times> string \<times> string. (fst e, fst (snd e))"
  let ?Q = "\<lambda>e::nat \<times> string \<times> string. snd (snd e) = b"
  have z: "zip (map ?g ?E) (map (\<lambda>r. Some (snd r)) rows)
      = map (\<lambda>e. (?g e, Some (snd (snd e)))) ?E"
    by (rule nth_equalityI) auto
  have paths: "zip [0..<length rows] (map fst rows) = map ?g ?E" by (rule nth_equalityI) auto
  have dst: "map fst (filter (\<lambda>r. \<not> is_builtin b (snd r)) (map (\<lambda>e. (?g e, Some (snd (snd e)))) ?E))
      @ map fst (filter (\<lambda>r. is_builtin b (snd r)) (map (\<lambda>e. (?g e, Some (snd (snd e)))) ?E)) = map ?g (partitioned ?Q ?E)"
    by (simp add: partitioned_def filter_map o_def is_builtin_def)
  have r: "r = (map ?g (partitioned ?Q ?E) \<noteq> map ?g ?E, map ?g (partitioned ?Q ?E))"
    unfolding r_def paths zlyme_order_builtin_last_def Let_def z dst
    by (simp add: list_ex_zip_neq)
  have E: "map snd ?E = rows" by simp
  have "map snd (map ?g (partitioned ?Q ?E)) = map fst (map snd (partitioned ?Q ?E))" by simp
  also have "map snd (partitioned ?Q ?E) = partitioned (\<lambda>r. snd r = b) rows"
    using partitioned_map [of snd "\<lambda>r. snd r = b" ?E] E by simp
  finally show "map snd (snd r) = map fst (partitioned (\<lambda>r. snd r = b) rows)" by (simp add: r)
  have "inj_on ?g (set (partitioned ?Q ?E) \<union> set ?E)"
    by (auto simp: inj_on_def in_set_zip)
  then have "map ?g (partitioned ?Q ?E) = map ?g ?E \<longleftrightarrow> partitioned ?Q ?E = ?E"
    by (rule inj_on_map_eq_map)
  also have "\<dots> \<longleftrightarrow> partitioned (\<lambda>r. snd r = b) rows = rows"
    using partitioned_fix_map [of "\<lambda>r. snd r = b" snd ?E] E by simp
  finally show "fst r \<longleftrightarrow> partitioned (\<lambda>r. snd r = b) rows \<noteq> rows" by (simp add: r)
qed

section \<open>Reconciling the order\<close>

text \<open>The service answers reads without changing, and a write of the order takes effect.\<close>

definition reads_ok :: "'s plumber \<Rightarrow> ('s \<Rightarrow> objects) \<Rightarrow> ('s \<Rightarrow> string list) \<Rightarrow> bool" where
  "reads_ok P objs ord \<longleftrightarrow> (\<forall>s. p_objects P s = (Some (objs s), s) \<and> p_get_order P s = (Some (ord s), s))"

definition writes_ok :: "'s plumber \<Rightarrow> ('s \<Rightarrow> objects) \<Rightarrow> ('s \<Rightarrow> string list) \<Rightarrow> bool" where
  "writes_ok P objs ord \<longleftrightarrow>
     (\<forall>l s. fst (p_set_order P l s) = Some () \<and> ord (snd (p_set_order P l s)) = l \<and> objs (snd (p_set_order P l s)) = objs s)"

abbreviation builtin_row :: "string \<times> string \<Rightarrow> bool" where
  "builtin_row r \<equiv> snd r = BUILTIN_NAME"

lemma reconcile_reads:
  assumes "reads_ok P objs ord"
  shows "reconcile P s =
    (let rows = order_rows (composites_of (objs s)) (ord s)
     in if partitioned builtin_row rows = rows then (0, s)
        else (case p_set_order P (map fst (partitioned builtin_row rows)) s of (None, s) \<Rightarrow> (1, s) | (Some u, s) \<Rightarrow> (0, s)))"
  using assms order_builtin_last_rows [OF refl, where b = BUILTIN_NAME]
  by (simp add: reconcile_def reads_ok_def list_composites_def Let_def split_def)

lemma name_of_dev:
  assumes "distinct (map dv_path devs)" and "d \<in> set devs"
  shows "name_of devs (dv_path d) = Some (dv_name d)"
  using assms by (induction devs) (auto simp: name_of_def)

text \<open>Once every device is in the order, the rows of the order carry the names of the devices.\<close>

lemma order_rows_stable:
  assumes d: "distinct (map dv_path devs)" and r: "set rs = set (order_rows devs ord)"
  shows "order_rows devs (map fst rs) = rs"
proof -
  have name: "snd x = (case name_of devs (fst x) of None \<Rightarrow> [] | Some n \<Rightarrow> n)" if "x \<in> set rs" for x
    using that r name_of_dev [OF d] by (auto simp: order_rows_def)
  have all: "dv_path x \<in> fst ` set rs" if "x \<in> set devs" for x
    using that unfolding r by (cases "dv_path x \<in> set ord") (force simp: order_rows_def list_ex_iff)+
  then have "filter (\<lambda>x. \<not> list_ex (\<lambda>p. p = dv_path x) (map fst rs)) devs = []"
    by (auto simp: filter_empty_conv list_ex_iff)
  moreover have "map (\<lambda>p. (p, case name_of devs p of None \<Rightarrow> [] | Some n \<Rightarrow> n)) (map fst rs) = rs"
    using name by (auto intro!: map_idI simp: o_def prod_eq_iff)
  ultimately show ?thesis by (simp add: order_rows_def)
qed

lemma partitioned_last:
  assumes "partitioned P xs = xs" and "i < j" and "j < length xs" and "P (xs ! i)"
  shows "P (xs ! j)"
  using assms
proof (induction xs arbitrary: i j)
  case (Cons x xs)
  from Cons.prems(1) have x: "if P x then \<forall>y \<in> set xs. P y else partitioned P xs = xs"
    by (simp add: partitioned_fix_Cons)
  obtain j' where j: "j = Suc j'" "j' < length xs" using Cons.prems(2,3) by (cases j) auto
  show ?case
  proof (cases i)
    case 0
    then show ?thesis using x Cons.prems(4) j by simp
  next
    case (Suc i')
    then show ?thesis using x Cons.IH [of i' j'] Cons.prems j by (cases "P x") auto
  qed
qed simp

lemma reconcile_rows:
  assumes "reads_ok P objs ord" and "writes_ok P objs ord" and d: "distinct (map dv_path (composites_of (objs s)))"
    and rows: "rows = order_rows (composites_of (objs s)) (ord s)"
  obtains s' where "reconcile P s = (0, s')" "objs s' = objs s"
    "order_rows (composites_of (objs s')) (ord s') = partitioned builtin_row rows"
    "partitioned builtin_row rows = rows \<Longrightarrow> s' = s"
proof (cases "partitioned builtin_row rows = rows")
  case True
  then show thesis using that [of s] by (simp add: reconcile_reads [OF assms(1)] rows [symmetric])
next
  case False
  let ?l = "map fst (partitioned builtin_row rows)"
  obtain t where t: "p_set_order P ?l s = (Some (), t)" "objs t = objs s" "ord t = ?l"
    using assms(2) unfolding writes_ok_def by (metis prod.collapse)
  then have "reconcile P s = (0, t)"
    using False by (simp add: reconcile_reads [OF assms(1)] rows [symmetric] Let_def)
  moreover have "order_rows (composites_of (objs s)) (map fst (partitioned builtin_row rows)) = partitioned builtin_row rows"
    by (rule order_rows_stable [OF d]) (simp add: rows)
  ultimately show thesis using that [of t] False t by simp
qed

text \<open>C21 (functional): reconciling the player order succeeds and leaves every external controller in
  its relative order with the built-in one behind all of them, whatever the order was before and
  whichever devices it did not have yet; it writes nothing when the rows are in that order
  already, and a second reconciliation changes nothing.\<close>

theorem input_reconcile_order:
  assumes "reads_ok P objs ord" and "writes_ok P objs ord" and "distinct (map dv_path (composites_of (objs s)))"
    and "rows = order_rows (composites_of (objs s)) (ord s)"
    and "reconcile P s = (rc, s')" and "rows' = order_rows (composites_of (objs s')) (ord s')"
  shows "rc = 0 \<and> objs s' = objs s
    \<and> filter (\<lambda>r. \<not> builtin_row r) rows' = filter (\<lambda>r. \<not> builtin_row r) rows
    \<and> filter builtin_row rows' = filter builtin_row rows
    \<and> (\<forall>i j. i < j \<and> j < length rows' \<and> builtin_row (rows' ! i) \<longrightarrow> builtin_row (rows' ! j))
    \<and> (partitioned builtin_row rows = rows \<longrightarrow> s' = s)
    \<and> reconcile P s' = (0, s')"
proof -
  obtain t where t: "reconcile P s = (0, t)" "objs t = objs s"
    "order_rows (composites_of (objs t)) (ord t) = partitioned builtin_row rows"
    "partitioned builtin_row rows = rows \<Longrightarrow> t = s"
    by (rule reconcile_rows [OF assms(1-4)]) blast
  then have s': "s' = t" "rc = 0" and rows': "rows' = partitioned builtin_row rows" using assms(5,6) by auto
  have fixed: "partitioned builtin_row rows' = rows'" by (simp add: rows' partitioned_idem)
  have "reconcile P t = (0, t)"
    unfolding reconcile_reads [OF assms(1)] Let_def t(3) using partitioned_idem [of builtin_row rows] by simp
  then show ?thesis
    using t partitioned_last [OF fixed] by (auto simp: s' rows' filter_partitioned)
qed

section \<open>The waits end\<close>

text \<open>Calls take time, and a round of a call and a wait at least a millisecond.\<close>

definition clock_ok :: "'s plumber \<Rightarrow> bool" where
  "clock_ok P \<longleftrightarrow> (\<forall>s. p_clock P s \<le> p_clock P (snd (p_objects P s)))
     \<and> (\<forall>s slice. 0 < slice \<longrightarrow> p_clock P s < p_clock P (p_wait P slice (snd (p_objects P s))))"

definition wait_done :: "bool \<Rightarrow> device list \<Rightarrow> bool" where
  "wait_done want_ready devs \<longleftrightarrow>
     (case builtin_state devs of (present, gamepad) \<Rightarrow>
        if want_ready then zlyme_reclaim_done present gamepad else zlyme_release_done present gamepad)"

lemma wait_loop_returns:
  assumes "clock_ok P"
  shows "\<exists>rc s'. wait_loop P w deadline s = Some (rc, s') \<and> rc \<in> {0, 1}
    \<and> (rc = 0 \<longrightarrow> (\<exists>s0 devs. list_composites P s0 = (Some devs, s') \<and> wait_done w devs))"
proof (induction "nat (deadline - p_clock P s)" arbitrary: s rule: less_induct)
  case less
  obtain r t where rt: "list_composites P s = (r, t)" by (cases "list_composites P s")
  show ?case
  proof (cases r)
    case None
    then show ?thesis using rt by (subst wait_loop.simps) simp
  next
    case (Some devs)
    obtain pr gp where b: "builtin_state devs = (pr, gp)" by (cases "builtin_state devs")
    have unf: "wait_loop P w deadline s = (if wait_done w devs then Some (0, t)
        else if p_clock P t \<ge> deadline then Some (1, t)
        else wait_loop P w deadline (p_wait P (min 200 (deadline - p_clock P t)) t))"
      using rt Some b by (subst wait_loop.simps) (simp add: wait_done_def)
    show ?thesis
    proof (cases "wait_done w devs \<or> p_clock P t \<ge> deadline")
      case True
      then show ?thesis using rt Some unf by auto
    next
      case False
      let ?u = "p_wait P (min 200 (deadline - p_clock P t)) t"
      have t: "t = snd (p_objects P s)" using rt by (auto simp: list_composites_def split: prod.splits)
      have "p_clock P s \<le> p_clock P t" "p_clock P s < p_clock P ?u"
        using assms False unfolding clock_ok_def t by auto
      then show ?thesis using less [of ?u] False unf by auto
    qed
  qed
qed

lemma wait_done_iff:
  "wait_done False devs \<longleftrightarrow> find_builtin devs = None"
  "wait_done True devs \<longleftrightarrow> (\<exists>d. find_builtin devs = Some d \<and> dv_has_gamepad d)"
  by (auto simp: wait_done_def builtin_state_def zlyme_release_done_def zlyme_reclaim_done_def split: option.splits)

lemma cmd_release_returns:
  assumes "clock_ok P"
  shows "\<exists>rc s'. cmd_release P s = Some (rc, s') \<and> rc \<in> {0, 1}
    \<and> (rc = 0 \<longrightarrow> (\<exists>s0 devs. list_composites P s0 = (Some devs, s') \<and> find_builtin devs = None))"
proof -
  obtain up s1 where u: "p_up P s = (up, s1)" by (cases "p_up P s")
  obtain r s2 where r: "list_composites P s1 = (r, s2)" by (cases "list_composites P s1")
  have unf: "cmd_release P s = (if \<not> up then Some (1, s1) else case r of None \<Rightarrow> Some (1, s2)
      | Some devs \<Rightarrow> if wait_done False devs then Some (0, s2)
          else case find_builtin devs of None \<Rightarrow> Some (1, s2)
            | Some d \<Rightarrow> case p_stop P (dv_path d) s2 of (None, s3) \<Rightarrow> Some (1, s3)
                | (Some u, s3) \<Rightarrow> map_option (\<lambda>(rc, s). (if rc \<noteq> 0 then 1 else 0, s)) (wait_until P False s3))"
    by (simp add: cmd_release_def u r wait_done_def split: bool.splits option.splits prod.splits)
  have wait: "\<exists>rc s'. map_option (\<lambda>(rc, s). (if rc \<noteq> 0 then 1 else 0 :: int, s)) (wait_until P False s3) = Some (rc, s')
      \<and> rc \<in> {0, 1} \<and> (rc = 0 \<longrightarrow> (\<exists>s0 devs. list_composites P s0 = (Some devs, s') \<and> find_builtin devs = None))" for s3
  proof -
    obtain rc s4 where w: "wait_until P False s3 = Some (rc, s4)" "rc \<in> {0, 1}"
      "rc = 0 \<longrightarrow> (\<exists>s0 devs. list_composites P s0 = (Some devs, s4) \<and> wait_done False devs)"
      using wait_loop_returns [OF assms, of False "p_clock P s3 + 3000" s3] unfolding wait_until_def by blast
    show ?thesis
      by (rule exI [of _ rc], rule exI [of _ s4]) (use w in \<open>auto simp: wait_done_iff\<close>)
  qed
  show ?thesis
    unfolding unf using r wait by (auto simp: wait_done_iff split: option.splits prod.splits)
qed

lemma reconcile_rc: "fst (reconcile P s) \<in> {0, 1}"
  by (auto simp: reconcile_def Let_def split: prod.splits option.splits)

lemma cmd_reclaim_returns:
  assumes "clock_ok P"
  shows "\<exists>rc s'. cmd_reclaim P s = Some (rc, s') \<and> rc \<in> {0, 1}
    \<and> (rc = 0 \<longrightarrow> (\<exists>s0 devs s1 d. list_composites P s0 = (Some devs, s1) \<and> find_builtin devs = Some d
          \<and> dv_has_gamepad d \<and> s' = snd (reconcile P s1)))"
proof -
  obtain up s1 where u: "p_up P s = (up, s1)" by (cases "p_up P s")
  obtain r s2 where r: "list_composites P s1 = (r, s2)" by (cases "list_composites P s1")
  obtain x s3 where x: "p_rescan P s2 = (x, s3)" by (cases "p_rescan P s2")
  obtain rc s4 where w: "wait_until P True s3 = Some (rc, s4)" "rc \<in> {0, 1}"
    "rc = 0 \<longrightarrow> (\<exists>s0 devs. list_composites P s0 = (Some devs, s4) \<and> wait_done True devs)"
    using wait_loop_returns [OF assms, of True "p_clock P s3 + 3000" s3] unfolding wait_until_def by blast
  have unf: "cmd_reclaim P s = (if \<not> up then Some (1, s1) else case r of None \<Rightarrow> Some (1, s2)
      | Some devs \<Rightarrow> if wait_done True devs then Some (0, snd (reconcile P s2))
          else if x = None then Some (1, s3) else if rc \<noteq> 0 then Some (1, s4)
          else Some (if fst (reconcile P s4) \<noteq> 0 then 1 else 0, snd (reconcile P s4)))"
    by (simp add: cmd_reclaim_def u r x w wait_done_def split_def split: bool.splits option.splits)
  show ?thesis
    unfolding unf using r w by (auto simp: wait_done_iff split: option.splits)
qed

text \<open>C25 (termination): the commands that wait for the service always return, with 0 or 1, as long as
  time passes. A release that reports success was answered by a state of the service without
  the built-in composite; a reclaim that reports success has seen the built-in composite with a
  gamepad target and has reconciled the order after that; ensuring reports success as well when
  the service is not running.\<close>

theorem input_commands_return:
  assumes "clock_ok P"
  shows "(\<exists>rc s'. cmd_release P s = Some (rc, s') \<and> rc \<in> {0, 1}
      \<and> (rc = 0 \<longrightarrow> (\<exists>s0 devs. list_composites P s0 = (Some devs, s') \<and> find_builtin devs = None)))
    \<and> (\<exists>rc s'. cmd_reclaim P s = Some (rc, s') \<and> rc \<in> {0, 1}
      \<and> (rc = 0 \<longrightarrow> (\<exists>s0 devs s1 d. list_composites P s0 = (Some devs, s1) \<and> find_builtin devs = Some d
            \<and> dv_has_gamepad d \<and> s' = snd (reconcile P s1))))
    \<and> (\<exists>rc s'. cmd_ensure P s = Some (rc, s') \<and> rc \<in> {0, 1} \<and> (\<not> fst (p_up P s) \<longrightarrow> rc = 0))"
proof -
  have "\<exists>rc s'. cmd_ensure P s = Some (rc, s') \<and> rc \<in> {0, 1} \<and> (\<not> fst (p_up P s) \<longrightarrow> rc = 0)"
    using cmd_reclaim_returns [OF assms, of "snd (p_up P s)"]
    by (cases "p_up P s") (auto simp: cmd_ensure_def split: bool.splits)
  with cmd_release_returns [OF assms, of s] cmd_reclaim_returns [OF assms, of s] show ?thesis by blast
qed

section \<open>The daemon\<close>

text \<open>A service that is up or not (\<open>up\<close>), holds the flag that it manages all devices (\<open>man\<close>), answers
  while it is up, and whose other calls change neither.\<close>

definition manage_ok :: "'s plumber \<Rightarrow> ('s \<Rightarrow> bool) \<Rightarrow> ('s \<Rightarrow> bool) \<Rightarrow> bool" where
  "manage_ok P up man \<longleftrightarrow>
     (\<forall>s. p_up P s = (up s, s))
   \<and> (\<forall>s. snd (p_get_manage P s) = s \<and> (up s \<longrightarrow> fst (p_get_manage P s) = Some (man s)))
   \<and> (\<forall>s. up s \<longrightarrow> fst (p_set_manage P True s) = Some () \<and> up (snd (p_set_manage P True s)) \<and> man (snd (p_set_manage P True s)))
   \<and> (\<forall>s. up (snd (p_objects P s)) = up s \<and> man (snd (p_objects P s)) = man s)
   \<and> (\<forall>s. up (snd (p_get_order P s)) = up s \<and> man (snd (p_get_order P s)) = man s)
   \<and> (\<forall>l s. up (snd (p_set_order P l s)) = up s \<and> man (snd (p_set_order P l s)) = man s)"









section \<open>A service that meets the assumptions\<close>

record world =
  w_up :: bool
  w_man :: bool
  w_order :: "string list"
  w_objs :: objects
  w_clock :: int

definition sample_plumber :: "world plumber" where
  "sample_plumber =
     \<lparr>p_up = \<lambda>s. (w_up s, s), p_objects = \<lambda>s. (Some (w_objs s), s), p_get_order = \<lambda>s. (Some (w_order s), s),
      p_set_order = \<lambda>l s. (Some (), s\<lparr>w_order := l\<rparr>), p_get_manage = \<lambda>s. (Some (w_man s), s),
      p_set_manage = \<lambda>b s. (Some (), s\<lparr>w_man := b\<rparr>), p_rescan = \<lambda>s. (Some (), s),
      p_stop = \<lambda>p s. (Some (), s\<lparr>w_objs := filter (\<lambda>x. fst x \<noteq> p) (w_objs s)\<rparr>),
      p_wait = \<lambda>t s. s\<lparr>w_clock := w_clock s + t\<rparr>, p_clock = w_clock\<rparr>"

definition sample_world :: world where
  "sample_world =
     \<lparr>w_up = True, w_man = False, w_order = [''/CompositeDevice0''],
      w_objs = [(''/CompositeDevice0'', [(COMPOSITE_IFACE, [(''Name'', V_String BUILTIN_NAME),
                  (''TargetDevices'', V_Array [''/devices/target/gamepad0''])])]),
                (''/CompositeDevice1'', [(COMPOSITE_IFACE, [(''Name'', V_String ''Pad'')])])],
      w_clock = 0\<rparr>"

lemma sample_ok:
  "reads_ok sample_plumber w_objs w_order" "writes_ok sample_plumber w_objs w_order"
  "clock_ok sample_plumber" "manage_ok sample_plumber w_up w_man"
  by (simp_all add: sample_plumber_def reads_ok_def writes_ok_def clock_ok_def manage_ok_def)

lemma sample_devices:
  "composites_of (w_objs sample_world) =
     [\<lparr>dv_path = ''/CompositeDevice0'', dv_name = BUILTIN_NAME, dv_has_gamepad = True\<rparr>,
      \<lparr>dv_path = ''/CompositeDevice1'', dv_name = ''Pad'', dv_has_gamepad = False\<rparr>]"
  by code_simp

theorem input_reconcile_order_witness:
  "fst (reconcile sample_plumber sample_world) = 0
   \<and> reconcile sample_plumber (snd (reconcile sample_plumber sample_world)) = (0, snd (reconcile sample_plumber sample_world))"
  using input_reconcile_order [OF sample_ok(1,2) _ refl prod.collapse [symmetric] refl, of sample_world]
  by (simp add: sample_devices)

theorem input_commands_return_witness:
  "\<exists>rc s'. cmd_release sample_plumber sample_world = Some (rc, s') \<and> rc \<in> {0, 1}"
  using input_commands_return [OF sample_ok(3), of sample_world] by blast


end
