(* ===== verification/Prefs.thy ===== *)
theory Prefs
  imports C_Strings
begin

text \<open>
  The launch preferences, \<^verbatim>\<open>nextui/zlyme/zlyme_prefs.c\<close>: a table of rows (kind, system tag, relative
  path, governor, emulator) cached in memory and kept in a text file, which other processes may
  replace. The file is its \<^verbatim>\<open>stat\<close> stamp and its content, or \<open>None\<close>. \<open>mp\<close> is \<^verbatim>\<open>MAX_PATH\<close>, a constant of
  the frontend's headers, and \<open>path\<close> what \<^verbatim>\<open>prefs_path\<close> returns; the results of the other system
  calls are the record \<open>io\<close>.
\<close>

section \<open>Data\<close>

abbreviation (input) "PREFS_MAX \<equiv> (256 :: nat)"

record pref =
  pf_kind :: string
  pf_tag :: string
  pf_rel :: string
  pf_governor :: string
  pf_emu :: string

text \<open>Device, inode, seconds, nanoseconds and size of the file; the size is \<open>-1\<close> without a file.\<close>

type_synonym stamp = "int \<times> int \<times> int \<times> int \<times> int"
type_synonym pfile = "(stamp \<times> string) option"

record prefs_state =
  ps_rows :: "pref list"
  ps_loaded :: bool
  ps_overflow :: bool
  ps_stamp :: stamp
  ps_locked :: bool

record prefs_io =
  io_mkdir :: bool
  io_lock_open :: bool
  io_flock :: bool
  io_mkstemp :: bool
  io_fdopen :: bool
  io_fprintf :: bool
  io_fflush :: bool
  io_fsync :: bool
  io_fclose :: bool
  io_rename :: bool
  io_dirsync :: bool
  io_stamp :: stamp

definition prefs_start :: prefs_state where
  "prefs_start = \<lparr>ps_rows = [], ps_loaded = False, ps_overflow = False, ps_stamp = (0, 0, 0, 0, -1), ps_locked = False\<rparr>"

section \<open>Text\<close>

definition is_trim :: "char \<Rightarrow> bool" where
  "is_trim c \<longleftrightarrow> c = c_nl \<or> c = c_cr \<or> c = CHR '' '' \<or> c = c_tab"

definition trim_field :: "string \<Rightarrow> string" where
  "trim_field s = rev (dropWhile is_trim (rev s))"

text \<open>The environment variable, or the built-in path.\<close>

definition prefs_path :: "string option \<Rightarrow> string \<Rightarrow> string" where
  "prefs_path env dflt = (case env of Some p \<Rightarrow> if p \<noteq> [] then p else dflt | None \<Rightarrow> dflt)"

text \<open>The text before the last slash.\<close>

definition before_slash :: "string \<Rightarrow> string option" where
  "before_slash s =
     (if CHR ''/'' \<in> set s then Some (rev (tl (dropWhile (\<lambda>c. c \<noteq> CHR ''/'') (rev s)))) else None)"

definition prefs_dir :: "string \<Rightarrow> nat \<Rightarrow> string option" where
  "prefs_dir path n =
     (case before_slash path of
        None \<Rightarrow> if n < 2 then None else Some ''.''
      | Some [] \<Rightarrow> if n < 2 then None else Some ''.''
      | Some d \<Rightarrow> if length d + 1 > n then None else Some d)"

text \<open>One line of the file: cut at the first three tabs, the emulator after a fourth if there is
  one; each field clipped to its buffer.\<close>

definition parse_row :: "nat \<Rightarrow> string \<Rightarrow> pref option" where
  "parse_row mp text =
     (let line = trim_field text
      in if line = [] \<or> hd line = CHR ''#'' then None
         else case cut_at c_tab line of None \<Rightarrow> None | Some (kind, p) \<Rightarrow>
              case cut_at c_tab p of None \<Rightarrow> None | Some (tag, p) \<Rightarrow>
              case cut_at c_tab p of None \<Rightarrow> None | Some (rel, p) \<Rightarrow>
              let (gov, emu) = (case cut_at c_tab p of None \<Rightarrow> (p, []) | Some (g, e) \<Rightarrow> (g, e))
              in Some \<lparr>pf_kind = fit 8 kind, pf_tag = fit 32 tag, pf_rel = fit mp rel,
                       pf_governor = fit 16 gov, pf_emu = fit 32 emu\<rparr>)"

fun load_rows :: "nat \<Rightarrow> string list \<Rightarrow> pref list \<Rightarrow> pref list \<times> bool" where
  "load_rows mp [] rows = (rows, False)"
| "load_rows mp (l # ls) rows =
     (case parse_row mp l of
        None \<Rightarrow> load_rows mp ls rows
      | Some r \<Rightarrow> if length rows \<ge> PREFS_MAX then (rows, True) else load_rows mp ls (rows @ [r]))"

definition row_text :: "pref \<Rightarrow> string" where
  "row_text r = pf_kind r @ [c_tab] @ pf_tag r @ [c_tab] @ pf_rel r @ [c_tab] @ pf_governor r @ [c_tab] @ pf_emu r @ [c_nl]"

definition prefs_text :: "pref list \<Rightarrow> string" where
  "prefs_text rows = concat (map row_text rows)"

section \<open>Reading\<close>

definition prefs_note_stat :: "pfile \<Rightarrow> prefs_state \<Rightarrow> prefs_state" where
  "prefs_note_stat f st = st\<lparr>ps_stamp := (case f of Some (s, c) \<Rightarrow> s | None \<Rightarrow> (0, 0, 0, 0, -1))\<rparr>"

definition prefs_stat_same :: "stamp \<Rightarrow> prefs_state \<Rightarrow> bool" where
  "prefs_stat_same s st \<longleftrightarrow> s = ps_stamp st"

text \<open>The file is opened and read first and its stamp is taken by path afterwards: \<open>opened\<close> and
  \<open>later\<close> are the file at these two moments.\<close>

definition prefsReload :: "nat \<Rightarrow> pfile \<Rightarrow> pfile \<Rightarrow> prefs_state \<Rightarrow> prefs_state" where
  "prefsReload mp opened later st =
     (let st = st\<lparr>ps_rows := [], ps_loaded := True, ps_overflow := False\<rparr>
      in case opened of
           None \<Rightarrow> prefs_note_stat later st
         | Some (s, text) \<Rightarrow>
             let (rows, over) = load_rows mp (fgets_lines (mp * 2 - 2) text) []
             in prefs_note_stat later (st\<lparr>ps_rows := rows, ps_overflow := over\<rparr>))"

definition prefsEnsure :: "nat \<Rightarrow> pfile \<Rightarrow> prefs_state \<Rightarrow> prefs_state" where
  "prefsEnsure mp f st =
     (if ps_loaded st \<and> (case f of Some (s, c) \<Rightarrow> prefs_stat_same s st | None \<Rightarrow> False) then st
      else if ps_loaded st \<and> f = None \<and> snd (snd (snd (snd (ps_stamp st)))) < 0 then st
      else prefsReload mp f f st)"

text \<open>Two helpers the file keeps without using their results.\<close>

definition kind_rank :: "string \<Rightarrow> int" where
  "kind_rank kind = (if kind = ''rom'' then 3 else if kind = ''folder'' then 2 else 1)"

definition rel_is_under :: "string option \<Rightarrow> string option \<Rightarrow> bool" where
  "rel_is_under rel pre =
     (case pre of None \<Rightarrow> True | Some p \<Rightarrow>
        if p = [] then True
        else case rel of None \<Rightarrow> False
             | Some r \<Rightarrow> prefix p r \<and> (length r = length p \<or> r ! length p = CHR ''/''))"

definition same_key :: "string \<Rightarrow> string \<Rightarrow> string \<Rightarrow> pref \<Rightarrow> bool" where
  "same_key kind tag rel r \<longleftrightarrow> pf_kind r = kind \<and> map lower (pf_tag r) = map lower tag \<and> pf_rel r = rel"

definition rel_or_empty :: "string option \<Rightarrow> string" where
  "rel_or_empty rel = (case rel of None \<Rightarrow> [] | Some r \<Rightarrow> r)"

definition row_setting :: "pref list \<Rightarrow> string \<Rightarrow> string \<Rightarrow> string \<Rightarrow> string \<times> string" where
  "row_setting rows kind tag rel =
     (case find (same_key kind tag rel) rows of None \<Rightarrow> ([], []) | Some r \<Rightarrow> (pf_governor r, pf_emu r))"

text \<open>The two output buffers have \<open>gn\<close> and \<open>en\<close> bytes.\<close>

definition prefsGetExact :: "nat \<Rightarrow> pfile \<Rightarrow> string option \<Rightarrow> string option \<Rightarrow> string option \<Rightarrow> nat \<Rightarrow> nat
    \<Rightarrow> prefs_state \<Rightarrow> (string \<times> string) \<times> prefs_state" where
  "prefsGetExact mp f kind tag rel gn en st =
     (let st = prefsEnsure mp f st
      in case (kind, tag) of
           (Some k, Some t) \<Rightarrow>
             (let (g, e) = row_setting (ps_rows st) k t (rel_or_empty rel) in ((fit gn g, fit en e), st))
         | _ \<Rightarrow> (([], []), st))"

definition is_set :: "string \<times> string \<Rightarrow> bool" where
  "is_set ge \<longleftrightarrow> fst ge \<noteq> [] \<or> snd ge \<noteq> []"

text \<open>The loop over the parent folders: each cut at the last slash is looked up, and what is left
  without a slash is looked up at the end.\<close>

lemma before_slash_shorter: "before_slash s = Some t \<Longrightarrow> length t < length s"
proof -
  assume "before_slash s = Some t"
  then have "CHR ''/'' \<in> set s" "t = rev (tl (dropWhile (\<lambda>c. c \<noteq> CHR ''/'') (rev s)))"
    by (auto simp: before_slash_def split: if_splits)
  moreover from this have "0 < length s" by (cases s) auto
  moreover have "length (dropWhile (\<lambda>c. c \<noteq> CHR ''/'') (rev s)) \<le> length s"
    using length_dropWhile_le [of _ "rev s"] by simp
  ultimately show "length t < length s" by (simp only: length_rev length_tl)
qed

function folder_loop :: "nat \<Rightarrow> pfile \<Rightarrow> string \<Rightarrow> string \<Rightarrow> nat \<Rightarrow> nat \<Rightarrow> prefs_state \<Rightarrow> (string \<times> string) \<times> prefs_state" where
  "folder_loop mp f tag work gn en st =
     (case before_slash work of
        None \<Rightarrow> prefsGetExact mp f (Some ''folder'') (Some tag) (Some work) gn en st
      | Some w \<Rightarrow>
          let (ge, st) = prefsGetExact mp f (Some ''folder'') (Some tag) (Some w) gn en st
          in if is_set ge then (ge, st) else folder_loop mp f tag w gn en st)"
  by pat_completeness auto
termination
  by (relation "measure (\<lambda>(mp, f, tag, work, gn, en, st). length work)") (auto dest: before_slash_shorter)

declare folder_loop.simps [simp del]

definition prefsLookup :: "nat \<Rightarrow> pfile \<Rightarrow> string option \<Rightarrow> string option \<Rightarrow> nat \<Rightarrow> nat \<Rightarrow> prefs_state
    \<Rightarrow> bool \<times> (string \<times> string) \<times> prefs_state" where
  "prefsLookup mp f tag rel gn en st =
     (let st = prefsEnsure mp f st
      in case tag of
           None \<Rightarrow> (False, ([], []), st)
         | Some t \<Rightarrow>
             if t = [] then (False, ([], []), st)
             else let r = rel_or_empty rel;
                      by_tag = (\<lambda>st. let (ge, st) = prefsGetExact mp f (Some ''tag'') tag (Some []) gn en st
                                     in (is_set ge, ge, st))
                  in if r = [] then by_tag st
                     else let (ge, st) = prefsGetExact mp f (Some ''rom'') tag (Some r) gn en st
                     in if is_set ge then (True, ge, st)
                        else let (ge, st) = folder_loop mp f t (fit mp r) gn en st
                        in if is_set ge then (True, ge, st) else by_tag st)"

section \<open>Writing\<close>

definition prefs_lock :: "string \<Rightarrow> nat \<Rightarrow> prefs_io \<Rightarrow> prefs_state \<Rightarrow> bool \<times> prefs_state" where
  "prefs_lock path mp io st =
     (if ps_locked st then (True, st)
      else case prefs_dir path mp of
             None \<Rightarrow> (False, st)
           | Some dir \<Rightarrow>
               if \<not> io_mkdir io then (False, st)
               else if length (dir @ ''/.zlyme-prefs.lock'') \<ge> mp then (False, st)
               else if \<not> io_lock_open io \<or> \<not> io_flock io then (False, st)
               else (True, st\<lparr>ps_locked := True\<rparr>))"

definition prefs_unlock :: "prefs_state \<Rightarrow> prefs_state" where
  "prefs_unlock st = st\<lparr>ps_locked := False\<rparr>"

text \<open>The new content appears under the path only with the rename.\<close>

definition prefs_write :: "string \<Rightarrow> nat \<Rightarrow> prefs_io \<Rightarrow> prefs_state \<Rightarrow> pfile \<Rightarrow> bool \<times> prefs_state \<times> pfile" where
  "prefs_write path mp io st f =
     (if ps_overflow st then (False, st, f)
      else case prefs_dir path mp of
             None \<Rightarrow> (False, st, f)
           | Some dir \<Rightarrow>
               if \<not> io_mkdir io then (False, st, f)
               else if length (dir @ ''/.zlyme-prefs.XXXXXX'') \<ge> mp then (False, st, f)
               else if \<not> io_mkstemp io \<or> \<not> io_fdopen io then (False, st, f)
               else if ps_rows st \<noteq> [] \<and> \<not> io_fprintf io then (False, st, f)
               else if \<not> io_fflush io \<or> \<not> io_fsync io \<or> \<not> io_fclose io \<or> \<not> io_rename io then (False, st, f)
               else let f = Some (io_stamp io, prefs_text (ps_rows st))
                    in if \<not> io_dirsync io then (False, st, f) else (True, prefs_note_stat f st, f))"

definition prefsSave :: "string \<Rightarrow> nat \<Rightarrow> prefs_io \<Rightarrow> prefs_state \<Rightarrow> pfile \<Rightarrow> prefs_state \<times> pfile" where
  "prefsSave path mp io st f =
     (let owned = \<not> ps_locked st;
          (ok, st) = (if owned then prefs_lock path mp io st else (True, st))
      in if \<not> ok then (st, f)
         else let st = (if owned then prefsReload mp f f st else st);
                  (ok, st, f) = prefs_write path mp io st f;
                  st = (if \<not> ok then st\<lparr>ps_loaded := False\<rparr> else st)
              in (if owned then prefs_unlock st else st, f))"

fun key_pos :: "string \<Rightarrow> string \<Rightarrow> string \<Rightarrow> pref list \<Rightarrow> nat \<Rightarrow> nat option" where
  "key_pos kind tag rel [] i = None"
| "key_pos kind tag rel (r # rs) i = (if same_key kind tag rel r then Some i else key_pos kind tag rel rs (Suc i))"

text \<open>The table part of a set and of a clear; a full table is refused, and a cleared row is replaced
  by the last one.\<close>

definition rows_set :: "nat \<Rightarrow> pref list \<Rightarrow> string \<Rightarrow> string \<Rightarrow> string \<Rightarrow> string \<Rightarrow> string \<Rightarrow> pref list option" where
  "rows_set mp rows kind tag rel gov emu =
     (case key_pos kind tag rel rows 0 of
        Some i \<Rightarrow> Some (rows[i := (rows ! i)\<lparr>pf_governor := fit 16 gov, pf_emu := fit 32 emu\<rparr>])
      | None \<Rightarrow>
          if length rows \<ge> PREFS_MAX then None
          else Some (rows @ [\<lparr>pf_kind = fit 8 kind, pf_tag = fit 32 tag, pf_rel = fit mp rel,
                              pf_governor = fit 16 gov, pf_emu = fit 32 emu\<rparr>]))"

definition rows_clear :: "pref list \<Rightarrow> string \<Rightarrow> string \<Rightarrow> string \<Rightarrow> pref list option" where
  "rows_clear rows kind tag rel =
     (case key_pos kind tag rel rows 0 of
        Some i \<Rightarrow> Some (butlast (rows[i := last rows]))
      | None \<Rightarrow> None)"

text \<open>The frame of both: lock, reload, change the table, save, unlock.\<close>

definition prefs_edit :: "string \<Rightarrow> nat \<Rightarrow> prefs_io \<Rightarrow> (pref list \<Rightarrow> pref list option) \<Rightarrow> prefs_state \<Rightarrow> pfile \<Rightarrow> prefs_state \<times> pfile" where
  "prefs_edit path mp io edit st f =
     (let (ok, st) = prefs_lock path mp io st
      in if \<not> ok then (st, f)
         else let st = prefsReload mp f f st
              in case edit (ps_rows st) of
                   None \<Rightarrow> (prefs_unlock st, f)
                 | Some rows \<Rightarrow>
                     let (st, f) = prefsSave path mp io (st\<lparr>ps_rows := rows\<rparr>) f in (prefs_unlock st, f))"

definition prefsSet :: "string \<Rightarrow> nat \<Rightarrow> prefs_io \<Rightarrow> string option \<Rightarrow> string option \<Rightarrow> string option \<Rightarrow> string option
    \<Rightarrow> string option \<Rightarrow> prefs_state \<Rightarrow> pfile \<Rightarrow> prefs_state \<times> pfile" where
  "prefsSet path mp io kind tag rel gov emu st f =
     (case (kind, tag) of
        (Some k, Some t) \<Rightarrow>
          prefs_edit path mp io (\<lambda>rows. rows_set mp rows k t (rel_or_empty rel) (rel_or_empty gov) (rel_or_empty emu)) st f
      | _ \<Rightarrow> (st, f))"

definition prefsClear :: "string \<Rightarrow> nat \<Rightarrow> prefs_io \<Rightarrow> string option \<Rightarrow> string option \<Rightarrow> string option
    \<Rightarrow> prefs_state \<Rightarrow> pfile \<Rightarrow> prefs_state \<times> pfile" where
  "prefsClear path mp io kind tag rel st f =
     (case (kind, tag) of
        (Some k, Some t) \<Rightarrow> prefs_edit path mp io (\<lambda>rows. rows_clear rows k t (rel_or_empty rel)) st f
      | _ \<Rightarrow> (st, f))"

section \<open>The metadata files\<close>

text \<open>\<^verbatim>\<open>strsep\<close> with blanks as delimiters: the token, and the rest after the delimiter.\<close>

definition strsep :: "string \<Rightarrow> string \<times> string option" where
  "strsep s =
     (takeWhile (\<lambda>c. \<not> is_blank c) s,
      if list_ex is_blank s then Some (tl (dropWhile (\<lambda>c. \<not> is_blank c) s)) else None)"

text \<open>The first line that is not a comment and whose first word is the tag, without that word.\<close>

fun tag_line :: "string \<Rightarrow> string list \<Rightarrow> string option option" where
  "tag_line tag [] = None"
| "tag_line tag (l # ls) =
     (let line = trim_field l
      in if line = [] \<or> hd line = CHR ''#'' then tag_line tag ls
         else let (tok, p) = strsep line
              in if map lower tok \<noteq> map lower tag then tag_line tag ls else Some p)"

text \<open>The words of the rest of the line, as long as there is room.\<close>

function alt_words :: "nat \<Rightarrow> string option \<Rightarrow> string list" where
  "alt_words room p =
     (case p of
        None \<Rightarrow> []
      | Some s \<Rightarrow>
          if room = 0 then []
          else let s = dropWhile is_blank s
               in if s = [] then []
                  else let (tok, rest) = strsep s in fit 32 tok # alt_words (room - 1) rest)"
  by pat_completeness auto
termination
  by (relation "measure fst") auto

declare alt_words.simps [simp del]

definition prefsAlts :: "string option \<Rightarrow> string option \<Rightarrow> int \<Rightarrow> string list" where
  "prefsAlts alts_file tag max_n =
     (case tag of
        None \<Rightarrow> []
      | Some t \<Rightarrow>
          if max_n < 1 then []
          else case alts_file of
                 None \<Rightarrow> []
               | Some text \<Rightarrow>
                   (case tag_line t (fgets_lines 254 text) of None \<Rightarrow> [] | Some p \<Rightarrow> alt_words (nat max_n) p))"

definition prefsDefault :: "string option \<Rightarrow> string option \<Rightarrow> nat \<Rightarrow> bool \<times> string" where
  "prefsDefault defaults_file tag n =
     (case tag of
        None \<Rightarrow> (False, [])
      | Some t \<Rightarrow>
          if n < 2 then (False, [])
          else case defaults_file of
                 None \<Rightarrow> (False, [])
               | Some text \<Rightarrow>
                   (case tag_line t (fgets_lines 254 text) of
                      Some (Some p) \<Rightarrow>
                        let v = fit n (fst (strsep (dropWhile is_blank p))) in (v \<noteq> [], v)
                    | _ \<Rightarrow> (False, [])))"

end
