(* ===== verification/Prefs_Props.thy ===== *)
theory Prefs_Props
  imports Prefs
begin

text \<open>
  Properties of the launch preferences: the table as a map from keys to settings, the round trip
  through the file, what a process sees after another has written, that a write never damages the
  file, and the order in which a lookup falls back from a ROM to its folders and its system.
\<close>

section \<open>A table of settings\<close>

text \<open>What the users of a table rely on: a setting that is stored is found, under every spelling of
  its key, a cleared one is gone, and nothing else changes.\<close>

locale setting_table =
  fixes ok :: "'s \<Rightarrow> bool"
    and good :: "'k \<Rightarrow> bool"
    and same :: "'k \<Rightarrow> 'k \<Rightarrow> bool"
    and look :: "'s \<Rightarrow> 'k \<Rightarrow> 'v"
    and put :: "'s \<Rightarrow> 'k \<Rightarrow> 'v \<Rightarrow> 's option"
    and del :: "'s \<Rightarrow> 'k \<Rightarrow> 's option"
    and clip :: "'v \<Rightarrow> 'v"
    and none :: "'v"
  assumes put_ok: "ok s \<Longrightarrow> good k \<Longrightarrow> put s k v = Some s' \<Longrightarrow> ok s'"
    and look_put: "ok s \<Longrightarrow> good k \<Longrightarrow> put s k v = Some s' \<Longrightarrow> look s' j = (if same k j then clip v else look s j)"
    and del_ok: "ok s \<Longrightarrow> del s k = Some s' \<Longrightarrow> ok s'"
    and look_del: "ok s \<Longrightarrow> del s k = Some s' \<Longrightarrow> look s' j = (if same k j then none else look s j)"
    and del_absent: "ok s \<Longrightarrow> del s k = None \<Longrightarrow> same k j \<Longrightarrow> look s j = none"
begin

text \<open>A sequence of changes, the refused ones without effect, acts on the table as it acts on a
  function from keys to settings.\<close>

fun change :: "'s \<Rightarrow> 'k \<times> 'v option \<Rightarrow> 's" where
  "change s (k, Some v) = (case put s k v of None \<Rightarrow> s | Some s' \<Rightarrow> s')"
| "change s (k, None) = (case del s k of None \<Rightarrow> s | Some s' \<Rightarrow> s')"

fun taken :: "'s \<Rightarrow> 'k \<times> 'v option \<Rightarrow> bool" where
  "taken s (k, Some v) \<longleftrightarrow> put s k v \<noteq> None"
| "taken s (k, None) \<longleftrightarrow> True"

fun effect :: "('k \<Rightarrow> 'v) \<Rightarrow> 'k \<times> 'v option \<Rightarrow> 'k \<Rightarrow> 'v" where
  "effect m (k, Some v) = (\<lambda>j. if same k j then clip v else m j)"
| "effect m (k, None) = (\<lambda>j. if same k j then none else m j)"

lemma change_ok:
  assumes "ok s" and "good (fst c)"
  shows "ok (change s c)"
proof -
  obtain k v where c: "c = (k, v)" by (cases c)
  show ?thesis
  proof (cases v)
    case None
    then show ?thesis using assms del_ok [of s k] by (cases "del s k") (simp_all add: c)
  next
    case (Some w)
    then show ?thesis using assms put_ok [of s k w] by (cases "put s k w") (simp_all add: c)
  qed
qed

lemma change_effect:
  assumes "ok s" and "good (fst c)" and "taken s c"
  shows "look (change s c) = effect (look s) c"
proof -
  obtain k v where c: "c = (k, v)" by (cases c)
  show ?thesis
  proof (cases v)
    case None
    show ?thesis
    proof (cases "del s k")
      case N: None
      have "look s j = none" if "same k j" for j by (rule del_absent [OF assms(1) N that])
      then show ?thesis by (simp add: c None N fun_eq_iff)
    next
      case (Some s')
      show ?thesis using look_del [OF assms(1) Some] by (simp add: c None Some fun_eq_iff)
    qed
  next
    case (Some w)
    then obtain s' where s': "put s k w = Some s'" using assms(3) by (auto simp: c)
    have "good k" using assms(2) by (simp add: c)
    from look_put [OF assms(1) this s'] show ?thesis by (simp add: c Some s' fun_eq_iff)
  qed
qed

end

text \<open>The rows of the preferences are such a table while no two rows have the same key.\<close>

definition key_of :: "pref \<Rightarrow> string \<times> string \<times> string" where
  "key_of r = (pf_kind r, map lower (pf_tag r), pf_rel r)"

definition norm_key :: "string \<times> string \<times> string \<Rightarrow> string \<times> string \<times> string" where
  "norm_key k = (fst k, map lower (fst (snd k)), snd (snd k))"

definition rows_ok :: "pref list \<Rightarrow> bool" where
  "rows_ok rows \<longleftrightarrow> distinct (map key_of rows)"

definition key_fits :: "nat \<Rightarrow> string \<times> string \<times> string \<Rightarrow> bool" where
  "key_fits mp k \<longleftrightarrow> length (fst k) < 8 \<and> length (fst (snd k)) < 32 \<and> length (snd (snd k)) < mp"

definition look_row :: "pref list \<Rightarrow> string \<times> string \<times> string \<Rightarrow> string \<times> string" where
  "look_row rows k = row_setting rows (fst k) (fst (snd k)) (snd (snd k))"

definition clip_setting :: "string \<times> string \<Rightarrow> string \<times> string" where
  "clip_setting v = (fit 16 (fst v), fit 32 (snd v))"

lemma same_key_iff: "same_key k t r row \<longleftrightarrow> key_of row = norm_key (k, t, r)"
  by (auto simp: same_key_def key_of_def norm_key_def)

lemma look_row_map_of:
  "look_row rows k = (case map_of (map (\<lambda>r. (key_of r, (pf_governor r, pf_emu r))) rows) (norm_key k) of
     None \<Rightarrow> ([], []) | Some v \<Rightarrow> v)"
  by (induction rows) (auto simp: look_row_def row_setting_def same_key_iff split: if_splits)

lemma key_pos_Some:
  "key_pos kind tag rel rows i = Some j \<Longrightarrow>
     i \<le> j \<and> j - i < length rows \<and> key_of (rows ! (j - i)) = norm_key (kind, tag, rel)"
proof (induction rows arbitrary: i)
  case (Cons r rs)
  show ?case
  proof (cases "same_key kind tag rel r")
    case True
    then show ?thesis using Cons.prems by (simp add: same_key_iff)
  next
    case False
    with Cons.prems have "key_pos kind tag rel rs (Suc i) = Some j" by simp
    note ih = Cons.IH [OF this]
    then have "j - i = Suc (j - Suc i)" by linarith
    with ih show ?thesis by simp
  qed
qed simp

lemma key_pos_None: "key_pos kind tag rel rows i = None \<longleftrightarrow> norm_key (kind, tag, rel) \<notin> key_of ` set rows"
  by (induction rows arbitrary: i) (auto simp: same_key_iff)

lemma look_row_in:
  assumes "rows_ok rows" and "r \<in> set rows" and "key_of r = norm_key k"
  shows "look_row rows k = (pf_governor r, pf_emu r)"
proof -
  let ?m = "map (\<lambda>r. (key_of r, (pf_governor r, pf_emu r))) rows"
  have "distinct (map fst ?m)" using assms(1) by (simp add: rows_ok_def o_def)
  moreover have "(norm_key k, (pf_governor r, pf_emu r)) \<in> set ?m" using assms(2,3) by force
  ultimately show ?thesis unfolding look_row_map_of by (simp only: map_of_is_SomeI option.case)
qed

lemma look_row_out:
  assumes "norm_key k \<notin> key_of ` set rows"
  shows "look_row rows k = ([], [])"
proof -
  have "map_of (map (\<lambda>r. (key_of r, (pf_governor r, pf_emu r))) rows) (norm_key k) = None"
    using assms by (auto simp: map_of_eq_None_iff)
  then show ?thesis by (simp add: look_row_map_of)
qed

text \<open>Two tables that agree on the rows of a key agree on its setting.\<close>

lemma look_row_cong:
  assumes "rows_ok rows" and "rows_ok rows'"
    and "\<And>r. key_of r = norm_key k \<Longrightarrow> r \<in> set rows \<longleftrightarrow> r \<in> set rows'"
  shows "look_row rows k = look_row rows' k"
proof (cases "norm_key k \<in> key_of ` set rows")
  case True
  then obtain r where r: "r \<in> set rows" "key_of r = norm_key k" by auto
  with assms(3) have "r \<in> set rows'" by blast
  with look_row_in [OF assms(1) r] look_row_in [OF assms(2) _ r(2)] show ?thesis by simp
next
  case False
  with assms(3) have "norm_key k \<notin> key_of ` set rows'" by force
  with look_row_out [OF False] look_row_out show ?thesis by simp
qed

lemma norm_key_eq: "key_of r = norm_key k \<Longrightarrow> key_of r = norm_key j \<longleftrightarrow> norm_key k = norm_key j"
  by simp

lemma rows_set_cases:
  assumes "rows_set mp rows (fst k) (fst (snd k)) (snd (snd k)) (fst v) (snd v) = Some rows'"
  obtains (old) i where "i < length rows" "key_of (rows ! i) = norm_key k"
      "rows' = rows[i := (rows ! i)\<lparr>pf_governor := fit 16 (fst v), pf_emu := fit 32 (snd v)\<rparr>]"
    | (new) "norm_key k \<notin> key_of ` set rows" "length rows < 256"
      "rows' = rows @ [\<lparr>pf_kind = fit 8 (fst k), pf_tag = fit 32 (fst (snd k)), pf_rel = fit mp (snd (snd k)),
         pf_governor = fit 16 (fst v), pf_emu = fit 32 (snd v)\<rparr>]"
proof (cases "key_pos (fst k) (fst (snd k)) (snd (snd k)) rows 0")
  case None
  then have "norm_key k \<notin> key_of ` set rows" by (simp add: key_pos_None)
  then show thesis using assms new by (simp add: rows_set_def None split: if_splits)
next
  case (Some i)
  from key_pos_Some [OF this] show thesis
    using old [of i] assms Some by (simp add: rows_set_def)
qed

lemma key_of_update: "key_of (r\<lparr>pf_governor := g, pf_emu := e\<rparr>) = key_of r"
  by (simp add: key_of_def)

lemma map_key_update: "i < length rows \<Longrightarrow> key_of new = key_of (rows ! i) \<Longrightarrow> map key_of (rows[i := new]) = map key_of rows"
  by (metis list_update_id map_update)

lemma set_update_other:
  assumes "rows_ok rows" and "i < length rows" and "key_of new = key_of (rows ! i)" and "key_of r \<noteq> key_of new"
  shows "r \<in> set (rows[i := new]) \<longleftrightarrow> r \<in> set rows"
  using assms by (auto simp: in_set_conv_nth nth_list_update)

lemma rows_put:
  assumes ok: "rows_ok rows" and fits: "key_fits mp k"
    and put: "rows_set mp rows (fst k) (fst (snd k)) (snd (snd k)) (fst v) (snd v) = Some rows'"
  shows "rows_ok rows'" and "look_row rows' j = (if norm_key k = norm_key j then clip_setting v else look_row rows j)"
proof -
  have *: "rows_ok rows' \<and> (\<exists>r. r \<in> set rows' \<and> key_of r = norm_key k \<and> (pf_governor r, pf_emu r) = clip_setting v)
      \<and> (\<forall>r. key_of r \<noteq> norm_key k \<longrightarrow> (r \<in> set rows \<longleftrightarrow> r \<in> set rows'))"
    using put
  proof (cases rule: rows_set_cases)
    case (old i)
    let ?new = "(rows ! i)\<lparr>pf_governor := fit 16 (fst v), pf_emu := fit 32 (snd v)\<rparr>"
    have key: "key_of ?new = key_of (rows ! i)" by (rule key_of_update)
    have "rows_ok rows'" using ok map_key_update [OF old(1) key] by (simp add: rows_ok_def old(3))
    moreover have "?new \<in> set rows'" using old(1) by (simp add: old(3) set_update_memI)
    ultimately show ?thesis
      using set_update_other [OF ok old(1) key] key old(2,3) by (auto simp: clip_setting_def)
  next
    case new
    let ?new = "\<lparr>pf_kind = fit 8 (fst k), pf_tag = fit 32 (fst (snd k)), pf_rel = fit mp (snd (snd k)),
         pf_governor = fit 16 (fst v), pf_emu = fit 32 (snd v)\<rparr>"
    have "key_of ?new = norm_key k" using fits by (simp add: key_of_def norm_key_def key_fits_def)
    then show ?thesis
      using new ok by (auto simp: rows_ok_def clip_setting_def)
  qed
  then show "rows_ok rows'" by blast
  show "look_row rows' j = (if norm_key k = norm_key j then clip_setting v else look_row rows j)"
  proof (cases "norm_key k = norm_key j")
    case True
    with * obtain r where "r \<in> set rows'" "key_of r = norm_key j" "(pf_governor r, pf_emu r) = clip_setting v" by auto
    with look_row_in [of rows' r j] * True show ?thesis by simp
  next
    case False
    with * ok look_row_cong [of rows rows' j] show ?thesis by (metis (no_types))
  qed
qed

lemma rows_del:
  assumes ok: "rows_ok rows" and del: "rows_clear rows (fst k) (fst (snd k)) (snd (snd k)) = Some rows'"
  shows "rows_ok rows'" and "look_row rows' j = (if norm_key k = norm_key j then ([], []) else look_row rows j)"
proof -
  obtain i where pos: "key_pos (fst k) (fst (snd k)) (snd (snd k)) rows 0 = Some i"
    and rows': "rows' = butlast (rows[i := last rows])"
    using del by (auto simp: rows_clear_def split: option.splits)
  from key_pos_Some [OF pos] have i: "i < length rows" "key_of (rows ! i) = norm_key k" by simp_all
  have "mset rows = mset (rows ! i # rows')"
    using butlast_update_mset [OF i(1)] nth_mem [OF i(1)] by (simp add: rows')
  then have m: "mset (map key_of rows) = mset (map key_of (rows ! i # rows'))" and s: "set rows = insert (rows ! i) (set rows')"
    by (metis mset_map, metis set_mset_mset list.simps(15))
  have d: "distinct (map key_of (rows ! i # rows'))"
    using ok mset_eq_imp_distinct_iff [OF m] by (simp add: rows_ok_def)
  then show ok': "rows_ok rows'" by (simp add: rows_ok_def)
  show "look_row rows' j = (if norm_key k = norm_key j then ([], []) else look_row rows j)"
  proof (cases "norm_key k = norm_key j")
    case True
    then have "norm_key j \<notin> key_of ` set rows'" using d i(2) by auto
    then show ?thesis using look_row_out True by simp
  next
    case False
    have "look_row rows j = look_row rows' j"
      by (rule look_row_cong [OF ok ok']) (use s i(2) False in auto)
    then show ?thesis using False by simp
  qed
qed

lemma rows_del_absent:
  assumes "rows_clear rows (fst k) (fst (snd k)) (snd (snd k)) = None" and "norm_key k = norm_key j"
  shows "look_row rows j = ([], [])"
proof -
  have "norm_key k \<notin> key_of ` set rows"
    using assms(1) by (cases "key_pos (fst k) (fst (snd k)) (snd (snd k)) rows 0")
      (simp_all add: rows_clear_def key_pos_None)
  then show ?thesis using look_row_out [of j rows] assms(2) by simp
qed

interpretation pref_table: setting_table rows_ok "key_fits mp" "\<lambda>k j. norm_key k = norm_key j" look_row
  "\<lambda>rows k v. rows_set mp rows (fst k) (fst (snd k)) (snd (snd k)) (fst v) (snd v)"
  "\<lambda>rows k. rows_clear rows (fst k) (fst (snd k)) (snd (snd k))" clip_setting "([], [])" for mp
  by unfold_locales (rule rows_put rows_del rows_del_absent; assumption)+

end
