(* ===== verification/Prefs_File.thy ===== *)
theory Prefs_File
  imports Prefs_Props
begin

text \<open>
  The launch preferences and their file: reading back what was written, what a set shows to this
  process and to others, the safety of the file under failing system calls, the cache, and the
  fallback of a lookup.
\<close>

section \<open>Reading back a row\<close>















section \<open>Reading back the file\<close>

definition rows_of :: "nat \<Rightarrow> pfile \<Rightarrow> pref list \<times> bool" where
  "rows_of mp f = (case f of None \<Rightarrow> ([], False) | Some (s, text) \<Rightarrow> load_rows mp (fgets_lines (mp * 2 - 2) text) [])"






section \<open>The cache\<close>

lemma reload_rows:
  "ps_rows (prefsReload mp f g st) = fst (rows_of mp f)" "ps_overflow (prefsReload mp f g st) = snd (rows_of mp f)"
  "ps_loaded (prefsReload mp f g st)" "ps_locked (prefsReload mp f g st) = ps_locked st"
  "ps_stamp (prefsReload mp f g st) = (case g of None \<Rightarrow> (0, 0, 0, 0, -1) | Some (s, c) \<Rightarrow> s)"
  by (auto simp: prefsReload_def rows_of_def prefs_note_stat_def Let_def split: option.splits prod.splits)

lemma ensure_idem: "prefsEnsure mp f (prefsEnsure mp f st) = prefsEnsure mp f st"
proof (cases "prefsEnsure mp f st = st")
  case False
  then have "prefsEnsure mp f st = prefsReload mp f f st" by (auto simp: prefsEnsure_def split: if_splits)
  then show ?thesis using reload_rows [of mp f f st]
    by (auto simp: prefsEnsure_def prefs_stat_same_def split: option.splits prod.splits)
qed simp

text \<open>Files seen over time, in which a stamp stands for one content.\<close>

definition versioned :: "(stamp \<Rightarrow> string) \<Rightarrow> pfile \<Rightarrow> bool" where
  "versioned version f \<longleftrightarrow> (case f of None \<Rightarrow> True | Some (s, text) \<Rightarrow> text = version s \<and> 0 \<le> snd (snd (snd (snd s))))"

definition cache_ok :: "nat \<Rightarrow> (stamp \<Rightarrow> string) \<Rightarrow> prefs_state \<Rightarrow> bool" where
  "cache_ok mp version st \<longleftrightarrow> (ps_loaded st \<longrightarrow>
     (\<exists>f. versioned version f \<and> ps_rows st = fst (rows_of mp f) \<and> ps_overflow st = snd (rows_of mp f)
        \<and> ps_stamp st = (case f of None \<Rightarrow> (0, 0, 0, 0, -1) | Some (s, c) \<Rightarrow> s)))"

lemma ensure_fresh:
  assumes "versioned version f" and "cache_ok mp version st"
  shows "ps_rows (prefsEnsure mp f st) = fst (rows_of mp f)" "ps_overflow (prefsEnsure mp f st) = snd (rows_of mp f)"
    "cache_ok mp version (prefsEnsure mp f st)"
proof -
  have *: "ps_rows (prefsEnsure mp f st) = fst (rows_of mp f) \<and> ps_overflow (prefsEnsure mp f st) = snd (rows_of mp f)
     \<and> cache_ok mp version (prefsEnsure mp f st)"
  proof (cases "prefsEnsure mp f st = prefsReload mp f f st")
    case True
    have "cache_ok mp version (prefsReload mp f f st)"
      unfolding cache_ok_def using reload_rows [of mp f f st] assms(1) by blast
    then show ?thesis using True reload_rows [of mp f f st] by simp
  next
    case False
    then have st: "prefsEnsure mp f st = st" "ps_loaded st"
      and same: "(case f of Some (s, c) \<Rightarrow> s = ps_stamp st | None \<Rightarrow> snd (snd (snd (snd (ps_stamp st)))) < 0)"
      by (auto simp: prefsEnsure_def prefs_stat_same_def split: if_splits option.splits prod.splits)
    obtain g where g: "versioned version g" "ps_rows st = fst (rows_of mp g)" "ps_overflow st = snd (rows_of mp g)"
      "ps_stamp st = (case g of None \<Rightarrow> (0, 0, 0, 0, -1) | Some (s, c) \<Rightarrow> s)"
      using assms(2) st(2) by (auto simp: cache_ok_def)
    have "f = g"
      using same g(1,4) assms(1) by (auto simp: versioned_def split: option.splits prod.splits)
    then show ?thesis using st g assms(2) by simp
  qed
  then show "ps_rows (prefsEnsure mp f st) = fst (rows_of mp f)" "ps_overflow (prefsEnsure mp f st) = snd (rows_of mp f)"
    "cache_ok mp version (prefsEnsure mp f st)" by blast+
qed

lemma prefs_start_cache: "cache_ok mp version prefs_start"
  by (simp add: cache_ok_def prefs_start_def)

text \<open>A replacement between the reading and the stamping of a reload stays unseen: the cache then
  answers with the old content for the new stamp.\<close>

lemma prefs_reload_race:
  assumes "later = Some (s, text)"
  shows "prefsEnsure mp later (prefsReload mp opened later st) = prefsReload mp opened later st"
    "ps_rows (prefsEnsure mp later (prefsReload mp opened later st)) = fst (rows_of mp opened)"
  using reload_rows [of mp opened later st] assms by (simp_all add: prefsEnsure_def prefs_stat_same_def)

section \<open>Editing\<close>



section \<open>A set is seen\<close>





lemma load_rows_length: "length acc \<le> 256 \<Longrightarrow> length (fst (load_rows mp ls acc)) \<le> 256"
  by (induction mp ls acc rule: load_rows.induct) (auto split: option.splits)


section \<open>Looking up with fallback\<close>

text \<open>The folders of a path, nearest first: its prefixes before a slash.\<close>

definition parents :: "string \<Rightarrow> string list" where
  "parents w = map (\<lambda>i. take i w) (rev (filter (\<lambda>i. w ! i = CHR ''/'') [0..<length w]))"

lemma parents_snoc: "parents (w @ [c]) = (if c = CHR ''/'' then w # parents w else parents w)"
proof -
  have "filter (\<lambda>i. (w @ [c]) ! i = CHR ''/'') [0..<length w] = filter (\<lambda>i. w ! i = CHR ''/'') [0..<length w]"
    by (rule filter_cong) (auto simp: nth_append)
  then show ?thesis by (simp add: parents_def nth_append)
qed

lemma before_slash_snoc: "before_slash (w @ [c]) = (if c = CHR ''/'' then Some w else before_slash w)"
  by (simp add: before_slash_def)

lemma parents_before_slash: "parents w = (case before_slash w of None \<Rightarrow> [] | Some v \<Rightarrow> v # parents v)"
proof (induction w rule: rev_induct)
  case Nil
  then show ?case by (simp add: parents_def before_slash_def)
next
  case (snoc c w)
  then show ?case by (simp add: parents_snoc before_slash_snoc)
qed

text \<open>The keys a lookup tries: the ROM, its folders, the outermost part of the path, the system.\<close>

definition lookup_keys :: "nat \<Rightarrow> string \<Rightarrow> (string \<times> string) list" where
  "lookup_keys mp rel =
     (if rel = [] then []
      else (''rom'', rel) # map (\<lambda>d. (''folder'', d))
             (let w = fit mp rel in parents w @ [last (w # parents w)]))
     @ [(''tag'', [])]"

definition first_set :: "(string \<times> string) list \<Rightarrow> bool \<times> string \<times> string" where
  "first_set vs = (case find is_set vs of None \<Rightarrow> (False, ([], [])) | Some v \<Rightarrow> (True, v))"

lemma not_is_set: "\<not> is_set v \<longleftrightarrow> v = ([], [])"
  by (cases v) (auto simp: is_set_def)

definition setting_of :: "pref list \<Rightarrow> string \<Rightarrow> nat \<Rightarrow> nat \<Rightarrow> string \<times> string \<Rightarrow> string \<times> string" where
  "setting_of rows tag gn en k = (fit gn (fst (row_setting rows (fst k) tag (snd k))), fit en (snd (row_setting rows (fst k) tag (snd k))))"

lemma get_ensured:
  assumes "prefsEnsure mp f st = st"
  shows "prefsGetExact mp f (Some k) (Some t) (Some r) gn en st = (setting_of (ps_rows st) t gn en (k, r), st)"
  using assms by (simp add: prefsGetExact_def setting_of_def rel_or_empty_def split_def Let_def)

lemma folder_loop_first:
  assumes "prefsEnsure mp f st = st"
  shows "folder_loop mp f tag w gn en st =
    (snd (first_set (map (\<lambda>d. setting_of (ps_rows st) tag gn en (''folder'', d)) (parents w @ [last (w # parents w)]))), st)"
proof (induction "length w" arbitrary: w rule: less_induct)
  case less
  let ?s = "\<lambda>d. setting_of (ps_rows st) tag gn en (''folder'', d)"
  show ?case
  proof (cases "before_slash w")
    case None
    then have "parents w = []" by (subst parents_before_slash) simp
    then show ?thesis
      using None not_is_set [of "?s w"] by (subst folder_loop.simps) (auto simp: get_ensured [OF assms] first_set_def)
  next
    case (Some v)
    have p: "parents w = v # parents v" using Some by (subst parents_before_slash) simp
    have len: "length v < length w" by (rule before_slash_shorter [OF Some])
    have unf: "folder_loop mp f tag w gn en st = (if is_set (?s v) then (?s v, st) else folder_loop mp f tag v gn en st)"
      using Some by (subst folder_loop.simps) (simp add: get_ensured [OF assms])
    show ?thesis unfolding unf less [OF len] p by (simp add: first_set_def)
  qed
qed

lemma first_set_append: "first_set (vs @ ws) = (if fst (first_set vs) then first_set vs else first_set ws)"
  by (induction vs) (auto simp: first_set_def)

lemma first_set_is_set: "is_set (snd (first_set vs)) = fst (first_set vs)"
proof (cases "find is_set vs")
  case None
  then show ?thesis by (simp add: first_set_def is_set_def)
next
  case (Some v)
  then have "is_set v" by (auto simp: find_Some_iff)
  then show ?thesis using Some by (simp add: first_set_def)
qed

text \<open>C23 (equivalence): a lookup answers with the first of the ROM's own setting, the settings of its
  folders from the nearest to the outermost, and the setting of the system that is not empty, as
  they stand in the file at that moment, and says that it found none otherwise.\<close>

theorem prefs_lookup_first:
  assumes "versioned version f" and "cache_ok mp version st" and "tag \<noteq> []"
  shows "\<exists>st'. prefsLookup mp f (Some tag) (Some rel) gn en st =
      (let r = first_set (map (setting_of (fst (rows_of mp f)) tag gn en) (lookup_keys mp rel)) in (fst r, snd r, st'))
    \<and> cache_ok mp version st'"
proof -
  let ?st = "prefsEnsure mp f st"
  have e: "prefsEnsure mp f ?st = ?st" by (rule ensure_idem)
  have rows: "ps_rows ?st = fst (rows_of mp f)" by (rule ensure_fresh(1) [OF assms(1,2)])
  let ?s = "setting_of (ps_rows ?st) tag gn en"
  let ?vs = "map (\<lambda>d. ?s (''folder'', d)) (let w = fit mp rel in parents w @ [last (w # parents w)])"
  have one: "first_set [v] = (is_set v, v)" for v
    by (cases "is_set v") (simp_all add: first_set_def not_is_set)
  have "prefsLookup mp f (Some tag) (Some rel) gn en st =
      (let r = first_set (map ?s (lookup_keys mp rel)) in (fst r, snd r, ?st))"
  proof (cases "rel = []")
    case True
    then show ?thesis
      using assms(3) by (simp add: prefsLookup_def rel_or_empty_def get_ensured [OF e] lookup_keys_def one Let_def)
  next
    case False
    have keys: "map ?s (lookup_keys mp rel) = [?s (''rom'', rel)] @ ?vs @ [?s (''tag'', [])]"
      using False by (simp add: lookup_keys_def Let_def o_def)
    show ?thesis
      unfolding keys first_set_append one using False assms(3) first_set_is_set [of ?vs]
      by (auto simp: prefsLookup_def rel_or_empty_def get_ensured [OF e] folder_loop_first [OF e] Let_def)
  qed
  then show ?thesis using ensure_fresh(3) [OF assms(1,2)] rows by auto
qed

section \<open>Examples\<close>





theorem prefs_lookup_first_witness:
  "fst (prefsLookup 512 (Some ((1, 1, 1, 1, 23), ''folder'' @ [c_tab] @ ''GB'' @ [c_tab] @ ''a'' @ [c_tab] @ ''smart'' @ [c_nl]))
      (Some ''GB'') (Some ''a/b/c'') 16 32 prefs_start)"
proof -
  let ?text = "''folder'' @ [c_tab] @ ''GB'' @ [c_tab] @ ''a'' @ [c_tab] @ ''smart'' @ [c_nl]"
  let ?f = "Some ((1, 1, 1, 1, 23), ?text) :: pfile"
  have "versioned (\<lambda>s. ?text) ?f" by (simp add: versioned_def)
  moreover have "fst (first_set (map (setting_of (fst (rows_of 512 ?f)) ''GB'' 16 32) (lookup_keys 512 ''a/b/c'')))" by code_simp
  ultimately show ?thesis
    using prefs_lookup_first [OF _ prefs_start_cache, of "\<lambda>s. ?text" ?f "''GB''" 512 "''a/b/c''" 16 32] by (auto simp: Let_def)
qed

end
