(* ===== verification/Pak_Spawn.thy ===== *)
theory Pak_Spawn
  imports C_Strings
begin

text \<open>
  The supervisor of a pak, \<^verbatim>\<open>nextui/zlyme/zlyme-pak-spawn.c\<close>: it starts the pak in a session of its
  own, publishes its identity, waits for it, and ends only when the session is empty or its
  cleanup has failed. The system is a parameter \<open>E\<close> that answers each system call by the number of
  calls made before it, so that processes may come and go between any two calls; the state counts
  the calls and records the signals sent. Allocation is taken to succeed.
\<close>

section \<open>Processes\<close>

record proc_info =
  pi_pid :: int
  pi_pgid :: int
  pi_sid :: int
  pi_state :: char
  pi_starttime :: nat

text \<open>What opening and reading a \<^verbatim>\<open>stat\<close> file gives: the process is gone, another error, or its text.\<close>

datatype stat_read = R_Gone | R_Fail | R_Text string

datatype info_result = I_Err | I_Gone | I_Proc proc_info

datatype wait_status = Exited int | Signaled int | OtherStatus

datatype wait_result = W_Child wait_status | W_None | W_Intr | W_NoChild | W_Fail

datatype call_result = C_Ok | C_Srch | C_Fail

text \<open>A listing of the process directory: the names, and whether reading and closing it failed.\<close>

record dir_read =
  dr_names :: "string list"
  dr_read_error :: bool
  dr_close_error :: bool

record system =
  e_stat :: "nat \<Rightarrow> int \<Rightarrow> stat_read"
  e_dir :: "nat \<Rightarrow> dir_read option"
  e_pidfd :: "nat \<Rightarrow> int \<Rightarrow> call_result"
  e_send :: "nat \<Rightarrow> int \<Rightarrow> call_result"
  e_kill :: "nat \<Rightarrow> int \<Rightarrow> call_result"
  e_wait :: "nat \<Rightarrow> wait_result"
  e_sid :: int
  e_pgrp :: int
  e_pid :: int

text \<open>A signal sent through a process descriptor: the identity it was meant for, the two moments at
  which that identity was read, and the signal.\<close>

record sent =
  st_info :: proc_info
  st_listed :: nat
  st_verified :: nat
  st_sig :: int

record sup =
  sp_time :: nat
  sp_sent :: "sent list"
  sp_file :: "string option"

definition tick :: "sup \<Rightarrow> sup" where
  "tick s = s\<lparr>sp_time := sp_time s + 1\<rparr>"

abbreviation (input) "SIGTERM \<equiv> (15 :: int)"
abbreviation (input) "SIGKILL \<equiv> (9 :: int)"
abbreviation (input) "TERM_POLLS \<equiv> (30 :: nat)"
abbreviation (input) "KILL_POLLS \<equiv> (10 :: nat)"
abbreviation (input) "CLEANUP_FAILED \<equiv> (125 :: int)"

section \<open>Parsing\<close>

definition is_delim :: "char \<Rightarrow> bool" where
  "is_delim c \<longleftrightarrow> c = CHR '' '' \<or> c = c_tab \<or> c = c_cr \<or> c = c_nl"

text \<open>The tokens \<^verbatim>\<open>strtok_r\<close> delivers.\<close>

fun tokens :: "string \<Rightarrow> string \<Rightarrow> string list" where
  "tokens [] cur = (if cur = [] then [] else [rev cur])"
| "tokens (c # s) cur =
     (if is_delim c then (if cur = [] then tokens s [] else rev cur # tokens s []) else tokens s (c # cur))"

definition to_pid :: "int \<Rightarrow> int" where
  "to_pid v = sint (word_of_int v :: 32 word)"

definition parse_number :: "string \<Rightarrow> int option" where
  "parse_number text =
     (case strtol10 text of (v, err, rest) \<Rightarrow> if err \<or> rest = text \<or> rest \<noteq> [] then None else Some v)"

text \<open>\<^verbatim>\<open>strtoull\<close> in base 10; a minus sign negates modulo \<open>2 ^ 64\<close>.\<close>

definition strtoull10 :: "string \<Rightarrow> nat \<times> bool \<times> string" where
  "strtoull10 s =
     (let s1 = dropWhile is_space s;
          neg = (s1 \<noteq> [] \<and> hd s1 = CHR ''-'');
          s2 = (if s1 \<noteq> [] \<and> (hd s1 = CHR ''-'' \<or> hd s1 = CHR ''+'') then tl s1 else s1);
          ds = takeWhile is_digit s2; rest = dropWhile is_digit s2; n = int (digits_val ds)
      in if ds = [] then (0, False, s)
         else if n \<ge> 2 ^ 64 then (nat (2 ^ 64 - 1), True, rest)
         else (nat (if neg \<and> n \<noteq> 0 then 2 ^ 64 - n else n), False, rest))"

definition parse_starttime :: "string \<Rightarrow> nat option" where
  "parse_starttime text =
     (case strtoull10 text of (v, err, rest) \<Rightarrow> if err \<or> rest = text \<or> rest \<noteq> [] then None else Some v)"

text \<open>The fields after the command name: state, group, session and start time.\<close>

fun parse_fields :: "string list \<Rightarrow> nat \<Rightarrow> proc_info \<Rightarrow> proc_info option" where
  "parse_fields [] field info = None"
| "parse_fields (token # toks) field info =
     (if field = 0
      then (if length token \<noteq> 1 then None else parse_fields toks (field + 1) (info\<lparr>pi_state := hd token\<rparr>))
      else if field = 2
      then (case parse_number token of None \<Rightarrow> None
            | Some v \<Rightarrow> parse_fields toks (field + 1) (info\<lparr>pi_pgid := to_pid v\<rparr>))
      else if field = 3
      then (case parse_number token of None \<Rightarrow> None
            | Some v \<Rightarrow> parse_fields toks (field + 1) (info\<lparr>pi_sid := to_pid v\<rparr>))
      else if field = 19
      then map_option (\<lambda>v. info\<lparr>pi_starttime := v\<rparr>) (parse_starttime token)
      else parse_fields toks (field + 1) info)"

definition parse_info :: "string \<Rightarrow> int \<Rightarrow> proc_info option" where
  "parse_info line pid =
     (if CHR '')'' \<notin> set line then None
      else let rest = rev (takeWhile (\<lambda>c. c \<noteq> CHR '')'') (rev line))
           in if rest = [] then None
              else parse_fields (tokens rest []) 0
                     \<lparr>pi_pid = pid, pi_pgid = 0, pi_sid = 0, pi_state = CHR 0x00, pi_starttime = 0\<rparr>)"

definition read_info :: "system \<Rightarrow> int \<Rightarrow> sup \<Rightarrow> info_result \<times> sup" where
  "read_info E pid s =
     (if pid \<le> 0 then (I_Err, s)
      else (case e_stat E (sp_time s) pid of
              R_Gone \<Rightarrow> I_Gone
            | R_Fail \<Rightarrow> I_Err
            | R_Text text \<Rightarrow> (case parse_info text pid of None \<Rightarrow> I_Err | Some i \<Rightarrow> I_Proc i), tick s))"

section \<open>The session\<close>

definition own_session :: "system \<Rightarrow> int \<Rightarrow> bool" where
  "own_session E leader \<longleftrightarrow> leader \<le> 1 \<or> e_sid E > 0 \<and> (leader = e_sid E \<or> leader = e_pgrp E)"

definition leader_session_state :: "system \<Rightarrow> int \<Rightarrow> nat \<Rightarrow> sup \<Rightarrow> int \<times> sup" where
  "leader_session_state E leader starttime s =
     (case read_info E leader s of
        (I_Err, s) \<Rightarrow> (-1, s)
      | (I_Gone, s) \<Rightarrow> (0, s)
      | (I_Proc info, s) \<Rightarrow>
          (if pi_starttime info \<noteq> starttime then -1
           else if pi_state info = CHR ''Z'' then 0
           else if pi_pgid info \<noteq> leader \<or> pi_sid info \<noteq> leader then -1 else 1, s))"

definition name_pid :: "string \<Rightarrow> int option" where
  "name_pid name =
     (if name = [] \<or> char_val (hd name) < 49 \<or> char_val (hd name) > 57 then None
      else case strtol10 name of (v, err, rest) \<Rightarrow> if rest \<noteq> [] then None else Some (to_pid v))"

text \<open>The loop over the directory; each member is kept with the moment it was read. \<open>None\<close> is the scan
  error of an unreadable process.\<close>

fun scan_names :: "system \<Rightarrow> int \<Rightarrow> string list \<Rightarrow> sup \<Rightarrow> (proc_info \<times> nat) list option \<times> sup" where
  "scan_names E leader [] s = (Some [], s)"
| "scan_names E leader (n # ns) s =
     (case name_pid n of
        None \<Rightarrow> scan_names E leader ns s
      | Some pid \<Rightarrow>
          if pid \<le> 1 \<or> pid = e_pid E \<or> pid = leader then scan_names E leader ns s
          else (case read_info E pid s of
                  (I_Gone, s') \<Rightarrow> scan_names E leader ns s'
                | (I_Err, s') \<Rightarrow> (None, s')
                | (I_Proc info, s') \<Rightarrow>
                    let (r, s'') = scan_names E leader ns s'
                    in (if pi_sid info \<noteq> leader \<or> pi_state info = CHR ''Z'' then r
                        else map_option (\<lambda>l. (info, sp_time s) # l) r, s'')))"

definition collect_members :: "system \<Rightarrow> int \<Rightarrow> nat \<Rightarrow> sup \<Rightarrow> (proc_info \<times> nat) list option \<times> sup" where
  "collect_members E leader starttime s =
     (if own_session E leader then (None, s)
      else let (ls, s) = leader_session_state E leader starttime s
      in if ls < 0 then (None, s)
         else (case e_dir E (sp_time s) of
                 None \<Rightarrow> (None, tick s)
               | Some d \<Rightarrow>
                   let (r, s) = scan_names E leader (dr_names d) (tick s)
                   in if r = None \<or> dr_read_error d \<or> dr_close_error d then (None, s)
                      else let (ls, s) = leader_session_state E leader starttime s
                           in if ls < 0 then (None, s) else (r, s)))"

definition session_busy :: "system \<Rightarrow> int \<Rightarrow> nat \<Rightarrow> sup \<Rightarrow> int \<times> sup" where
  "session_busy E leader starttime s =
     (case collect_members E leader starttime s of
        (None, s) \<Rightarrow> (-1, s)
      | (Some l, s) \<Rightarrow> (if l \<noteq> [] then 1 else 0, s))"

definition same_process :: "proc_info \<Rightarrow> proc_info \<Rightarrow> bool" where
  "same_process a b \<longleftrightarrow> pi_pid a = pi_pid b \<and> pi_pgid a = pi_pgid b \<and> pi_sid a = pi_sid b
     \<and> pi_starttime a = pi_starttime b \<and> pi_state b \<noteq> CHR ''Z''"

definition is_same :: "proc_info \<Rightarrow> info_result \<Rightarrow> bool" where
  "is_same a r = (case r of I_Proc b \<Rightarrow> same_process a b | _ \<Rightarrow> False)"

text \<open>The identity is read once more, the descriptor opened, and the identity read again before the
  signal is sent through the descriptor.\<close>

definition signal_verified :: "system \<Rightarrow> proc_info \<times> nat \<Rightarrow> int \<Rightarrow> sup \<Rightarrow> int \<times> sup" where
  "signal_verified E expected sig s =
     (let pid = pi_pid (fst expected); (cur, s) = read_info E pid s
      in if cur = I_Gone then (0, s)
         else if cur = I_Err then (-1, s)
         else if \<not> is_same (fst expected) cur then (0, s)
         else let fd = e_pidfd E (sp_time s) pid; s1 = tick s
         in if fd = C_Srch then (0, s1)
            else if fd = C_Fail then (-1, s1)
            else let (cur, s) = read_info E pid s1
            in if cur = I_Err then (-1, s)
               else if \<not> is_same (fst expected) cur then (0, s)
               else (case e_send E (sp_time s) pid of C_Ok \<Rightarrow> 1 | C_Srch \<Rightarrow> 0 | C_Fail \<Rightarrow> -1,
                     (tick s)\<lparr>sp_sent := sp_sent s @ [\<lparr>st_info = fst expected, st_listed = snd expected,
                        st_verified = sp_time s1, st_sig = sig\<rparr>]\<rparr>))"

fun signal_all :: "system \<Rightarrow> (proc_info \<times> nat) list \<Rightarrow> int \<Rightarrow> sup \<Rightarrow> bool \<times> sup" where
  "signal_all E [] sig s = (False, s)"
| "signal_all E (m # ms) sig s =
     (let (rc, s) = signal_verified E m sig s; (failed, s) = signal_all E ms sig s in (rc < 0 \<or> failed, s))"

definition signal_leader :: "system \<Rightarrow> int \<Rightarrow> int \<Rightarrow> sup \<Rightarrow> bool \<times> bool \<times> sup" where
  "signal_leader E leader sig s =
     (let (r, s1) = read_info E leader s
      in case r of
           I_Proc info \<Rightarrow> (let (rc, s2) = signal_verified E (info, sp_time s) sig s1 in (True, rc < 0, s2))
         | _ \<Rightarrow> (False, False, s1))"

definition signal_session :: "system \<Rightarrow> int \<Rightarrow> nat \<Rightarrow> int \<Rightarrow> sup \<Rightarrow> int \<times> sup" where
  "signal_session E leader starttime sig s =
     (if own_session E leader then (-1, s)
      else let (ls, s) = leader_session_state E leader starttime s
      in if ls < 0 then (-1, s)
         else let (ok, failed, s) = (if ls > 0 then signal_leader E leader sig s else (True, False, s))
              in if \<not> ok then (-1, s)
                 else let (r, s) = collect_members E leader starttime s
                 in (case r of
                       None \<Rightarrow> (-1, s)
                     | Some l \<Rightarrow> let (f2, s) = signal_all E l sig s in (if failed \<or> f2 then -1 else 0, s)))"

text \<open>Polling for an empty session.\<close>

fun poll_empty :: "system \<Rightarrow> int \<Rightarrow> nat \<Rightarrow> nat \<Rightarrow> sup \<Rightarrow> int option \<times> sup" where
  "poll_empty E leader starttime 0 s = (None, s)"
| "poll_empty E leader starttime (Suc n) s =
     (let (busy, s) = session_busy E leader starttime s
      in if busy < 0 then (Some (-1), s) else if busy = 0 then (Some 0, s)
         else poll_empty E leader starttime n s)"

definition reap_session :: "system \<Rightarrow> int \<Rightarrow> nat \<Rightarrow> sup \<Rightarrow> int \<times> sup" where
  "reap_session E leader starttime s =
     (let (busy, s) = session_busy E leader starttime s
      in if busy < 0 then (-1, s)
         else if busy = 0 then (0, s)
         else let (rc, s) = signal_session E leader starttime SIGTERM s
         in if rc \<noteq> 0 then (-1, s)
            else let (r, s) = poll_empty E leader starttime TERM_POLLS s
            in if r \<noteq> None then (the r, s)
               else let (rc, s) = signal_session E leader starttime SIGKILL s
               in if rc \<noteq> 0 then (-1, s)
                  else let (r, s) = poll_empty E leader starttime KILL_POLLS s
                  in if r \<noteq> None then (the r, s) else (-1, s))"

section \<open>The child\<close>

text \<open>Polling for the end of the child: 1 with its status, 0 when it still runs, \<open>-1\<close>.\<close>

fun wait_child_bounded :: "system \<Rightarrow> nat \<Rightarrow> sup \<Rightarrow> (int \<times> wait_status option) \<times> sup" where
  "wait_child_bounded E 0 s = ((0, None), s)"
| "wait_child_bounded E (Suc n) s =
     (case e_wait E (sp_time s) of
        W_Child st \<Rightarrow> ((1, Some st), tick s)
      | W_Intr \<Rightarrow> wait_child_bounded E n (tick s)
      | W_None \<Rightarrow> wait_child_bounded E n (tick s)
      | W_NoChild \<Rightarrow> ((-1, None), tick s)
      | W_Fail \<Rightarrow> ((-1, None), tick s))"

definition stop_child_bounded :: "system \<Rightarrow> int \<Rightarrow> sup \<Rightarrow> int \<times> sup" where
  "stop_child_bounded E pid s =
     (if e_kill E (sp_time s) pid = C_Fail then (-1, tick s)
      else let ((rc, st), s) = wait_child_bounded E TERM_POLLS (tick s)
      in if rc \<noteq> 0 then (if rc > 0 then 0 else -1, s)
         else if e_kill E (sp_time s) pid = C_Fail then (-1, tick s)
         else let ((rc, st), s) = wait_child_bounded E KILL_POLLS (tick s)
         in (if rc > 0 then 0 else -1, s))"

definition stop_session_bounded :: "system \<Rightarrow> int \<Rightarrow> nat \<Rightarrow> sup \<Rightarrow> int \<times> sup" where
  "stop_session_bounded E leader starttime s =
     (let (rc1, s) = signal_session E leader starttime SIGTERM s;
          ((rc, st), s) = wait_child_bounded E TERM_POLLS s;
          (rc, s) = (if rc = 0
                     then (let (rc2, s) = signal_session E leader starttime SIGKILL s;
                               ((rc, st), s) = wait_child_bounded E KILL_POLLS (tick s)
                           in (rc, s))
                     else (rc, s))
      in if rc < 1 then (-1, s)
         else let (r, s) = reap_session E leader starttime s in (if r \<noteq> 0 then -1 else 0, s))"

definition child_status :: "wait_status \<Rightarrow> int" where
  "child_status st =
     (case st of Exited rc \<Rightarrow> if rc = CLEANUP_FAILED then 126 else rc | Signaled n \<Rightarrow> 128 + n | OtherStatus \<Rightarrow> 1)"

definition leader_body :: "int \<Rightarrow> nat \<Rightarrow> int \<Rightarrow> nat \<Rightarrow> string" where
  "leader_body pid starttime waiter waiter_starttime =
     dec_int pid @ '' '' @ dec starttime @ '' '' @ dec_int waiter @ '' '' @ dec waiter_starttime @ [c_nl]"

text \<open>The leader file is replaced by the rename; the results of the calls are inputs.\<close>

record leader_io =
  lw_open :: bool
  lw_write :: bool
  lw_close :: bool
  lw_rename :: bool

definition write_leader :: "leader_io \<Rightarrow> string \<Rightarrow> string \<Rightarrow> sup \<Rightarrow> bool \<times> sup" where
  "write_leader io path body s =
     (if length (path @ ''.tmp'') \<ge> 4096 then (False, s)
      else if \<not> lw_open io then (False, s)
      else if length body \<ge> 128 \<or> \<not> lw_write io then (False, s)
      else if \<not> lw_close io then (False, s)
      else if \<not> lw_rename io then (False, s)
      else (True, s\<lparr>sp_file := Some body\<rparr>))"

section \<open>The main program\<close>

text \<open>What the start of the child tells the parent: the pipes and the fork failed, the handshake
  failed, or the start time of the child; then the parent's own identity and the leader file.\<close>

record spawn_input =
  in_args_ok :: bool
  in_path :: string
  in_pipes_ok :: bool
  in_child :: int
  in_identity :: "(bool \<times> nat) option"
  in_leader_io :: leader_io
  in_ack_ok :: bool
  in_waits :: "(bool \<times> wait_result) list"

text \<open>The loop of the parent, over what it sees in each round: the stop flag, and the answer of the
  blocking wait. \<open>Inl\<close> is an exit code, \<open>Inr\<close> the status the loop was left with, \<open>None\<close> that the
  answers are used up and the parent still waits.\<close>

fun wait_rounds :: "system \<Rightarrow> int \<Rightarrow> nat \<Rightarrow> (bool \<times> wait_result) list \<Rightarrow> wait_status \<Rightarrow> sup \<Rightarrow> (int + wait_status) option \<times> sup" where
  "wait_rounds E child starttime [] st s = (None, s)"
| "wait_rounds E child starttime ((stop, w) # ws) st s =
     (if stop
      then (let (rc, s) = stop_session_bounded E child starttime s
            in (Some (Inl (if rc \<noteq> 0 then CLEANUP_FAILED else 128 + SIGTERM)), s))
      else case w of
             W_Child st \<Rightarrow> (Some (Inr st), s)
           | W_Intr \<Rightarrow> wait_rounds E child starttime ws st s
           | W_NoChild \<Rightarrow> (Some (Inr st), s)
           | W_Fail \<Rightarrow> (Some (Inl 127), s)
           | W_None \<Rightarrow> wait_rounds E child starttime ws st s)"

text \<open>A child that did not report: it is awaited once, then stopped.\<close>

definition spawn_unready :: "system \<Rightarrow> int \<Rightarrow> sup \<Rightarrow> int option \<times> sup" where
  "spawn_unready E child s =
     (let ((rc, st), s) = wait_child_bounded E 1 s
      in if rc = 1 then (Some 127, s)
         else let (rc, s) = stop_child_bounded E child s in (Some (if rc \<noteq> 0 then CLEANUP_FAILED else 127), s))"

text \<open>A session that could not be published or released is stopped.\<close>

definition spawn_abort :: "system \<Rightarrow> int \<Rightarrow> nat \<Rightarrow> sup \<Rightarrow> int option \<times> sup" where
  "spawn_abort E child starttime s =
     (let (rc, s) = stop_session_bounded E child starttime s in (Some (if rc \<noteq> 0 then CLEANUP_FAILED else 127), s))"

definition publish :: "system \<Rightarrow> spawn_input \<Rightarrow> int \<Rightarrow> nat \<Rightarrow> sup \<Rightarrow> bool \<times> sup" where
  "publish E i child starttime s =
     (let (r, s) = read_info E (e_pid E) s
      in case r of
           I_Proc w \<Rightarrow> write_leader (in_leader_io i) (in_path i) (leader_body child starttime (e_pid E) (pi_starttime w)) s
         | _ \<Rightarrow> (False, s))"

text \<open>The parent once the child has reported its start time.\<close>

definition supervise :: "system \<Rightarrow> spawn_input \<Rightarrow> int \<Rightarrow> nat \<Rightarrow> sup \<Rightarrow> int option \<times> sup" where
  "supervise E i child starttime s =
     (let (ok, s) = publish E i child starttime s
      in if \<not> ok then spawn_abort E child starttime s
         else if \<not> in_ack_ok i then spawn_abort E child starttime (s\<lparr>sp_file := None\<rparr>)
         else let (r, s) = wait_rounds E child starttime (in_waits i) (Exited 0) s
         in (case r of
               None \<Rightarrow> (None, s)
             | Some (Inl rc) \<Rightarrow> (Some rc, s)
             | Some (Inr st) \<Rightarrow>
                 let (rc, s) = reap_session E child starttime s
                 in (Some (if rc \<noteq> 0 then CLEANUP_FAILED else child_status st), s)))"

definition spawn_main :: "system \<Rightarrow> spawn_input \<Rightarrow> sup \<Rightarrow> int option \<times> sup" where
  "spawn_main E i s =
     (if \<not> in_args_ok i \<or> in_path i = [] then (Some 2, s)
      else if \<not> in_pipes_ok i \<or> in_child i < 0 then (Some 127, s)
      else (case in_identity i of
              Some (True, starttime) \<Rightarrow>
                if starttime = 0 then spawn_unready E (in_child i) s else supervise E i (in_child i) starttime s
            | _ \<Rightarrow> spawn_unready E (in_child i) s))"

end
