(* ===== verification/Pak_Spawn_Props.thy ===== *)
theory Pak_Spawn_Props
  imports Pak_Spawn
begin

text \<open>
  The pak supervisor signals only processes it has verified: lemmas on each step, composed into one
  relation between the state before and after.
\<close>

section \<open>Who is signalled\<close>

lemma parse_fields_pid: "parse_fields toks field info = Some i \<Longrightarrow> pi_pid i = pi_pid info"
  by (induction toks field info rule: parse_fields.induct) (auto split: if_splits option.splits)

lemma parse_info_pid: "parse_info text pid = Some i \<Longrightarrow> pi_pid i = pid"
  by (auto simp: parse_info_def Let_def dest!: parse_fields_pid split: if_splits)

text \<open>The identity a process had when it was read.\<close>

definition identity_at :: "system \<Rightarrow> nat \<Rightarrow> int \<Rightarrow> proc_info \<Rightarrow> bool" where
  "identity_at E t pid i \<longleftrightarrow> pi_pid i = pid \<and> (\<exists>text. e_stat E t pid = R_Text text \<and> parse_info text pid = Some i)"

lemma read_info_result:
  assumes "read_info E pid s = (r, s')"
  shows "sp_sent s' = sp_sent s" "sp_time s \<le> sp_time s'"
    "r = I_Proc i \<Longrightarrow> identity_at E (sp_time s) pid i \<and> sp_time s < sp_time s'"
  using assms
  by (auto simp: read_info_def tick_def identity_at_def parse_info_pid split: if_splits stat_read.splits option.splits)

text \<open>A member of the session of \<open>leader\<close> that was seen alive at a moment, and is not this process.\<close>

definition member_at :: "system \<Rightarrow> int \<Rightarrow> proc_info \<times> nat \<Rightarrow> bool" where
  "member_at E leader m \<longleftrightarrow> identity_at E (snd m) (pi_pid (fst m)) (fst m) \<and> pi_sid (fst m) = leader
     \<and> (pi_pid (fst m) = leader \<or> 1 < pi_pid (fst m) \<and> pi_pid (fst m) \<noteq> e_pid E)"

definition sent_ok :: "system \<Rightarrow> int \<Rightarrow> sent \<Rightarrow> bool" where
  "sent_ok E leader x \<longleftrightarrow> \<not> own_session E leader \<and> member_at E leader (st_info x, st_listed x)
     \<and> st_listed x < st_verified x
     \<and> (\<exists>now. identity_at E (st_verified x) (pi_pid (st_info x)) now \<and> same_process (st_info x) now)"

text \<open>The steps that send nothing.\<close>

definition quiet_step :: "sup \<Rightarrow> sup \<Rightarrow> bool" where
  "quiet_step s s' \<longleftrightarrow> sp_sent s' = sp_sent s \<and> sp_time s \<le> sp_time s'"

lemma quiet_tick [simp]: "quiet_step s (tick s)"
  by (simp add: quiet_step_def tick_def)

lemma quiet_refl [simp]: "quiet_step s s"
  by (simp add: quiet_step_def)

lemma quiet_trans: "quiet_step a b \<Longrightarrow> quiet_step b c \<Longrightarrow> quiet_step a c"
  by (auto simp: quiet_step_def)

lemma read_info_quiet: "read_info E pid s = (r, s') \<Longrightarrow> quiet_step s s'"
  by (simp add: quiet_step_def read_info_result)

lemma leader_state_quiet: "leader_session_state E leader st s = (r, s') \<Longrightarrow> quiet_step s s'"
  by (auto simp: leader_session_state_def dest: read_info_quiet split: prod.splits info_result.splits)

lemma scan_names_members:
  assumes "scan_names E leader ns s = (r, s')"
  shows "quiet_step s s' \<and> (\<forall>l. r = Some l \<longrightarrow> (\<forall>m \<in> set l. member_at E leader m \<and> snd m < sp_time s'))"
  using assms
proof (induction E leader ns s arbitrary: r s' rule: scan_names.induct)
  case (1 E leader s)
  then show ?case by auto
next
  case (2 E leader n ns s)
  show ?case
  proof (cases "name_pid n")
    case None
    then show ?thesis using "2.IH"(1) "2.prems" by simp
  next
    case (Some pid)
    show ?thesis
    proof (cases "pid \<le> 1 \<or> pid = e_pid E \<or> pid = leader")
      case True
      then show ?thesis using "2.IH"(2) [OF Some] "2.prems" Some by auto
    next
      case False
      obtain i s1 where rd: "read_info E pid s = (i, s1)" by (cases "read_info E pid s")
      note q = read_info_quiet [OF rd]
      show ?thesis
      proof (cases i)
        case I_Err
        then show ?thesis using "2.prems" Some False rd q by auto
      next
        case I_Gone
        then have "scan_names E leader ns s1 = (r, s')" using "2.prems" Some False rd by auto
        from "2.IH"(3) [OF Some False rd [symmetric] I_Gone this] q show ?thesis by (meson quiet_trans)
      next
        case (I_Proc info)
        obtain r2 s2 where sc: "scan_names E leader ns s1 = (r2, s2)" by (cases "scan_names E leader ns s1")
        from "2.IH"(4) [OF Some False rd [symmetric] I_Proc sc]
        have ih: "quiet_step s1 s2 \<and> (\<forall>l. r2 = Some l \<longrightarrow> (\<forall>m \<in> set l. member_at E leader m \<and> snd m < sp_time s2))" .
        have id: "identity_at E (sp_time s) pid info" "sp_time s < sp_time s1"
          using read_info_result(3) [OF rd I_Proc] by auto
        have res: "s' = s2" "r = (if pi_sid info \<noteq> leader \<or> pi_state info = CHR ''Z'' then r2
            else map_option (\<lambda>l. (info, sp_time s) # l) r2)"
          using "2.prems" Some False rd I_Proc sc by auto
        have "member_at E leader (info, sp_time s)" if "pi_sid info = leader"
          using that id False by (auto simp: member_at_def identity_at_def)
        moreover have "quiet_step s s2" using ih quiet_trans [OF q] by blast
        moreover have "sp_time s < sp_time s2" using ih id(2) by (auto simp: quiet_step_def)
        ultimately show ?thesis using ih res by (fastforce split: if_splits)
      qed
    qed
  qed
qed

lemma collect_members_members:
  assumes "collect_members E leader st s = (r, s')"
  shows "quiet_step s s'" "r = Some l \<Longrightarrow> \<not> own_session E leader \<and> (\<forall>m \<in> set l. member_at E leader m \<and> snd m < sp_time s')"
proof -
  obtain a s1 where a: "leader_session_state E leader st s = (a, s1)" by (cases "leader_session_state E leader st s")
  note q1 = leader_state_quiet [OF a]
  have *: "quiet_step s s' \<and> (\<forall>l. r = Some l \<longrightarrow> \<not> own_session E leader \<and> (\<forall>m \<in> set l. member_at E leader m \<and> snd m < sp_time s'))"
  proof (cases "own_session E leader \<or> a < 0 \<or> e_dir E (sp_time s1) = None")
    case True
    then have "r = None \<and> (s' = s \<or> s' = s1 \<or> s' = tick s1)"
      using assms a by (auto simp: collect_members_def split: if_splits)
    then show ?thesis using q1 quiet_trans [OF q1 quiet_tick] by auto
  next
    case False
    then obtain d where d: "e_dir E (sp_time s1) = Some d" by blast
    obtain b s2 where b: "scan_names E leader (dr_names d) (tick s1) = (b, s2)"
      by (cases "scan_names E leader (dr_names d) (tick s1)")
    note sc = scan_names_members [OF b]
    have q2: "quiet_step s s2" using quiet_trans [OF quiet_trans [OF q1 quiet_tick]] sc by blast
    obtain c s3 where c: "leader_session_state E leader st s2 = (c, s3)" by (cases "leader_session_state E leader st s2")
    note q3 = leader_state_quiet [OF c]
    have "(r, s') = (if b = None \<or> dr_read_error d \<or> dr_close_error d then (None, s2)
        else if c < 0 then (None, s3) else (b, s3))"
      using assms a d b c False by (auto simp: collect_members_def split: if_splits)
    then show ?thesis
      using sc q2 quiet_trans [OF q2 q3] q3 False by (fastforce simp: quiet_step_def split: if_splits)
  qed
  then show "quiet_step s s'"
    "r = Some l \<Longrightarrow> \<not> own_session E leader \<and> (\<forall>m \<in> set l. member_at E leader m \<and> snd m < sp_time s')" by blast+
qed

text \<open>Steps that send only as they should.\<close>

definition careful :: "system \<Rightarrow> int \<Rightarrow> sup \<Rightarrow> sup \<Rightarrow> bool" where
  "careful E leader s s' \<longleftrightarrow> sp_time s \<le> sp_time s' \<and> (\<exists>new. sp_sent s' = sp_sent s @ new \<and> (\<forall>x \<in> set new. sent_ok E leader x))"

lemma careful_quiet: "quiet_step s s' \<Longrightarrow> careful E leader s s'"
  by (simp add: careful_def quiet_step_def)

lemma careful_trans: "careful E leader a b \<Longrightarrow> careful E leader b c \<Longrightarrow> careful E leader a c"
  unfolding careful_def by fastforce

lemma signal_verified_careful:
  assumes m: "member_at E leader m" "snd m < sp_time s" and own: "\<not> own_session E leader"
    and sv: "signal_verified E m sig s = (rc, s')"
  shows "careful E leader s s'"
proof -
  let ?pid = "pi_pid (fst m)"
  obtain r1 s1 where r1: "read_info E ?pid s = (r1, s1)" by (cases "read_info E ?pid s")
  obtain r2 s2 where r2: "read_info E ?pid (tick s1) = (r2, s2)" by (cases "read_info E ?pid (tick s1)")
  note q1 = read_info_quiet [OF r1] and q2 = read_info_quiet [OF r2]
  have q: "quiet_step s (tick s1)" "quiet_step s s2" "quiet_step s (tick s2)"
    using quiet_trans [OF q1 quiet_tick] quiet_trans [OF _ q2] quiet_trans [OF _ quiet_tick] by blast+
  let ?x = "\<lparr>st_info = fst m, st_listed = snd m, st_verified = sp_time (tick s1), st_sig = sig\<rparr>"
  consider "quiet_step s s'" | "is_same (fst m) r2" "s' = (tick s2)\<lparr>sp_sent := sp_sent s2 @ [?x]\<rparr>"
    using sv q q1 r1 r2 by (auto simp: signal_verified_def Let_def split: if_splits)
  then show ?thesis
  proof cases
    case 1
    then show ?thesis by (rule careful_quiet)
  next
    case 2
    then obtain j where j: "r2 = I_Proc j" "same_process (fst m) j" by (auto simp: is_same_def split: info_result.splits)
    have "sent_ok E leader ?x"
      using m own j read_info_result(3) [OF r2 j(1)] q1 by (auto simp: sent_ok_def quiet_step_def tick_def)
    then show ?thesis
      using 2 q(2) by (auto simp: careful_def quiet_step_def tick_def intro!: exI [of _ "[?x]"])
  qed
qed

lemma signal_all_careful:
  assumes "\<forall>m \<in> set ms. member_at E leader m \<and> snd m < sp_time s" and "\<not> own_session E leader"
    and "signal_all E ms sig s = (r, s')"
  shows "careful E leader s s'"
  using assms
proof (induction ms arbitrary: s r s')
  case Nil
  then show ?case by (simp add: careful_quiet)
next
  case (Cons m ms)
  obtain rc s1 where 1: "signal_verified E m sig s = (rc, s1)" by (cases "signal_verified E m sig s")
  obtain f s2 where 2: "signal_all E ms sig s1 = (f, s2)" by (cases "signal_all E ms sig s1")
  have c1: "careful E leader s s1" using Cons.prems by (intro signal_verified_careful [OF _ _ _ 1]) auto
  then have "sp_time s \<le> sp_time s1" by (simp add: careful_def)
  then have "careful E leader s1 s2" using Cons.prems by (intro Cons.IH [OF _ _ 2]) fastforce+
  then show ?case using c1 Cons.prems(3) 1 2 careful_trans by auto
qed

text \<open>The session leader keeps its session while it lives and is not waited for: between two
  consecutive reads of a living leader it does not become another process.\<close>

definition leader_stable :: "system \<Rightarrow> int \<Rightarrow> nat \<Rightarrow> bool" where
  "leader_stable E leader starttime \<longleftrightarrow>
     (\<forall>t i j. identity_at E t leader i \<and> pi_starttime i = starttime \<and> pi_state i \<noteq> CHR ''Z'' \<and> pi_sid i = leader
        \<and> identity_at E (Suc t) leader j \<longrightarrow> pi_sid j = leader)"

lemma leader_state_live:
  assumes "leader_session_state E leader st s = (r, s')" and "0 < r" and "1 < leader"
  obtains i where "identity_at E (sp_time s) leader i" "pi_starttime i = st" "pi_state i \<noteq> CHR ''Z''" "pi_sid i = leader"
    "sp_time s' = Suc (sp_time s)"
proof -
  obtain x s1 where x: "read_info E leader s = (x, s1)" by (cases "read_info E leader s")
  then obtain i where i: "x = I_Proc i"
    using assms by (cases x) (auto simp: leader_session_state_def)
  have "sp_time s1 = Suc (sp_time s)" using x assms(3) by (auto simp: read_info_def tick_def)
  then show thesis
    using that [of i] read_info_result(3) [OF x i] assms x i by (auto simp: leader_session_state_def split: if_splits)
qed

lemma signal_session_careful:
  assumes stable: "leader_stable E leader st" and ss: "signal_session E leader st sig s = (r, s')"
  shows "careful E leader s s'"
proof (cases "own_session E leader")
  case True
  then show ?thesis using ss by (simp add: signal_session_def careful_quiet)
next
  case False
  then have l: "1 < leader" by (simp add: own_session_def)
  obtain ls s1 where ls: "leader_session_state E leader st s = (ls, s1)" by (cases "leader_session_state E leader st s")
  have c1: "careful E leader s s1" by (rule careful_quiet [OF leader_state_quiet [OF ls]])
  obtain ok failed s2 where p: "(if ls > 0 then signal_leader E leader sig s1 else (True, False, s1)) = (ok, failed, s2)"
    by (metis prod_cases3)
  have c2: "careful E leader s1 s2"
  proof (cases "ls > 0")
    case True
    obtain i where i: "identity_at E (sp_time s) leader i" "pi_starttime i = st" "pi_state i \<noteq> CHR ''Z''" "pi_sid i = leader"
      "sp_time s1 = Suc (sp_time s)" by (rule leader_state_live [OF ls True l])
    obtain x t where x: "read_info E leader s1 = (x, t)" by (cases "read_info E leader s1")
    note q = careful_quiet [OF read_info_quiet [OF x]]
    show ?thesis
    proof (cases x)
      case (I_Proc j)
      note j = read_info_result(3) [OF x I_Proc]
      have "pi_sid j = leader" using stable i j unfolding leader_stable_def by metis
      then have "member_at E leader (j, sp_time s1)" using j by (auto simp: member_at_def identity_at_def)
      then show ?thesis
        using p True x I_Proc j q careful_trans [OF q] signal_verified_careful [OF _ _ False, of "(j, sp_time s1)" t sig]
        by (auto simp: signal_leader_def split: prod.splits)
    qed (use p True x q in \<open>auto simp: signal_leader_def\<close>)
  qed (use p in \<open>auto simp: careful_quiet\<close>)
  obtain m s3 where m: "collect_members E leader st s2 = (m, s3)" by (cases "collect_members E leader st s2")
  note cm = collect_members_members [OF m]
  have c3: "careful E leader s2 s3" by (rule careful_quiet [OF cm(1)])
  have c4: "careful E leader s3 s4" if "m = Some l" "signal_all E l sig s3 = (f, s4)" for l f s4
    by (rule signal_all_careful [OF _ False that(2)]) (use cm(2) [OF that(1)] in blast)
  note c13 = careful_trans [OF careful_trans [OF c1 c2] c3]
  show ?thesis
  proof (cases "ls < 0 \<or> \<not> ok \<or> m = None")
    case True
    then have "s' = s1 \<or> s' = s2 \<or> s' = s3"
      using ss False ls p m by (auto simp: signal_session_def split: if_splits)
    then show ?thesis using c1 careful_trans [OF c1 c2] c13 by auto
  next
    case nf: False
    then obtain l where l: "m = Some l" by blast
    obtain f s4 where f: "signal_all E l sig s3 = (f, s4)" by (cases "signal_all E l sig s3")
    have "s' = s4" using ss False ls p m l f nf by (simp add: signal_session_def)
    then show ?thesis using careful_trans [OF c13 c4 [OF l f]] by simp
  qed
qed

lemma session_busy_quiet: "session_busy E leader st s = (r, s') \<Longrightarrow> quiet_step s s'"
  by (auto simp: session_busy_def collect_members_members(1) split: prod.splits option.splits)

lemma poll_empty_quiet: "poll_empty E leader st n s = (r, s') \<Longrightarrow> quiet_step s s'"
proof (induction n arbitrary: s)
  case (Suc n)
  obtain b s1 where b: "session_busy E leader st s = (b, s1)" by (cases "session_busy E leader st s")
  show ?case using Suc b session_busy_quiet [OF b] quiet_trans [OF session_busy_quiet [OF b]] by (auto split: if_splits)
qed simp

lemma wait_child_quiet: "wait_child_bounded E n s = (r, s') \<Longrightarrow> quiet_step s s'"
  by (induction n arbitrary: s) (auto split: wait_result.splits intro: quiet_trans [OF quiet_tick])

lemma reap_session_careful:
  assumes stable: "leader_stable E leader st" and rs: "reap_session E leader st s = (r, s')"
  shows "careful E leader s s'"
proof -
  obtain b s1 where 1: "session_busy E leader st s = (b, s1)" by (cases "session_busy E leader st s")
  obtain k s2 where 2: "signal_session E leader st SIGTERM s1 = (k, s2)" by (cases "signal_session E leader st SIGTERM s1")
  obtain p s3 where 3: "poll_empty E leader st TERM_POLLS s2 = (p, s3)" by (cases "poll_empty E leader st TERM_POLLS s2")
  obtain k' s4 where 4: "signal_session E leader st SIGKILL s3 = (k', s4)" by (cases "signal_session E leader st SIGKILL s3")
  obtain p' s5 where 5: "poll_empty E leader st KILL_POLLS s4 = (p', s5)" by (cases "poll_empty E leader st KILL_POLLS s4")
  have c1: "careful E leader s s1" by (rule careful_quiet [OF session_busy_quiet [OF 1]])
  have c2: "careful E leader s s2" by (rule careful_trans [OF c1 signal_session_careful [OF stable 2]])
  have c3: "careful E leader s s3" by (rule careful_trans [OF c2 careful_quiet [OF poll_empty_quiet [OF 3]]])
  have c4: "careful E leader s s4" by (rule careful_trans [OF c3 signal_session_careful [OF stable 4]])
  have c5: "careful E leader s s5" by (rule careful_trans [OF c4 careful_quiet [OF poll_empty_quiet [OF 5]]])
  have "s' \<in> {s1, s2, s3, s4, s5}"
    using rs 1 2 3 4 5 unfolding reap_session_def by (simp split: if_splits)
  then show ?thesis using c1 c2 c3 c4 c5 by blast
qed

lemma stop_session_careful:
  assumes stable: "leader_stable E leader st" and rs: "stop_session_bounded E leader st s = (r, s')"
  shows "careful E leader s s'"
proof -
  obtain k s1 where 1: "signal_session E leader st SIGTERM s = (k, s1)" by (cases "signal_session E leader st SIGTERM s")
  obtain w x s2 where 2: "wait_child_bounded E TERM_POLLS s1 = ((w, x), s2)" by (metis prod.exhaust)
  obtain k' s3 where 3: "signal_session E leader st SIGKILL s2 = (k', s3)" by (cases "signal_session E leader st SIGKILL s2")
  obtain w' x' s4 where 4: "wait_child_bounded E KILL_POLLS (tick s3) = ((w', x'), s4)" by (metis prod.exhaust)
  have c2: "careful E leader s s2"
    by (rule careful_trans [OF signal_session_careful [OF stable 1] careful_quiet [OF wait_child_quiet [OF 2]]])
  have c4: "careful E leader s s4"
    by (rule careful_trans [OF careful_trans [OF c2 signal_session_careful [OF stable 3]]
          careful_quiet [OF quiet_trans [OF quiet_tick wait_child_quiet [OF 4]]]])
  obtain v t where m: "(if w = 0 then (w', s4) else (w, s2)) = (v, t)" by (metis prod.exhaust)
  have ct: "careful E leader s t" using m c2 c4 by (auto split: if_splits)
  obtain q u where q: "reap_session E leader st t = (q, u)" by (cases "reap_session E leader st t")
  have "(r, s') = (if v < 1 then (-1, t) else (if q \<noteq> 0 then -1 else 0, u))"
    using rs 1 2 3 4 m q unfolding stop_session_bounded_def by (auto split: if_splits)
  then have "s' \<in> {t, u}" by (simp split: if_splits)
  then show ?thesis using ct careful_trans [OF ct reap_session_careful [OF stable q]] by blast
qed

lemma wait_rounds_careful:
  assumes stable: "leader_stable E leader st" and w: "wait_rounds E leader st ws x s = (r, s')"
  shows "careful E leader s s'"
  using w
proof (induction ws arbitrary: s)
  case Nil
  then show ?case by (simp add: careful_quiet)
next
  case (Cons a ws)
  obtain b v where a: "a = (b, v)" by (cases a)
  show ?case
  proof (cases b)
    case True
    obtain k s1 where "stop_session_bounded E leader st s = (k, s1)" by (cases "stop_session_bounded E leader st s")
    then show ?thesis using Cons.prems a True stop_session_careful [OF stable] by auto
  qed (use Cons a in \<open>auto simp: careful_quiet split: wait_result.splits\<close>)
qed

lemma publish_quiet: "publish E i child st s = (r, s') \<Longrightarrow> quiet_step s s'"
  by (auto simp: publish_def write_leader_def quiet_step_def dest: read_info_result split: prod.splits info_result.splits if_splits)

lemma spawn_abort_careful:
  "leader_stable E leader st \<Longrightarrow> spawn_abort E leader st s = (r, s') \<Longrightarrow> careful E leader s s'"
  by (auto simp: spawn_abort_def intro: stop_session_careful split: prod.splits)

lemma supervise_careful:
  assumes stable: "leader_stable E leader st" and sv: "supervise E i leader st s = (r, s')"
  shows "careful E leader s s'"
proof -
  obtain ok s1 where 1: "publish E i leader st s = (ok, s1)" by (cases "publish E i leader st s")
  have c1: "careful E leader s s1" by (rule careful_quiet [OF publish_quiet [OF 1]])
  obtain w s2 where 2: "wait_rounds E leader st (in_waits i) (Exited 0) s1 = (w, s2)"
    by (cases "wait_rounds E leader st (in_waits i) (Exited 0) s1")
  have c2: "careful E leader s s2" by (rule careful_trans [OF c1 wait_rounds_careful [OF stable 2]])
  obtain k s3 where 3: "reap_session E leader st s2 = (k, s3)" by (cases "reap_session E leader st s2")
  have c3: "careful E leader s s3" by (rule careful_trans [OF c2 reap_session_careful [OF stable 3]])
  have f: "careful E leader s (s1\<lparr>sp_file := None\<rparr>)" using c1 by (simp add: careful_def)
  show ?thesis
  proof (cases "ok \<and> in_ack_ok i")
    case True
    then have "s' = s2 \<or> s' = s3"
      using sv 1 2 3 by (auto simp: supervise_def split: option.splits sum.splits)
    then show ?thesis using c2 c3 by blast
  next
    case False
    then have "spawn_abort E leader st s1 = (r, s') \<or> spawn_abort E leader st (s1\<lparr>sp_file := None\<rparr>) = (r, s')"
      using sv 1 by (auto simp: supervise_def split: if_splits)
    then show ?thesis
      using careful_trans [OF c1 spawn_abort_careful [OF stable]] careful_trans [OF f spawn_abort_careful [OF stable]] by blast
  qed
qed

lemma spawn_unready_quiet: "spawn_unready E child s = (r, s') \<Longrightarrow> quiet_step s s'"
proof -
  have stop: "quiet_step a b" if "stop_child_bounded E child a = (k, b)" for a b k
    using that by (auto simp: stop_child_bounded_def split: if_splits prod.splits
        dest!: wait_child_quiet intro: quiet_trans [OF quiet_tick] quiet_trans)
  assume u: "spawn_unready E child s = (r, s')"
  obtain w x s1 where w: "wait_child_bounded E 1 s = ((w, x), s1)" by (metis prod.exhaust)
  obtain k s2 where k: "stop_child_bounded E child s1 = (k, s2)" by (cases "stop_child_bounded E child s1")
  have "s' = s1 \<or> s' = s2" using u unfolding spawn_unready_def w by (auto simp: k split: if_splits)
  then show ?thesis using wait_child_quiet [OF w] quiet_trans [OF wait_child_quiet [OF w] stop [OF k]] by blast
qed

end
