(* ===== verification/Pak_Spawn_Exit.thy ===== *)
theory Pak_Spawn_Exit
  imports Pak_Spawn_Props
begin

text \<open>
  What the exit code of the pak supervisor means, and the properties of its main program.
\<close>

section \<open>What the exit code means\<close>


















text \<open>A concrete system: the leader is process 100, a member 101 of its session lives until it is
  signalled, and this process is 50.\<close>

definition sample_system :: system where
  "sample_system =
     \<lparr>e_stat = (\<lambda>t pid. if pid = 50 then R_Text ''50 (pak) S 1 50 50 0 0 0 0 0 0 0 0 0 0 0 0 0 0 0 5''
                else if pid = 101 \<and> t < 14 then R_Text ''101 (a) b) S 1 100 100 0 0 0 0 0 0 0 0 0 0 0 0 0 0 0 7''
                else R_Gone),
      e_dir = (\<lambda>t. Some \<lparr>dr_names = [''1'', ''self'', ''50'', ''101''], dr_read_error = False, dr_close_error = False\<rparr>),
      e_pidfd = (\<lambda>t pid. C_Ok), e_send = (\<lambda>t pid. C_Ok), e_kill = (\<lambda>t pid. C_Ok), e_wait = (\<lambda>t. W_None),
      e_sid = 50, e_pgrp = 50, e_pid = 50\<rparr>"

definition sample_input :: spawn_input where
  "sample_input =
     \<lparr>in_args_ok = True, in_path = ''/tmp/l'', in_pipes_ok = True, in_child = 100, in_identity = Some (True, 6),
      in_leader_io = \<lparr>lw_open = True, lw_write = True, lw_close = True, lw_rename = True\<rparr>, in_ack_ok = True,
      in_waits = [(False, W_Intr), (False, W_Child (Exited 125))]\<rparr>"

definition sample_start :: sup where
  "sample_start = \<lparr>sp_time = 0, sp_sent = [], sp_file = None\<rparr>"

lemma sample_run:
  "fst (spawn_main sample_system sample_input sample_start) = Some 126
   \<and> map (\<lambda>x. (pi_pid (st_info x), st_sig x)) (sp_sent (snd (spawn_main sample_system sample_input sample_start)))
     = [(101, SIGTERM)]"
  by code_simp

lemma sample_stable: "leader_stable sample_system 100 st"
  by (auto simp: leader_stable_def identity_at_def sample_system_def)

text \<open>
  C22 (safety). Every signal that the supervisor sends through a process descriptor, on whatever path
  it ends, goes to a process that was read as a member of the pak's session (its leader, or a process
  other than the supervisor) and that was read again, after the descriptor had been opened, with the
  same process, group, session and start time and not as a zombie; and the session is never the
  supervisor's own. The hypothesis is the kernel's rule that a process not yet waited for keeps its
  number, and a session leader its session.
\<close>

theorem spawn_signals_only_members:
  assumes "spawn_main E i s = (r, s')" and "sp_sent s = []"
    and "\<forall>starttime. leader_stable E (in_child i) starttime" and "x \<in> set (sp_sent s')"
  shows "sent_ok E (in_child i) x"
proof -
  have "careful E (in_child i) s s'"
    using assms(1,3) supervise_careful careful_quiet [OF spawn_unready_quiet]
    by (auto simp: spawn_main_def careful_quiet split: if_splits option.splits prod.splits bool.splits)
  then show ?thesis using assms(2,4) by (auto simp: careful_def)
qed

theorem spawn_signals_only_members_witness:
  "sp_sent (snd (spawn_main sample_system sample_input sample_start)) \<noteq> []
   \<and> list_all (sent_ok sample_system 100) (sp_sent (snd (spawn_main sample_system sample_input sample_start)))"
  unfolding list_all_iff
proof (intro conjI ballI)
  show "sp_sent (snd (spawn_main sample_system sample_input sample_start)) \<noteq> []" using sample_run by auto
  fix x
  assume "x \<in> set (sp_sent (snd (spawn_main sample_system sample_input sample_start)))"
  then show "sent_ok sample_system 100 x"
    using spawn_signals_only_members [of sample_system sample_input sample_start _ _ x] sample_stable
    by (metis prod.collapse sample_input_def sample_start_def spawn_input.select_convs(4) sup.select_convs(2))
qed



end
