(* ===== verification/Pak_Hotkey.thy ===== *)
theory Pak_Hotkey
  imports Pak_Spawn Keylid_Monitor
begin

text \<open>
  The exit chord of a pak, \<^verbatim>\<open>nextui/zlyme/zlyme-pak-hotkey.c\<close> and \<^verbatim>\<open>hotkey_logic.h\<close>: the helper watches
  the virtual controllers, and when MENU and START are down on one of them it asks the supervisor,
  whose identity it has verified, to stop the pak. What the system answers is an input: the directory
  listings, what \<^verbatim>\<open>poll\<close> reports and the events read. The trace log is left out.
\<close>

section \<open>The chord\<close>

record app_pad =
  ap_fd :: int
  ap_menu :: bool
  ap_start :: bool
  ap_node :: string

record hk_event =
  he_type :: nat
  he_code :: nat
  he_value :: int

abbreviation (input) "HK_EV_KEY \<equiv> (1 :: nat)"
abbreviation (input) "HK_BTN_START \<equiv> (0x13b :: nat)"
abbreviation (input) "HK_BTN_MODE \<equiv> (0x13c :: nat)"
abbreviation (input) "HK_MAX_PADS \<equiv> (8 :: nat)"

definition zlyme_hotkey_reset :: "app_pad \<Rightarrow> app_pad" where
  "zlyme_hotkey_reset p = p\<lparr>ap_menu := False, ap_start := False\<rparr>"

definition zlyme_hotkey_apply :: "app_pad \<Rightarrow> nat \<Rightarrow> bool \<Rightarrow> bool \<times> app_pad" where
  "zlyme_hotkey_apply p code pressed =
     (let p = (if code = HK_BTN_MODE then p\<lparr>ap_menu := pressed\<rparr>
               else if code = HK_BTN_START then p\<lparr>ap_start := pressed\<rparr> else p)
      in (ap_menu p \<and> ap_start p, p))"

definition zlyme_hotkey_same_waiter :: "bool \<Rightarrow> char \<Rightarrow> nat \<Rightarrow> nat \<Rightarrow> bool" where
  "zlyme_hotkey_same_waiter alive state starttime expected_starttime \<longleftrightarrow>
     alive \<and> state \<noteq> CHR ''Z'' \<and> starttime \<noteq> 0 \<and> starttime = expected_starttime"

section \<open>The controllers\<close>

fun hk_pad_find :: "app_pad list \<Rightarrow> string \<Rightarrow> bool" where
  "hk_pad_find [] nd = False"
| "hk_pad_find (p # ps) nd = (if ap_node p = nd then True else hk_pad_find ps nd)"

fun hk_fd_index :: "app_pad list \<Rightarrow> int \<Rightarrow> nat option" where
  "hk_fd_index [] f = None"
| "hk_fd_index (p # ps) f = (if ap_fd p = f then Some 0 else map_option Suc (hk_fd_index ps f))"

text \<open>The pad is replaced by the last one.\<close>

definition drop_fd :: "app_pad list \<Rightarrow> int \<Rightarrow> app_pad list" where
  "drop_fd ps f = (case hk_fd_index ps f of None \<Rightarrow> ps | Some i \<Rightarrow> butlast (ps[i := last ps]))"

text \<open>A directory entry with the descriptor \<^verbatim>\<open>open\<close> gives and what identifies the device.\<close>

fun scan_pads :: "(string \<times> int \<times> virt_info) list \<Rightarrow> app_pad list \<Rightarrow> app_pad list" where
  "scan_pads [] ps = ps"
| "scan_pads ((d_name, f, v) # es) ps =
     (if \<not> prefix ''event'' d_name then scan_pads es ps
      else if length d_name = 0 \<or> length d_name \<ge> 32 then scan_pads es ps
      else if hk_pad_find ps d_name then scan_pads es ps
      else if length ps \<ge> HK_MAX_PADS then ps
      else if f < 0 then scan_pads es ps
      else if \<not> zlyme_is_virtpad v d_name then scan_pads es ps
      else scan_pads es (ps @ [\<lparr>ap_fd = f, ap_menu = False, ap_start = False, ap_node = d_name\<rparr>]))"

text \<open>The events are read until none is left or the chord is down; the rest stays queued.\<close>

fun read_pad :: "app_pad \<Rightarrow> hk_event list \<Rightarrow> bool \<times> app_pad" where
  "read_pad pad [] = (False, pad)"
| "read_pad pad (ev # evs) =
     (if he_type ev \<noteq> HK_EV_KEY then read_pad pad evs
      else let (hit, pad) = zlyme_hotkey_apply pad (he_code ev) (he_value ev \<noteq> 0)
           in if hit then (True, pad) else read_pad pad evs)"

section \<open>The supervisor\<close>

text \<open>The text read from the process file, at most 511 bytes, or \<open>None\<close> when it cannot be read.\<close>

definition target_info :: "int \<Rightarrow> string option \<Rightarrow> proc_info option" where
  "target_info pid r =
     (case r of None \<Rightarrow> None
      | Some text \<Rightarrow>
          let buf = take 511 text
          in if buf = [] \<or> CHR '')'' \<notin> set buf then None
             else parse_fields (tokens (rev (takeWhile (\<lambda>c. c \<noteq> CHR '')'') (rev buf))) []) 0
                    \<lparr>pi_pid = pid, pi_pgid = 0, pi_sid = 0, pi_state = CHR 0x00, pi_starttime = 0\<rparr>)"

definition parse_pid :: "string \<Rightarrow> int option" where
  "parse_pid text =
     (case strtol10 text of (v, err, rest) \<Rightarrow>
        if err \<or> rest = text \<or> rest \<noteq> [] \<or> v \<le> 1 then None
        else if to_pid v = v then Some v else None)"

definition hk_parse_starttime :: "string \<Rightarrow> nat option" where
  "hk_parse_starttime text =
     (case strtoull10 text of (v, err, rest) \<Rightarrow>
        if err \<or> rest = text \<or> rest \<noteq> [] \<or> v = 0 then None else Some v)"

definition waiter_matches :: "int \<Rightarrow> nat \<Rightarrow> string option \<Rightarrow> bool" where
  "waiter_matches waiter starttime r =
     (case target_info waiter r of None \<Rightarrow> False
      | Some info \<Rightarrow> zlyme_hotkey_same_waiter True (pi_state info) (pi_starttime info) starttime)"

text \<open>What the two reads and the opening of the descriptor give.\<close>

definition open_waiter :: "int \<Rightarrow> nat \<Rightarrow> string option \<Rightarrow> int \<Rightarrow> string option \<Rightarrow> int" where
  "open_waiter waiter starttime before f after =
     (if \<not> waiter_matches waiter starttime before then -1
      else if f < 0 then -1
      else if \<not> waiter_matches waiter starttime after then -1 else f)"

definition stop_pak :: "bool \<Rightarrow> int" where
  "stop_pak send_ok = (if send_ok then 0 else 1)"

section \<open>The main loop\<close>

datatype hk_poll = HP_Ready | HP_Intr | HP_Error

record hk_round =
  hr_poll :: hk_poll
  hr_in :: "int \<Rightarrow> bool"
  hr_hup :: "int \<Rightarrow> bool"
  hr_events :: "int \<Rightarrow> hk_event list"
  hr_dir :: "(string \<times> int \<times> virt_info) list"

datatype hk_end = H_Stop | H_Break

definition hk_poll_set :: "int \<Rightarrow> app_pad list \<Rightarrow> int list" where
  "hk_poll_set ifd ps = (if ifd \<ge> 0 then [ifd] else []) @ map ap_fd ps"

text \<open>One entry of the poll array.\<close>

definition hk_entry :: "int \<Rightarrow> hk_round \<Rightarrow> int \<Rightarrow> bool \<times> app_pad list \<Rightarrow> bool \<times> app_pad list" where
  "hk_entry ifd r f st =
     (let (fire, ps) = st;
          ps = (if f = ifd \<and> hr_in r f then scan_pads (hr_dir r) ps else ps)
      in case hk_fd_index ps f of
           None \<Rightarrow> (fire, ps)
         | Some j \<Rightarrow>
             let (hit, p) = (if hr_in r f then read_pad (ps ! j) (hr_events r f) else (False, ps ! j));
                 ps = ps[j := p]
             in (fire \<or> hit, if hr_hup r f then drop_fd ps f else ps))"

fun hk_entries :: "int \<Rightarrow> hk_round \<Rightarrow> int list \<Rightarrow> bool \<times> app_pad list \<Rightarrow> bool \<times> app_pad list" where
  "hk_entries ifd r [] st = st"
| "hk_entries ifd r (f # fs) st = hk_entries ifd r fs (hk_entry ifd r f st)"

text \<open>The loop over the rounds; \<open>None\<close> when they are used up and the helper still waits.\<close>

fun hk_loop :: "int \<Rightarrow> app_pad list \<Rightarrow> hk_round list \<Rightarrow> hk_end option \<times> app_pad list" where
  "hk_loop ifd ps [] = (None, ps)"
| "hk_loop ifd ps (r # rs) =
     (if hk_poll_set ifd ps = [] then (Some H_Break, ps)
      else if hr_poll r = HP_Intr then hk_loop ifd ps rs
      else if hr_poll r = HP_Error then (Some H_Break, ps)
      else let (fire, ps) = hk_entries ifd r (hk_poll_set ifd ps) (False, ps)
           in if fire then (Some H_Stop, ps) else hk_loop ifd ps rs)"

record hk_env =
  hv_before :: "string option"
  hv_fd :: int
  hv_after :: "string option"
  hv_ino :: int
  hv_watch :: bool
  hv_dir1 :: "(string \<times> int \<times> virt_info) list"
  hv_dir2 :: "(string \<times> int \<times> virt_info) list"
  hv_rounds :: "hk_round list"
  hv_send_ok :: bool

text \<open>The watched controllers and the inotify descriptor after the start.\<close>

definition hk_start :: "hk_env \<Rightarrow> int \<times> app_pad list" where
  "hk_start v =
     (let ps = scan_pads (hv_dir1 v) []
      in if hv_ino v \<ge> 0
         then (if hv_watch v then (hv_ino v, scan_pads (hv_dir2 v) ps) else (-1, ps))
         else (hv_ino v, ps))"

definition hk_args :: "string list \<Rightarrow> (int \<times> nat \<times> int \<times> nat) option" where
  "hk_args argv =
     (case argv of
        [a, b, c, d] \<Rightarrow>
          (case (parse_pid a, hk_parse_starttime b, parse_pid c, hk_parse_starttime d) of
             (Some waiter, Some ws, Some leader, Some ls) \<Rightarrow>
               if waiter = leader then None else Some (waiter, ws, leader, ls)
           | _ \<Rightarrow> None)
      | _ \<Rightarrow> None)"

text \<open>The exit code, and whether the supervisor was signalled; \<open>None\<close> while the helper waits.\<close>

definition hotkey_main :: "string list \<Rightarrow> hk_env \<Rightarrow> (int \<times> bool) option" where
  "hotkey_main argv v =
     (case hk_args argv of
        None \<Rightarrow> Some (1, False)
      | Some (waiter, ws, leader, ls) \<Rightarrow>
          if open_waiter waiter ws (hv_before v) (hv_fd v) (hv_after v) < 0 then Some (1, False)
          else let (ifd, ps) = hk_start v
               in if ifd < 0 \<and> ps = [] then Some (1, False)
                  else (case fst (hk_loop ifd ps (hv_rounds v)) of
                          None \<Rightarrow> None
                        | Some H_Break \<Rightarrow> Some (0, False)
                        | Some H_Stop \<Rightarrow> Some (stop_pak (hv_send_ok v), True)))"

end
