(* ===== verification/Pak_Hotkey_Props.thy ===== *)
theory Pak_Hotkey_Props
  imports Pak_Hotkey
begin

text \<open>
  The exit chord of one controller, the set of watched controllers, and one round of the poll loop.
\<close>

section \<open>The chord of one controller\<close>

text \<open>Whether a button is down after a sequence of events: its last key event decides.\<close>

definition held_from :: "nat \<Rightarrow> bool \<Rightarrow> hk_event list \<Rightarrow> bool" where
  "held_from c b evs =
     (let k = filter (\<lambda>e. he_type e = HK_EV_KEY \<and> he_code e = c) evs in if k = [] then b else he_value (last k) \<noteq> 0)"

definition both_held :: "app_pad \<Rightarrow> hk_event list \<Rightarrow> bool" where
  "both_held p evs \<longleftrightarrow> held_from HK_BTN_MODE (ap_menu p) evs \<and> held_from HK_BTN_START (ap_start p) evs"

lemma held_from_Nil [simp]: "held_from c b [] = b"
  by (simp add: held_from_def)

lemma held_from_Cons:
  "held_from c b (e # evs) = held_from c (if he_type e = HK_EV_KEY \<and> he_code e = c then he_value e \<noteq> 0 else b) evs"
  by (simp add: held_from_def Let_def)

lemma held_from_append [simp]: "held_from c b (xs @ ys) = held_from c (held_from c b xs) ys"
  by (simp add: held_from_def Let_def)

text \<open>A pad after an event, read without regard to the chord.\<close>

definition pad_after :: "app_pad \<Rightarrow> hk_event list \<Rightarrow> app_pad" where
  "pad_after p evs = p\<lparr>ap_menu := held_from HK_BTN_MODE (ap_menu p) evs, ap_start := held_from HK_BTN_START (ap_start p) evs\<rparr>"

lemma pad_after_Nil [simp]: "pad_after p [] = p"
  by (simp add: pad_after_def)

lemma pad_after_Cons: "pad_after p (e # evs) = pad_after (pad_after p [e]) evs"
  by (simp add: pad_after_def held_from_Cons)

lemma pad_after_append: "pad_after p (xs @ ys) = pad_after (pad_after p xs) ys"
  by (simp add: pad_after_def)

lemma pad_after_facts [simp]: "ap_fd (pad_after p evs) = ap_fd p" "ap_node (pad_after p evs) = ap_node p"
  by (simp_all add: pad_after_def)

lemma both_held_after: "both_held p evs \<longleftrightarrow> ap_menu (pad_after p evs) \<and> ap_start (pad_after p evs)"
  by (simp add: both_held_def pad_after_def)

definition chord_down :: "app_pad \<Rightarrow> bool" where
  "chord_down p \<longleftrightarrow> ap_menu p \<and> ap_start p"

lemma read_pad_step:
  assumes "\<not> chord_down p"
  shows "read_pad p (e # evs) = (if chord_down (pad_after p [e]) then (True, pad_after p [e]) else read_pad (pad_after p [e]) evs)"
proof (cases "he_type e = HK_EV_KEY")
  case True
  then have "zlyme_hotkey_apply p (he_code e) (he_value e \<noteq> 0) = (chord_down (pad_after p [e]), pad_after p [e])"
    by (auto simp: zlyme_hotkey_apply_def chord_down_def pad_after_def held_from_Cons)
  then show ?thesis using True by simp
next
  case False
  then have "pad_after p [e] = p" by (simp add: pad_after_def held_from_Cons)
  then show ?thesis using False assms by simp
qed

lemma read_pad_result:
  assumes "\<not> chord_down p" and "read_pad p evs = (hit, q)"
  shows "ap_fd q = ap_fd p \<and> ap_node q = ap_node p \<and> (hit \<longleftrightarrow> (\<exists>n \<le> length evs. both_held p (take n evs)))
    \<and> (\<not> hit \<longrightarrow> q = pad_after p evs \<and> \<not> chord_down q)"
  using assms
proof (induction evs arbitrary: p)
  case Nil
  then show ?case by (auto simp: both_held_after chord_down_def)
next
  case (Cons e evs)
  have first: "\<not> both_held p (take 0 (e # evs))" using Cons.prems(1) by (simp add: both_held_after chord_down_def)
  have shift: "both_held p (take (Suc n) (e # evs)) = both_held (pad_after p [e]) (take n evs)" for n
    unfolding both_held_after take_Suc_Cons pad_after_Cons [of p e "take n evs"] by (rule refl)
  have split: "(\<exists>n \<le> length (e # evs). both_held p (take n (e # evs)))
      \<longleftrightarrow> (\<exists>n \<le> length evs. both_held (pad_after p [e]) (take n evs))"
  proof
    assume "\<exists>n \<le> length (e # evs). both_held p (take n (e # evs))"
    then obtain n where n: "n \<le> length (e # evs)" "both_held p (take n (e # evs))" by blast
    then obtain m where "n = Suc m" using first by (cases n) auto
    then show "\<exists>n \<le> length evs. both_held (pad_after p [e]) (take n evs)" using n shift [of m] by auto
  next
    assume "\<exists>n \<le> length evs. both_held (pad_after p [e]) (take n evs)"
    then obtain n where "n \<le> length evs" "both_held (pad_after p [e]) (take n evs)" by blast
    then show "\<exists>n \<le> length (e # evs). both_held p (take n (e # evs))"
      using shift [of n] by (intro exI [of _ "Suc n"]) simp
  qed
  show ?case
  proof (cases "chord_down (pad_after p [e])")
    case True
    then have "\<exists>n \<le> length evs. both_held (pad_after p [e]) (take n evs)"
      by (intro exI [of _ 0]) (simp add: both_held_after chord_down_def)
    then show ?thesis using True Cons.prems read_pad_step [OF Cons.prems(1)] split by auto
  next
    case False
    then have "read_pad (pad_after p [e]) evs = (hit, q)" using Cons.prems read_pad_step [OF Cons.prems(1)] by simp
    from Cons.IH [OF False this] show ?thesis
      unfolding split pad_after_Cons [of p e evs] pad_after_facts .
  qed
qed

section \<open>The watched controllers\<close>

lemma hk_fd_index_Some: "hk_fd_index ps f = Some i \<Longrightarrow> i < length ps \<and> ap_fd (ps ! i) = f"
  by (induction ps arbitrary: i) (auto split: if_splits)

lemma hk_fd_index_None: "hk_fd_index ps f = None \<longleftrightarrow> f \<notin> ap_fd ` set ps"
  by (induction ps) auto

lemma hk_pad_find_iff: "hk_pad_find ps nd \<longleftrightarrow> nd \<in> ap_node ` set ps"
  by (induction ps) auto

text \<open>Dropping swaps in the last pad, so the order changes and exactly one pad is lost.\<close>

lemma mset_butlast_last: "ps \<noteq> [] \<Longrightarrow> mset ps = add_mset (last ps) (mset (butlast ps))"
  by (cases ps rule: rev_cases) simp_all

lemma drop_fd_mset:
  assumes "hk_fd_index ps f = Some i"
  shows "mset ps = add_mset (ps ! i) (mset (drop_fd ps f))"
proof -
  have i: "i < length ps" using hk_fd_index_Some [OF assms] by simp
  then have ne: "ps[i := last ps] \<noteq> []" by auto
  have l: "last (ps[i := last ps]) = last ps" using i by (metis last_list_update list_update_nonempty length_0_conv not_less_zero)
  have "add_mset (last ps) (mset (drop_fd ps f)) = mset (ps[i := last ps])"
    using assms mset_butlast_last [OF ne] l by (simp add: drop_fd_def)
  also have "\<dots> = add_mset (last ps) (mset ps - {#ps ! i#})" using i by (simp add: mset_update)
  finally show ?thesis using i by (simp add: nth_mem_mset)
qed

lemma drop_fd_None: "hk_fd_index ps f = None \<Longrightarrow> drop_fd ps f = ps"
  by (simp add: drop_fd_def)

lemma drop_fd_members:
  assumes "distinct (map ap_fd ps)"
  shows "set (drop_fd ps f) = {p \<in> set ps. ap_fd p \<noteq> f}" "distinct (map ap_fd (drop_fd ps f))"
proof -
  consider (no) "hk_fd_index ps f = None" | (yes) i where "hk_fd_index ps f = Some i" by (cases "hk_fd_index ps f") auto
  then have "set (drop_fd ps f) = {p \<in> set ps. ap_fd p \<noteq> f} \<and> distinct (map ap_fd (drop_fd ps f))"
  proof cases
    case no
    then show ?thesis using assms by (auto simp: drop_fd_None hk_fd_index_None)
  next
    case yes
    note i = hk_fd_index_Some [OF yes] and m = drop_fd_mset [OF yes]
    have "image_mset ap_fd (mset ps) = add_mset f (image_mset ap_fd (mset (drop_fd ps f)))" using i m by simp
    then have "mset (map ap_fd ps) = mset (f # map ap_fd (drop_fd ps f))" by simp
    then have d: "distinct (f # map ap_fd (drop_fd ps f))" using assms mset_eq_imp_distinct_iff by blast
    have "set ps = insert (ps ! i) (set (drop_fd ps f))" using m by (metis set_mset_mset set_mset_add_mset_insert)
    then show ?thesis using d i by (auto simp: image_iff)
  qed
  then show "set (drop_fd ps f) = {p \<in> set ps. ap_fd p \<noteq> f}" "distinct (map ap_fd (drop_fd ps f))" by blast+
qed

lemma scan_pads_adds: "\<exists>new. scan_pads es ps = ps @ new \<and> (\<forall>q \<in> set new. \<not> ap_menu q \<and> \<not> ap_start q)"
proof (induction es ps rule: scan_pads.induct)
  case (2 d_name f v es ps)
  let ?q = "\<lparr>ap_fd = f, ap_menu = False, ap_start = False, ap_node = d_name\<rparr>"
  show ?case
  proof (cases "scan_pads ((d_name, f, v) # es) ps = scan_pads es (ps @ [?q])")
    case True
    show ?thesis
    proof (cases "scan_pads ((d_name, f, v) # es) ps = ps \<or> scan_pads ((d_name, f, v) # es) ps = scan_pads es ps")
      case stay: True
      then show ?thesis using 2 by (auto split: if_splits)
    next
      case False
      then obtain new where "scan_pads es (ps @ [?q]) = (ps @ [?q]) @ new" "\<forall>q \<in> set new. \<not> ap_menu q \<and> \<not> ap_start q"
        using 2 by (auto split: if_splits)
      then show ?thesis using True by (intro exI [of _ "?q # new"]) auto
    qed
  qed (use 2 in \<open>auto split: if_splits\<close>)
qed simp

lemma scan_pads_bound:
  assumes "length ps \<le> HK_MAX_PADS" "distinct (map ap_node ps)"
  shows "length (scan_pads es ps) \<le> HK_MAX_PADS \<and> distinct (map ap_node (scan_pads es ps))"
  using assms by (induction es ps rule: scan_pads.induct) (auto simp: hk_pad_find_iff)

section \<open>One round\<close>

definition fd_events :: "hk_round \<Rightarrow> int \<Rightarrow> hk_event list" where
  "fd_events r f = (if hr_in r f then hr_events r f else [])"

definition pad_fires :: "hk_round \<Rightarrow> app_pad \<Rightarrow> bool" where
  "pad_fires r p \<longleftrightarrow> (\<exists>n \<le> length (fd_events r (ap_fd p)). both_held p (take n (fd_events r (ap_fd p))))"

definition quiet_pads :: "app_pad list \<Rightarrow> bool" where
  "quiet_pads ps \<longleftrightarrow> distinct (map ap_fd ps) \<and> (\<forall>p \<in> set ps. \<not> chord_down p)"

text \<open>Reading the pad at index \<open>j\<close>.\<close>

lemma entry_read:
  assumes "\<not> chord_down p"
    and "(if hr_in r (ap_fd p) then read_pad p (hr_events r (ap_fd p)) else (False, p)) = (hit, q)"
  shows "ap_fd q = ap_fd p" "hit \<longleftrightarrow> pad_fires r p"
    "\<not> hit \<Longrightarrow> q = pad_after p (fd_events r (ap_fd p)) \<and> \<not> chord_down q"
  using assms read_pad_result [OF assms(1), of "hr_events r (ap_fd p)" hit q]
  by (auto simp: pad_fires_def fd_events_def both_held_after chord_down_def split: if_splits)

definition after_entry :: "hk_round \<Rightarrow> int list \<Rightarrow> app_pad list \<Rightarrow> app_pad list \<Rightarrow> bool" where
  "after_entry r fs ps ps' \<longleftrightarrow> quiet_pads ps'
     \<and> (\<forall>q \<in> set ps'. \<exists>p \<in> set ps. ap_fd q = ap_fd p
          \<and> q = (if ap_fd p \<in> set fs then pad_after p (fd_events r (ap_fd p)) else p))
     \<and> (\<forall>p \<in> set ps. ap_fd p \<notin> set fs \<longrightarrow> p \<in> set ps')"

lemma hk_entry_result:
  assumes q: "quiet_pads ps" and f: "f \<noteq> ifd" and e: "hk_entry ifd r f (fire, ps) = (fire', ps')"
  shows "fire' \<longleftrightarrow> fire \<or> (\<exists>p \<in> set ps. ap_fd p = f \<and> pad_fires r p)"
    "\<not> fire' \<Longrightarrow> after_entry r [f] ps ps'"
proof -
  have d: "distinct (map ap_fd ps)" using q by (simp add: quiet_pads_def)
  consider (no) "hk_fd_index ps f = None" | (yes) j where "hk_fd_index ps f = Some j" by (cases "hk_fd_index ps f") auto
  then have "(fire' \<longleftrightarrow> fire \<or> (\<exists>p \<in> set ps. ap_fd p = f \<and> pad_fires r p)) \<and> (\<not> fire' \<longrightarrow> after_entry r [f] ps ps')"
  proof cases
    case no
    then have "f \<notin> ap_fd ` set ps" by (simp add: hk_fd_index_None)
    moreover have "fire' = fire" "ps' = ps" using e f no by (auto simp: hk_entry_def)
    ultimately show ?thesis using q by (auto simp: after_entry_def)
  next
    case yes
    let ?p = "ps ! j"
    have j: "j < length ps" "ap_fd ?p = f" using hk_fd_index_Some [OF yes] by auto
    then have p: "?p \<in> set ps" "\<not> chord_down ?p" using q by (auto simp: quiet_pads_def)
    have only: "p' = ?p" if "p' \<in> set ps" "ap_fd p' = f" for p'
      using that d j by (metis distinct_map inj_on_def p(1))
    obtain hit x where x: "(if hr_in r f then read_pad ?p (hr_events r f) else (False, ?p)) = (hit, x)" by (metis prod.exhaust)
    note er = entry_read [OF p(2), of r hit x, unfolded j(2), OF x]
    let ?ps = "ps[j := x]"
    have res: "fire' = (fire \<or> hit)" "ps' = (if hr_hup r f then drop_fd ?ps f else ?ps)"
      using e f yes x by (auto simp: hk_entry_def Let_def)
    have fds: "map ap_fd ?ps = map ap_fd ps" using er(1) j by (simp add: map_update list_update_same_conv)
    have mem: "q' = x \<or> q' \<in> set ps \<and> ap_fd q' \<noteq> f" if in_ps: "q' \<in> set ?ps" for q'
    proof -
      obtain i where i: "i < length ps" "?ps ! i = q'" using in_ps unfolding in_set_conv_nth by auto
      show ?thesis
      proof (cases "i = j")
        case False
        then have "q' = ps ! i" using i by simp
        moreover have "ap_fd (ps ! i) \<noteq> f" using False d i j by (metis nth_eq_iff_index_eq length_map nth_map)
        ultimately show ?thesis using i by simp
      qed (use i j in simp)
    qed
    have keep: "p' \<in> set ps'" if in_ps: "p' \<in> set ps" and ne: "ap_fd p' \<noteq> f" for p'
    proof -
      obtain i where i: "i < length ps" "ps ! i = p'" using in_ps unfolding in_set_conv_nth by auto
      then have "i \<noteq> j" using ne j by auto
      then have "?ps ! i = p'" using i by simp
      then have "p' \<in> set ?ps" using i by (metis length_list_update nth_mem)
      then show ?thesis using res(2) drop_fd_members(1) [of ?ps f] fds d ne by simp
    qed
    have sub: "set ps' \<subseteq> set ?ps" "distinct (map ap_fd ps')"
      using res drop_fd_members [of ?ps f] fds d by auto
    have "after_entry r [f] ps ps'" if "\<not> fire'"
    proof -
      have x': "x = pad_after ?p (fd_events r f)" "\<not> chord_down x" using er(3) res that j by auto
      have "\<exists>p \<in> set ps. ap_fd y = ap_fd p \<and> y = (if ap_fd p \<in> set [f] then pad_after p (fd_events r (ap_fd p)) else p)"
        if y: "y \<in> set ps'" for y
      proof -
        consider "y = x" | "y \<in> set ps" "ap_fd y \<noteq> f" using mem sub(1) y by blast
        then show ?thesis
        proof cases
          case 1
          then show ?thesis using p(1) j x' er(1) by (intro bexI [of _ ?p]) auto
        next
          case 2
          then show ?thesis by (intro bexI [of _ y]) auto
        qed
      qed
      moreover have "\<not> chord_down y" if "y \<in> set ps'" for y
        using mem [of y] sub(1) that x'(2) q by (auto simp: quiet_pads_def)
      moreover have "p' \<in> set ps'" if "p' \<in> set ps" "ap_fd p' \<notin> set [f]" for p' using keep that by simp
      ultimately show ?thesis using sub(2) by (simp add: after_entry_def quiet_pads_def)
    qed
    moreover have "fire' \<longleftrightarrow> fire \<or> (\<exists>p \<in> set ps. ap_fd p = f \<and> pad_fires r p)"
      using res er(2) only p j by metis
    ultimately show ?thesis by blast
  qed
  then show "fire' \<longleftrightarrow> fire \<or> (\<exists>p \<in> set ps. ap_fd p = f \<and> pad_fires r p)" "\<not> fire' \<Longrightarrow> after_entry r [f] ps ps'"
    by blast+
qed

lemma hk_entry_fire: "fire \<Longrightarrow> fst (hk_entry ifd r f (fire, ps))"
  by (auto simp: hk_entry_def Let_def split: option.splits prod.splits)

lemma hk_entries_fire: "fst st \<Longrightarrow> fst (hk_entries ifd r fs st)"
proof (induction fs arbitrary: st)
  case (Cons f fs)
  then have "fst (hk_entry ifd r f st)" using hk_entry_fire [of "fst st" ifd r f "snd st"] by (metis prod.collapse)
  then show ?case using Cons.IH by simp
qed simp

text \<open>The entries of the pads: the round fires exactly when one controller brings both buttons down.\<close>

lemma hk_entries_result:
  assumes "quiet_pads ps" and "ifd \<notin> set fs" "distinct fs" and "hk_entries ifd r fs (False, ps) = (fire', ps')"
  shows "(fire' \<longrightarrow> (\<exists>p \<in> set ps. ap_fd p \<in> set fs \<and> pad_fires r p)) \<and> (\<not> fire' \<longrightarrow> after_entry r fs ps ps')"
  using assms
proof (induction fs arbitrary: ps)
  case Nil
  then show ?case by (auto simp: after_entry_def)
next
  case (Cons f fs)
  obtain b ps1 where e: "hk_entry ifd r f (False, ps) = (b, ps1)" by (metis prod.exhaust)
  have f: "f \<noteq> ifd" using Cons.prems by auto
  note er = hk_entry_result [OF Cons.prems(1) f e]
  show ?case
  proof (cases b)
    case True
    then have "fire'" using Cons.prems(4) e hk_entries_fire [of "(True, ps1)" ifd r fs] by simp
    then show ?thesis using True er(1) by auto
  next
    case False
    then have ae: "after_entry r [f] ps ps1" using er(2) by blast
    then have qp: "quiet_pads ps1" by (simp add: after_entry_def)
    have "hk_entries ifd r fs (False, ps1) = (fire', ps')" using Cons.prems(4) e False by simp
    from Cons.IH [OF qp _ _ this] Cons.prems
    have IH: "(fire' \<longrightarrow> (\<exists>p \<in> set ps1. ap_fd p \<in> set fs \<and> pad_fires r p)) \<and> (\<not> fire' \<longrightarrow> after_entry r fs ps1 ps')" by auto
    have orig: "\<exists>p \<in> set ps. ap_fd q = ap_fd p \<and> q = (if ap_fd p = f then pad_after p (fd_events r (ap_fd p)) else p)"
      if "q \<in> set ps1" for q using ae that by (auto simp: after_entry_def)
    have nf: "f \<notin> set fs" using Cons.prems(3) by simp
    have "\<exists>p \<in> set ps. ap_fd p \<in> set (f # fs) \<and> pad_fires r p" if fire: "fire'"
    proof -
      obtain q where q: "q \<in> set ps1" "ap_fd q \<in> set fs" "pad_fires r q" using IH fire by blast
      from orig [OF q(1)] q nf show ?thesis by (metis list.set_intros(2))
    qed
    moreover have "after_entry r (f # fs) ps ps'" if "\<not> fire'"
    proof -
      have ae': "after_entry r fs ps1 ps'" using IH that by blast
      have "\<exists>p \<in> set ps. ap_fd x = ap_fd p \<and> x = (if ap_fd p \<in> set (f # fs) then pad_after p (fd_events r (ap_fd p)) else p)"
        if x: "x \<in> set ps'" for x
      proof -
        obtain q where q: "q \<in> set ps1" "ap_fd x = ap_fd q" "x = (if ap_fd q \<in> set fs then pad_after q (fd_events r (ap_fd q)) else q)"
          using ae' x by (auto simp: after_entry_def)
        from orig [OF q(1)] q nf show ?thesis by (metis list.set_intros(1,2) set_ConsD)
      qed
      moreover have "p \<in> set ps'" if "p \<in> set ps" "ap_fd p \<notin> set (f # fs)" for p
        using that ae ae' by (auto simp: after_entry_def)
      ultimately show ?thesis using ae' by (simp add: after_entry_def)
    qed
    ultimately show ?thesis by blast
  qed
qed

lemma hk_entries_fires:
  assumes "quiet_pads ps" and "ifd \<notin> set fs" "distinct fs" and "p \<in> set ps" "ap_fd p \<in> set fs" "pad_fires r p"
  shows "fst (hk_entries ifd r fs (False, ps))"
  using assms
proof (induction fs arbitrary: ps)
  case (Cons f fs)
  obtain b ps1 where e: "hk_entry ifd r f (False, ps) = (b, ps1)" by (metis prod.exhaust)
  have f: "f \<noteq> ifd" using Cons.prems by auto
  note er = hk_entry_result [OF Cons.prems(1) f e]
  show ?case
  proof (cases b)
    case True
    then show ?thesis using e hk_entries_fire [of "(True, ps1)" ifd r fs] by simp
  next
    case False
    then have nf: "ap_fd p \<noteq> f" using er(1) Cons.prems by auto
    have ae: "after_entry r [f] ps ps1" using False er(2) by blast
    have "p \<in> set ps1" "quiet_pads ps1" using ae Cons.prems(4) nf by (auto simp: after_entry_def)
    then show ?thesis using Cons.IH [of ps1] Cons.prems nf e False by auto
  qed
qed simp

end
