(* ===== verification/Pak_Hotkey_Run.thy ===== *)
theory Pak_Hotkey_Run
  imports Pak_Hotkey_Props
begin

text \<open>
  Whole runs of the exit chord helper: the chord belongs to one controller, it is acted on in the
  round it is read, and the identity the supervisor publishes is the one the helper verifies.
\<close>

section \<open>The whole run\<close>

definition hk_scanned :: "int \<Rightarrow> hk_round \<Rightarrow> app_pad list \<Rightarrow> app_pad list" where
  "hk_scanned ifd r ps = (if ifd \<ge> 0 \<and> hr_in r ifd then scan_pads (hr_dir r) ps else ps)"

text \<open>Descriptors that are open at the same time differ, here after every scan of a run.\<close>

definition fds_distinct :: "int \<Rightarrow> app_pad list \<Rightarrow> bool" where
  "fds_distinct ifd ps \<longleftrightarrow> distinct (ifd # map ap_fd ps)"



lemma hk_round_entries:
  assumes "fds_distinct ifd (hk_scanned ifd r ps)"
  shows "hk_entries ifd r (hk_poll_set ifd ps) (False, ps) = hk_entries ifd r (map ap_fd ps) (False, hk_scanned ifd r ps)"
proof (cases "ifd \<ge> 0")
  case True
  have "hk_fd_index (hk_scanned ifd r ps) ifd = None" using assms by (auto simp: hk_fd_index_None fds_distinct_def)
  then have "hk_entry ifd r ifd (False, ps) = (False, hk_scanned ifd r ps)"
    using True by (simp add: hk_entry_def hk_scanned_def Let_def)
  then show ?thesis using True by (simp add: hk_poll_set_def)
qed (simp add: hk_poll_set_def hk_scanned_def)

lemma hk_scanned_quiet:
  assumes "quiet_pads ps" "fds_distinct ifd (hk_scanned ifd r ps)"
  shows "quiet_pads (hk_scanned ifd r ps)"
  using assms scan_pads_adds [of "hr_dir r" ps]
  by (auto simp: quiet_pads_def fds_distinct_def hk_scanned_def chord_down_def)

lemma hk_scanned_adds: "\<exists>new. hk_scanned ifd r ps = ps @ new \<and> (\<forall>q \<in> set new. \<not> ap_menu q \<and> \<not> ap_start q)"
  using scan_pads_adds [of "hr_dir r" ps] by (simp add: hk_scanned_def)










lemma hk_round_stops:
  assumes "fds_distinct ifd (hk_scanned ifd r ps)" "quiet_pads ps" "p \<in> set ps"
    and "hr_poll r = HP_Ready" "pad_fires r p"
  shows "fst (hk_loop ifd ps (r # rs)) = Some H_Stop"
proof -
  obtain new where new: "hk_scanned ifd r ps = ps @ new" using hk_scanned_adds by blast
  have "fst (hk_entries ifd r (map ap_fd ps) (False, hk_scanned ifd r ps))"
    using assms new hk_scanned_quiet [OF assms(2,1)]
    by (intro hk_entries_fires [where p = p]) (auto simp: fds_distinct_def)
  moreover have "hk_poll_set ifd ps \<noteq> []" using assms(3) by (auto simp: hk_poll_set_def)
  ultimately show ?thesis using hk_round_entries [OF assms(1)] assms(4) by (auto split: prod.splits)
qed

section \<open>The identity of the supervisor\<close>

lemma tokens_word: "(\<forall>c \<in> set w. \<not> is_delim c) \<Longrightarrow> tokens (w @ s) cur = tokens s (rev w @ cur)"
  by (induction w arbitrary: cur) auto

lemma tokens_step:
  assumes "\<forall>c \<in> set w. \<not> is_delim c" "w \<noteq> []" "is_delim d"
  shows "tokens (w @ d # s) [] = w # tokens s []"
  using assms by (simp add: tokens_word)

lemma dec_no_delim: "\<forall>c \<in> set (dec n). \<not> is_delim c"
  using dec_chars by (auto simp: is_delim_def)

lemma strtoull10_dec: "n < 2 ^ 64 \<Longrightarrow> strtoull10 (dec n) = (n, False, [])"
proof -
  assume n: "n < 2 ^ 64"
  obtain c cs where d: "dec n = c # cs" by (cases "dec n") auto
  then have c: "is_digit c" using dec_digits [of c n] by simp
  have s: "dropWhile is_space (dec n) = dec n" "hd (dec n) \<noteq> CHR ''-''" "hd (dec n) \<noteq> CHR ''+''"
    using d is_digit_cases [OF c] by auto
  have "int n < int (2 ^ 64)" using n by (simp only: of_nat_less_iff)
  then have "\<not> (2 :: int) ^ 64 \<le> int n" by simp
  moreover have tw: "takeWhile is_digit (dec n) = dec n" "dropWhile is_digit (dec n) = []"
    using takeWhile_digits_dec [of "[]" n] by (simp_all del: takeWhile_eq_all_conv dropWhile_eq_Nil_conv)
  ultimately show ?thesis using s(2,3) unfolding strtoull10_def Let_def s(1) by (simp add: tw del: takeWhile_eq_all_conv dropWhile_eq_Nil_conv)
qed

lemma hk_parse_starttime_dec: "0 < n \<Longrightarrow> n < 2 ^ 64 \<Longrightarrow> hk_parse_starttime (dec n) = Some n"
  by (simp add: hk_parse_starttime_def strtoull10_dec)

lemma parse_pid_dec:
  assumes "1 < p" "p < 2 ^ 31"
  shows "parse_pid (dec_int p) = Some p"
proof -
  have "nat p < 2 ^ 63" using assms by (simp add: nat_less_iff)
  then have "strtol10 (dec (nat p)) = (p, False, [])" using strtol10_dec [of "[]" "nat p"] assms by simp
  moreover have "to_pid p = p"
    using assms unfolding to_pid_def by (simp add: sint_sbintrunc' signed_take_bit_int_eq_self)
  ultimately show ?thesis using assms by (simp add: parse_pid_def dec_int_def)
qed

section \<open>Properties\<close>



text \<open>A run in which controller 7 presses START while controller 8 holds MENU, and stops the pak when it
  presses MENU too.\<close>

definition sample_key :: "nat \<Rightarrow> int \<Rightarrow> hk_event" where
  "sample_key c x = \<lparr>he_type = HK_EV_KEY, he_code = c, he_value = x\<rparr>"


definition sample_round :: "(int \<Rightarrow> hk_event list) \<Rightarrow> hk_round" where
  "sample_round ev = \<lparr>hr_poll = HP_Ready, hr_in = (\<lambda>f. f \<noteq> 3), hr_hup = (\<lambda>f. False), hr_events = ev, hr_dir = []\<rparr>"




text \<open>
  C25 (liveness). In a round in which \<^verbatim>\<open>poll\<close> reports a watched controller and its events, read in
  order, bring both buttons down at some point, the helper leaves its loop to stop the pak, whatever
  the other controllers do in that round.
\<close>

theorem hotkey_chord_stops:
  assumes "p \<in> set ps" "hr_poll r = HP_Ready" "hr_in r (ap_fd p)" "n \<le> length (hr_events r (ap_fd p))"
    and "both_held p (take n (hr_events r (ap_fd p)))"
    and "quiet_pads ps" "fds_distinct ifd (hk_scanned ifd r ps)"
  shows "fst (hk_loop ifd ps (r # rs)) = Some H_Stop"
  by (rule hk_round_stops [OF assms(7,6,1,2)]) (use assms(3-5) in \<open>auto simp: pad_fires_def fd_events_def\<close>)

theorem hotkey_chord_stops_witness:
  "fst (hk_loop 3 [\<lparr>ap_fd = 7, ap_menu = True, ap_start = False, ap_node = ''event5''\<rparr>]
     [sample_round (\<lambda>f. [sample_key HK_BTN_START 1, sample_key HK_BTN_START 0])]) = Some H_Stop"
  by (rule hotkey_chord_stops [where p = "\<lparr>ap_fd = 7, ap_menu = True, ap_start = False, ap_node = ''event5''\<rparr>" and n = 1])
    (simp_all add: sample_round_def sample_key_def both_held_def held_from_def quiet_pads_def chord_down_def
      fds_distinct_def hk_scanned_def)

text \<open>
  The leader file that the supervisor writes has four words, and the helper started
  with the last two and the first two of them gets back exactly the identities that were published.
\<close>

theorem leader_file_reaches_hotkey:
  assumes "1 < leader" "leader < 2 ^ 31" "1 < waiter" "waiter < 2 ^ 31" "leader \<noteq> waiter"
    and "0 < ls" "ls < 2 ^ 64" "0 < ws" "ws < 2 ^ 64"
  shows "tokens (leader_body leader ls waiter ws) [] = [dec_int leader, dec ls, dec_int waiter, dec ws]
    \<and> length (leader_body leader ls waiter ws) < 128
    \<and> hk_args [dec_int waiter, dec ws, dec_int leader, dec ls] = Some (waiter, ws, leader, ls)"
proof (intro conjI)
  have d: "is_delim (CHR '' '')" "is_delim c_nl" by (simp_all add: is_delim_def)
  have i: "dec_int leader = dec (nat leader)" "dec_int waiter = dec (nat waiter)" using assms by (simp_all add: dec_int_def)
  show "tokens (leader_body leader ls waiter ws) [] = [dec_int leader, dec ls, dec_int waiter, dec ws]"
    unfolding leader_body_def i by (simp add: tokens_step dec_no_delim d)
  have "nat leader < 10 ^ 10" "nat waiter < 10 ^ 10" "ls < 10 ^ 20" "ws < 10 ^ 20" using assms by (auto simp: nat_less_iff)
  then have "length (dec (nat leader)) \<le> 10" "length (dec (nat waiter)) \<le> 10" "length (dec ls) \<le> 20" "length (dec ws) \<le> 20"
    using length_dec by simp_all
  then show "length (leader_body leader ls waiter ws) < 128" unfolding leader_body_def i by simp
  show "hk_args [dec_int waiter, dec ws, dec_int leader, dec ls] = Some (waiter, ws, leader, ls)"
    using assms by (simp add: hk_args_def parse_pid_dec hk_parse_starttime_dec)
qed

theorem leader_file_reaches_hotkey_witness:
  "tokens (leader_body 100 6 50 5) [] = [dec_int 100, dec 6, dec_int 50, dec 5]
    \<and> hk_args [dec_int 50, dec 5, dec_int 100, dec 6] = Some (50, 5, 100, 6)"
  using leader_file_reaches_hotkey [of 100 50 6 5] by simp

end
