(* ===== verification/Scrape_Paths.thy ===== *)
theory Scrape_Paths
  imports C_Strings
begin

text \<open>
  The scraper's view of the storage, \<^verbatim>\<open>zcrapegoat/src/src/zlyme_paths.c\<close>: the library roots from the
  libraries file, their ROM folders, the key of a system folder and the folders of all systems. The
  file and the file system are inputs; buffers of \<^verbatim>\<open>PATH_MAX\<close> bytes cut what is printed into them.
\<close>

section \<open>Library roots\<close>

record path_env =
  pe_file :: "string option"
  pe_isdir :: "string \<Rightarrow> bool"
  pe_list :: "string \<Rightarrow> string list option"

abbreviation (input) "ZP_PATH \<equiv> (4096 :: nat)"

definition rom_names :: "string list" where
  "rom_names = [''Roms'', ''roms'', ''ROMS'']"

definition strlist_add :: "string list \<Rightarrow> string \<Rightarrow> string list" where
  "strlist_add l v = (if v = [] \<or> v \<in> set l then l else l @ [v])"

definition trim_inplace :: "string \<Rightarrow> string" where
  "trim_inplace s = rev (dropWhile is_space (rev (dropWhile is_space s)))"

function strip_trailing_slashes :: "string \<Rightarrow> string" where
  "strip_trailing_slashes s =
     (if length s > 1 \<and> last s = CHR ''/'' then strip_trailing_slashes (butlast s) else s)"
  by pat_completeness auto
termination
  by (relation "measure length") auto

declare strip_trailing_slashes.simps [simp del]

definition library_line :: "string list \<Rightarrow> string \<Rightarrow> string list" where
  "library_line out line =
     (let line = strip_trailing_slashes (trim_inplace line) in if line = [] then out else strlist_add out line)"

definition zlyme_library_roots :: "path_env \<Rightarrow> string list" where
  "zlyme_library_roots E =
     (let out = (case pe_file E of None \<Rightarrow> []
                 | Some text \<Rightarrow> foldl library_line [] (fgets_lines (ZP_PATH - 2) text))
      in if out = [] then strlist_add out ''/storage'' else out)"

text \<open>The longest root that is the path or one of its parents; of equally long ones the last.\<close>

definition root_of :: "string \<Rightarrow> string \<Rightarrow> bool" where
  "root_of root path \<longleftrightarrow> prefix root path \<and> (path = root \<or> path ! length root = CHR ''/'')"

definition zlyme_library_of :: "path_env \<Rightarrow> string option \<Rightarrow> string" where
  "zlyme_library_of E path =
     (case path of None \<Rightarrow> []
      | Some p \<Rightarrow> fst (foldl (\<lambda>(best, len) r. if length r < len \<or> \<not> root_of r p then (best, len)
                                             else (fit ZP_PATH r, length r)) ([], 0) (zlyme_library_roots E)))"

definition zlyme_library_roms_dir :: "path_env \<Rightarrow> string \<Rightarrow> nat \<Rightarrow> string option" where
  "zlyme_library_roms_dir E library buflen =
     (if buflen = 0 then None
      else find (pe_isdir E) (map (\<lambda>n. fit buflen (library @ ''/'' @ n)) rom_names))"

section \<open>Fixed paths\<close>

definition copy_env_or :: "nat \<Rightarrow> string option \<Rightarrow> string \<Rightarrow> string" where
  "copy_env_or buflen env fallback =
     fit buflen (case env of None \<Rightarrow> fallback | Some v \<Rightarrow> if v = [] then fallback else v)"

definition zlyme_state_root :: "string option \<Rightarrow> nat \<Rightarrow> string" where
  "zlyme_state_root env buflen = copy_env_or buflen env ''/storage/.config/ZcrapeGoat''"

definition zlyme_cheats_root :: "string option \<Rightarrow> nat \<Rightarrow> string" where
  "zlyme_cheats_root env buflen = copy_env_or buflen env ''/storage/Cheats''"

definition join2 :: "nat \<Rightarrow> string \<Rightarrow> string \<Rightarrow> string" where
  "join2 buflen root rest = fit buflen (if root = ''/'' then ''/'' @ rest else root @ ''/'' @ rest)"

definition zlyme_settings_path :: "string option \<Rightarrow> nat \<Rightarrow> string" where
  "zlyme_settings_path env buflen = join2 buflen (zlyme_state_root env ZP_PATH) ''settings.json''"

definition zlyme_overrides_path :: "string option \<Rightarrow> nat \<Rightarrow> string" where
  "zlyme_overrides_path env buflen = join2 buflen (zlyme_state_root env ZP_PATH) ''system_overrides.json''"

definition zlyme_cheat_repo_path :: "string option \<Rightarrow> nat \<Rightarrow> string" where
  "zlyme_cheat_repo_path env buflen = join2 buflen (zlyme_state_root env ZP_PATH) ''libretro-database''"

definition zlyme_daemon_dir :: "string option \<Rightarrow> nat \<Rightarrow> string" where
  "zlyme_daemon_dir env buflen = join2 buflen (zlyme_state_root env ZP_PATH) ''daemon''"

section \<open>Folders\<close>

text \<open>\<open>None\<close> is the result 0.\<close>

fun folder_key_loop :: "path_env \<Rightarrow> string \<Rightarrow> nat \<Rightarrow> string list \<Rightarrow> string option" where
  "folder_key_loop E path buflen [] = None"
| "folder_key_loop E path buflen (root # roots) =
     (case zlyme_library_roms_dir E root ZP_PATH of
        None \<Rightarrow> folder_key_loop E path buflen roots
      | Some roms \<Rightarrow>
          if \<not> prefix (roms @ ''/'') path then folder_key_loop E path buflen roots
          else let key = fit buflen (drop (length roms + 1) path) in if key = [] then None else Some key)"

definition zlyme_folder_key :: "path_env \<Rightarrow> string option \<Rightarrow> nat \<Rightarrow> string option" where
  "zlyme_folder_key E path buflen =
     (case path of None \<Rightarrow> None
      | Some p \<Rightarrow> if buflen = 0 then None else folder_key_loop E p buflen (zlyme_library_roots E))"

text \<open>The directory of a path, the root kept.\<close>

definition rom_dir_of :: "string \<Rightarrow> string" where
  "rom_dir_of p =
     (if CHR ''/'' \<notin> set p then p
      else let d = rev (tl (dropWhile (\<lambda>c. c \<noteq> CHR ''/'') (rev p))) in if d = [] then ''/'' else d)"

definition zlyme_artwork_path :: "string \<Rightarrow> string \<Rightarrow> nat \<Rightarrow> string" where
  "zlyme_artwork_path rom_path display_name buflen =
     fit buflen (rom_dir_of (fit ZP_PATH rom_path) @ ''/.media/'' @ display_name @ ''.png'')"

definition path_base :: "string \<Rightarrow> string" where
  "path_base p = rev (takeWhile (\<lambda>c. c \<noteq> CHR ''/'') (rev p))"

text \<open>One directory entry: the first folder of a name wins.\<close>

definition system_entry :: "path_env \<Rightarrow> string \<Rightarrow> string list \<Rightarrow> string \<Rightarrow> string list" where
  "system_entry E roms out name =
     (let full = fit ZP_PATH (roms @ ''/'' @ name)
      in if name = ''.'' \<or> name = ''..'' \<or> \<not> pe_isdir E full \<or> list_ex (\<lambda>d. path_base d = name) out then out
         else strlist_add out full)"

definition system_root :: "path_env \<Rightarrow> string list \<Rightarrow> string \<Rightarrow> string list" where
  "system_root E out root =
     (case zlyme_library_roms_dir E root ZP_PATH of
        None \<Rightarrow> out
      | Some roms \<Rightarrow> (case pe_list E roms of None \<Rightarrow> out | Some names \<Rightarrow> foldl (system_entry E roms) out names))"

definition zlyme_system_dirs :: "path_env \<Rightarrow> string list" where
  "zlyme_system_dirs E = foldl (system_root E) [] (zlyme_library_roots E)"

definition rom_dir_root :: "path_env \<Rightarrow> string \<Rightarrow> string list \<Rightarrow> string \<Rightarrow> string list" where
  "rom_dir_root E base out root =
     (case zlyme_library_roms_dir E root ZP_PATH of
        None \<Rightarrow> out
      | Some roms \<Rightarrow> let full = fit ZP_PATH (roms @ ''/'' @ base) in if pe_isdir E full then strlist_add out full else out)"

definition zlyme_rom_dirs :: "path_env \<Rightarrow> string option \<Rightarrow> string list" where
  "zlyme_rom_dirs E console_path =
     (case console_path of None \<Rightarrow> []
      | Some p \<Rightarrow> if path_base p = [] then [] else foldl (rom_dir_root E (path_base p)) [] (zlyme_library_roots E))"

definition zlyme_collision_label :: "path_env \<Rightarrow> nat \<Rightarrow> string \<Rightarrow> string \<Rightarrow> string \<Rightarrow> string" where
  "zlyme_collision_label E label_len label display rom_path =
     (let lib = zlyme_library_of E (Some rom_path);
          library = (if lib = [] then rom_path else lib);
          next_label = fit 512 ((if label \<noteq> [] then label else display) @ '' ('' @ library @ '')'')
      in fit label_len next_label)"

section \<open>Facts\<close>

lemma strlist_add_distinct: "distinct l \<Longrightarrow> distinct (strlist_add l v)"
  by (simp add: strlist_add_def)

text \<open>Keeping the first element of each key.\<close>

definition add_first :: "('a \<Rightarrow> 'b) \<Rightarrow> 'a list \<Rightarrow> 'a \<Rightarrow> 'a list" where
  "add_first f out x = (if f x \<in> f ` set out then out else out @ [x])"

definition firsts_of :: "('a \<Rightarrow> 'b) \<Rightarrow> 'a list \<Rightarrow> 'a list \<Rightarrow> bool" where
  "firsts_of f xs out \<longleftrightarrow> distinct (map f out) \<and> f ` set out = f ` set xs
     \<and> (\<forall>x \<in> set out. find (\<lambda>y. f y = f x) xs = Some x)"

lemma find_append: "find P (xs @ ys) = (case find P xs of None \<Rightarrow> find P ys | Some x \<Rightarrow> Some x)"
  by (induction xs) auto

lemma firsts_of_snoc:
  assumes "firsts_of f xs out"
  shows "firsts_of f (xs @ [x]) (add_first f out x)"
proof (cases "f x \<in> f ` set out")
  case True
  then show ?thesis using assms by (auto simp: firsts_of_def add_first_def find_append)
next
  case False
  then have "f x \<notin> f ` set xs" using assms by (simp add: firsts_of_def)
  then have "find (\<lambda>y. f y = f x) xs = None" unfolding find_None_iff by (metis imageI)
  then show ?thesis using assms False by (auto simp: firsts_of_def add_first_def find_append)
qed

lemma firsts_of_foldl: "firsts_of f pre out \<Longrightarrow> firsts_of f (pre @ xs) (foldl (add_first f) out xs)"
proof (induction xs arbitrary: pre out)
  case (Cons x xs)
  then show ?case using firsts_of_snoc [OF Cons.prems, of x] Cons.IH [of "pre @ [x]"] by simp
qed simp

text \<open>All system folders of the libraries, in the order they are listed.\<close>

definition listed_dirs :: "path_env \<Rightarrow> string \<Rightarrow> string list" where
  "listed_dirs E root =
     (case zlyme_library_roms_dir E root ZP_PATH of None \<Rightarrow> []
      | Some roms \<Rightarrow> (case pe_list E roms of None \<Rightarrow> []
          | Some names \<Rightarrow> filter (pe_isdir E) (map (\<lambda>n. roms @ ''/'' @ n) (filter (\<lambda>n. n \<noteq> ''.'' \<and> n \<noteq> ''..'') names))))"

definition all_system_dirs :: "path_env \<Rightarrow> string list" where
  "all_system_dirs E = concat (map (listed_dirs E) (zlyme_library_roots E))"

text \<open>Names as a file system gives them, short enough for the buffers.\<close>

definition names_fit :: "path_env \<Rightarrow> bool" where
  "names_fit E \<longleftrightarrow> (\<forall>root \<in> set (zlyme_library_roots E). \<forall>roms names n.
     zlyme_library_roms_dir E root ZP_PATH = Some roms \<and> pe_list E roms = Some names \<and> n \<in> set names \<longrightarrow>
       CHR ''/'' \<notin> set n \<and> length roms + length n + 1 < ZP_PATH)"

lemma path_base_join: "CHR ''/'' \<notin> set n \<Longrightarrow> path_base (d @ ''/'' @ n) = n"
  by (simp add: path_base_def takeWhile_append)

lemma system_entry_first:
  assumes "CHR ''/'' \<notin> set n" "length roms + length n + 1 < ZP_PATH" "n \<noteq> ''.''" "n \<noteq> ''..''"
  shows "system_entry E roms out n =
    (if pe_isdir E (roms @ ''/'' @ n) then add_first path_base out (roms @ ''/'' @ n) else out)"
proof -
  have b: "path_base (roms @ ''/'' @ n) = n" using assms(1) by (rule path_base_join)
  have f: "fit ZP_PATH (roms @ ''/'' @ n) = roms @ ''/'' @ n" using assms(2) by (intro fit_id) simp
  have ex: "list_ex (\<lambda>d. path_base d = n) out \<longleftrightarrow> path_base (roms @ ''/'' @ n) \<in> path_base ` set out"
    unfolding b by (auto simp: list_ex_iff)
  have "roms @ ''/'' @ n \<notin> set out" if "path_base (roms @ ''/'' @ n) \<notin> path_base ` set out" using that by blast
  then show ?thesis using assms(3,4) unfolding system_entry_def Let_def f ex add_first_def strlist_add_def by auto
qed

lemma system_entries_first:
  assumes "\<And>n. n \<in> set names \<Longrightarrow> CHR ''/'' \<notin> set n \<and> length roms + length n + 1 < ZP_PATH"
  shows "foldl (system_entry E roms) out names = foldl (add_first path_base) out
    (filter (pe_isdir E) (map (\<lambda>n. roms @ ''/'' @ n) (filter (\<lambda>n. n \<noteq> ''.'' \<and> n \<noteq> ''..'') names)))"
  using assms
proof (induction names arbitrary: out)
  case (Cons n names)
  show ?case
  proof (cases "n = ''.'' \<or> n = ''..''")
    case True
    then have "system_entry E roms out n = out" by (auto simp: system_entry_def Let_def)
    then show ?thesis using True Cons by auto
  next
    case False
    then show ?thesis using Cons system_entry_first [of n roms E out] by simp
  qed
qed simp

lemma system_dirs_foldl:
  assumes "names_fit E" "set roots \<subseteq> set (zlyme_library_roots E)"
  shows "foldl (system_root E) out roots = foldl (add_first path_base) out (concat (map (listed_dirs E) roots))"
  using assms(2)
proof (induction roots arbitrary: out)
  case (Cons root roots)
  have "system_root E out root = foldl (add_first path_base) out (listed_dirs E root)"
  proof (cases "zlyme_library_roms_dir E root ZP_PATH")
    case (Some roms)
    show ?thesis
    proof (cases "pe_list E roms")
      case (Some names)
      have "CHR ''/'' \<notin> set n \<and> length roms + length n + 1 < ZP_PATH" if "n \<in> set names" for n
        using assms(1) Cons.prems \<open>zlyme_library_roms_dir E root ZP_PATH = Some roms\<close> Some that
        unfolding names_fit_def by (meson list.set_intros(1) subsetD)
      from system_entries_first [OF this] show ?thesis
        using \<open>zlyme_library_roms_dir E root ZP_PATH = Some roms\<close> Some by (simp add: system_root_def listed_dirs_def)
    qed (use Some in \<open>simp add: system_root_def listed_dirs_def\<close>)
  qed (simp add: system_root_def listed_dirs_def)
  then show ?case using Cons by simp
qed simp

text \<open>
  The system folders of the scraper are, for every folder name that any library
  lists, the folder of that name in the first library that has it: no name appears twice, none is
  lost, and the first listed wins. Names are as a file system gives them and paths fit the buffers.
\<close>

theorem system_dirs_first_wins:
  assumes "names_fit E"
  shows "firsts_of path_base (all_system_dirs E) (zlyme_system_dirs E)"
  using firsts_of_foldl [of path_base "[]" "[]" "all_system_dirs E"] system_dirs_foldl [OF assms order_refl, of "[]"]
  by (simp add: zlyme_system_dirs_def all_system_dirs_def firsts_of_def)

definition sample_paths :: path_env where
  "sample_paths =
     \<lparr>pe_file = Some (''/storage/'' @ [c_nl] @ '' /media/sd  '' @ [c_nl] @ ''/storage''),
      pe_isdir = (\<lambda>p. p \<in> {''/storage/Roms'', ''/media/sd/roms'', ''/storage/Roms/GB'', ''/media/sd/roms/GB'', ''/media/sd/roms/FC''}),
      pe_list = (\<lambda>p. if p = ''/storage/Roms'' then Some [''.'', ''..'', ''GB'', ''a.txt''] else Some [''GB'', ''FC''])\<rparr>"

lemma sample_paths_dirs:
  "zlyme_library_roots sample_paths = [''/storage'', ''/media/sd'']"
  "zlyme_system_dirs sample_paths = [''/storage/Roms/GB'', ''/media/sd/roms/FC'']"
  by (simp_all add: zlyme_library_roots_def sample_paths_def fgets_lines.simps line_of_def Let_def library_line_def trim_inplace_def
      is_space_def char_val_def strip_trailing_slashes.simps strlist_add_def zlyme_system_dirs_def system_root_def
      zlyme_library_roms_dir_def rom_names_def system_entry_def path_base_def)

theorem system_dirs_first_wins_witness:
  "firsts_of path_base (all_system_dirs sample_paths) [''/storage/Roms/GB'', ''/media/sd/roms/FC'']"
proof -
  have r: "zlyme_library_roms_dir sample_paths ''/storage'' ZP_PATH = Some ''/storage/Roms''"
    "zlyme_library_roms_dir sample_paths ''/media/sd'' ZP_PATH = Some ''/media/sd/roms''"
    by (simp_all add: zlyme_library_roms_dir_def rom_names_def sample_paths_def)
  have "names_fit sample_paths"
    unfolding names_fit_def sample_paths_dirs using r by (auto simp: sample_paths_def)
  from system_dirs_first_wins [OF this] show ?thesis unfolding sample_paths_dirs .
qed

end
