(* ===== verification/Systems.thy ===== *)
theory Systems
  imports Scrape_Paths Complex_Main
begin

text \<open>
  The scraper's catalogue of platforms and the user's mappings of ROM folders to them,
  \<^verbatim>\<open>zcrapegoat/src/src/systems.c\<close>. JSON values are what cJSON hands to the code; its parser and printer
  are parameters. Error and warning texts are values of a datatype, one for each message. Results of
  file operations are inputs and memory is taken to suffice. A pointer to a platform is its index.
\<close>

section \<open>JSON\<close>

datatype json = J_Null | J_Bool bool | J_Num rat | J_Str string | J_Arr "json list" | J_Obj "(string \<times> json) list"

definition j_get :: "json \<Rightarrow> string \<Rightarrow> json option" where
  "j_get j k = (case j of J_Obj l \<Rightarrow> map_of l k | _ \<Rightarrow> None)"

definition j_is_obj :: "json \<Rightarrow> bool" where
  "j_is_obj j = (case j of J_Obj l \<Rightarrow> True | _ \<Rightarrow> False)"

definition has_duplicate_keys :: "json \<Rightarrow> bool" where
  "has_duplicate_keys j = (case j of J_Obj l \<Rightarrow> \<not> distinct (map fst l) | _ \<Rightarrow> False)"

text \<open>Absent and null are treated alike.\<close>

definition j_present :: "json option \<Rightarrow> bool" where
  "j_present v \<longleftrightarrow> v \<noteq> None \<and> v \<noteq> Some J_Null"

section \<open>State\<close>

record sg_platform =
  p_id :: string
  p_name :: string
  p_ss_id :: int
  p_dir :: "string option"
  p_aliases :: "string list"

record catalog =
  c_platforms :: "sg_platform list"
  c_defaults :: "(string \<times> nat) list"
  c_candidates :: "(string \<times> nat list) list"

record folder_ov =
  fo_key :: string
  fo_platform :: "string option"
  fo_hidden :: bool

record override_set =
  os_tags :: "(string \<times> string option) list"
  os_folders :: "folder_ov list"

datatype sys_error =
    E_NoPlatforms | E_EmptyCatalog | E_PlatformShape nat | E_PlatformId nat | E_PlatformName string
  | E_DuplicateId string | E_SsId string | E_CheatDir string | E_AliasesShape string | E_Alias string
  | E_TagsShape | E_TagsRepeat | E_TagKey | E_TagNotString string | E_TagUnknown string string
  | E_CandShape | E_CandRepeat | E_CandKey | E_CandEmpty string | E_CandNotString string | E_CandUnknown string string
  | E_EnvTooLong | E_EnvUnreadable | E_BesideTooLong | E_BesideUnreadable | E_NoCatalog
  | E_ReadFile | E_NotJson | E_Schema | E_RepeatTop
  | E_NotLoaded | E_TagUnusable | E_UnknownPlatform string | E_FolderOutside
  | E_Backup | E_TmpTooLong | E_WriteTmp | E_Rename

datatype sys_warning =
    W_Unreadable | W_NotJson | W_RepeatTop | W_Schema | W_TagsRepeat | W_Tag string | W_TagsShape
  | W_FoldersRepeat | W_Folder string | W_Hidden string | W_FolderPlatform string | W_FoldersShape

record sys =
  sy_cat :: catalog
  sy_ov :: override_set
  sy_init :: bool
  sy_error :: "sys_error option"
  sy_warning :: "sys_warning option"
  sy_backup :: bool
  sy_file :: "string option"
  sy_rejected :: "string option"

definition no_catalog :: catalog where
  "no_catalog = \<lparr>c_platforms = [], c_defaults = [], c_candidates = []\<rparr>"

definition no_overrides :: override_set where
  "no_overrides = \<lparr>os_tags = [], os_folders = []\<rparr>"

text \<open>\<^verbatim>\<open>set_warning\<close> keeps the first problem; every caller also asks for a backup of the file.\<close>

definition warn :: "sys_warning \<Rightarrow> sys \<Rightarrow> sys" where
  "warn w s = s\<lparr>sy_warning := (if sy_warning s = None then Some w else sy_warning s), sy_backup := True\<rparr>"

definition set_error :: "sys_error \<Rightarrow> sys \<Rightarrow> sys" where
  "set_error e s = s\<lparr>sy_error := Some e\<rparr>"

abbreviation (input) "MAX_TAG_LEN \<equiv> (64 :: nat)"
abbreviation (input) "MAX_ID_LEN \<equiv> (128 :: nat)"
abbreviation (input) "MAX_KEY_LEN \<equiv> (512 :: nat)"
abbreviation (input) "MAX_DIR_LEN \<equiv> (200 :: nat)"
abbreviation (input) "MAX_NAME_LEN \<equiv> (512 :: nat)"

section \<open>Comparing names\<close>

fun starts_ci :: "string \<Rightarrow> string \<Rightarrow> bool" where
  "starts_ci [] s = True"
| "starts_ci (n # ns) [] = False"
| "starts_ci (n # ns) (c # s) = (lower c = lower n \<and> starts_ci ns s)"

fun contains_loop :: "string \<Rightarrow> string \<Rightarrow> bool" where
  "contains_loop [] needle = False"
| "contains_loop (c # s) needle = (if starts_ci needle (c # s) then True else contains_loop s needle)"

definition contains_ci :: "string \<Rightarrow> string \<Rightarrow> bool" where
  "contains_ci haystack needle = (if needle = [] then False else contains_loop haystack needle)"

fun equals_ci :: "string \<Rightarrow> string \<Rightarrow> bool" where
  "equals_ci [] [] = True"
| "equals_ci (a # s) (b # t) = (if lower a \<noteq> lower b then False else equals_ci s t)"
| "equals_ci _ _ = False"

section \<open>Loading the catalogue\<close>

fun platform_index_by_id :: "sg_platform list \<Rightarrow> string \<Rightarrow> nat option" where
  "platform_index_by_id [] i = None"
| "platform_index_by_id (p # ps) i = (if p_id p = i then Some 0 else map_option Suc (platform_index_by_id ps i))"

definition systems_valid_provider_dir :: "string \<Rightarrow> bool" where
  "systems_valid_provider_dir dir =
     (if dir = [] \<or> length dir > MAX_DIR_LEN then False
      else if CHR ''/'' \<in> set dir \<or> CHR 0x5C \<in> set dir then False
      else dir \<noteq> ''.'' \<and> dir \<noteq> ''..'')"

definition usable_string :: "nat \<Rightarrow> json option \<Rightarrow> string option" where
  "usable_string n v =
     (case v of Some (J_Str s) \<Rightarrow> if s = [] \<or> length s > n then None else Some s | _ \<Rightarrow> None)"

definition load_ss_id :: "string \<Rightarrow> json option \<Rightarrow> sys_error + int" where
  "load_ss_id i v =
     (if \<not> j_present v then Inr (-1)
      else case v of
             Some (J_Num x) \<Rightarrow>
               if x < 1 \<or> x > 2147483647 \<or> x \<noteq> of_int \<lfloor>x\<rfloor> then Inl (E_SsId i) else Inr \<lfloor>x\<rfloor>
           | _ \<Rightarrow> Inl (E_SsId i))"

definition load_dir :: "string \<Rightarrow> json option \<Rightarrow> sys_error + string option" where
  "load_dir i v =
     (if \<not> j_present v then Inr None
      else case v of
             Some (J_Str d) \<Rightarrow> if systems_valid_provider_dir d then Inr (Some d) else Inl (E_CheatDir i)
           | _ \<Rightarrow> Inl (E_CheatDir i))"

fun load_alias_list :: "string \<Rightarrow> json list \<Rightarrow> sys_error + string list" where
  "load_alias_list i [] = Inr []"
| "load_alias_list i (a # as) =
     (case usable_string MAX_NAME_LEN (Some a) of
        None \<Rightarrow> Inl (E_Alias i)
      | Some s \<Rightarrow> map_sum id (\<lambda>l. s # l) (load_alias_list i as))"

definition load_aliases :: "string \<Rightarrow> json option \<Rightarrow> sys_error + string list" where
  "load_aliases i v =
     (if \<not> j_present v then Inr []
      else case v of Some (J_Arr l) \<Rightarrow> load_alias_list i l | _ \<Rightarrow> Inl (E_AliasesShape i))"

definition load_platform :: "sg_platform list \<Rightarrow> json \<Rightarrow> sys_error + sg_platform" where
  "load_platform ps item =
     (if \<not> j_is_obj item \<or> has_duplicate_keys item then Inl (E_PlatformShape (length ps))
      else case usable_string MAX_ID_LEN (j_get item ''id'') of
        None \<Rightarrow> Inl (E_PlatformId (length ps))
      | Some i \<Rightarrow>
         (case usable_string MAX_NAME_LEN (j_get item ''name'') of
            None \<Rightarrow> Inl (E_PlatformName i)
          | Some nm \<Rightarrow>
              if platform_index_by_id ps i \<noteq> None then Inl (E_DuplicateId i)
              else (case load_ss_id i (j_get item ''ss_id'') of
                      Inl e \<Rightarrow> Inl e
                    | Inr ss \<Rightarrow>
                       (case load_dir i (j_get item ''libretro_dir'') of
                          Inl e \<Rightarrow> Inl e
                        | Inr d \<Rightarrow>
                           (case load_aliases i (j_get item ''aliases'') of
                              Inl e \<Rightarrow> Inl e
                            | Inr al \<Rightarrow> Inr \<lparr>p_id = i, p_name = nm, p_ss_id = ss, p_dir = d, p_aliases = al\<rparr>)))))"

fun load_platform_list :: "json list \<Rightarrow> sg_platform list \<Rightarrow> sys_error + sg_platform list" where
  "load_platform_list [] ps = Inr ps"
| "load_platform_list (item # items) ps =
     (case load_platform ps item of Inl e \<Rightarrow> Inl e | Inr p \<Rightarrow> load_platform_list items (ps @ [p]))"

definition load_platforms :: "json \<Rightarrow> sys_error + sg_platform list" where
  "load_platforms doc =
     (case j_get doc ''platforms'' of
        Some (J_Arr l) \<Rightarrow> if l = [] then Inl E_EmptyCatalog else load_platform_list l []
      | _ \<Rightarrow> Inl E_NoPlatforms)"

definition load_default :: "sg_platform list \<Rightarrow> string \<times> json \<Rightarrow> sys_error + string \<times> nat" where
  "load_default ps item =
     (if fst item = [] \<or> length (fst item) > MAX_TAG_LEN then Inl E_TagKey
      else case snd item of
             J_Str i \<Rightarrow> (case platform_index_by_id ps i of None \<Rightarrow> Inl (E_TagUnknown (fst item) i)
                        | Some n \<Rightarrow> Inr (fst item, n))
           | _ \<Rightarrow> Inl (E_TagNotString (fst item)))"

fun load_default_list :: "sg_platform list \<Rightarrow> (string \<times> json) list \<Rightarrow> sys_error + (string \<times> nat) list" where
  "load_default_list ps [] = Inr []"
| "load_default_list ps (x # xs) =
     (case load_default ps x of Inl e \<Rightarrow> Inl e | Inr d \<Rightarrow> map_sum id (\<lambda>l. d # l) (load_default_list ps xs))"

definition load_tag_defaults :: "json \<Rightarrow> sg_platform list \<Rightarrow> sys_error + (string \<times> nat) list" where
  "load_tag_defaults doc ps =
     (let v = j_get doc ''tags''
      in if \<not> j_present v then Inr []
         else case v of
                Some (J_Obj l) \<Rightarrow> if has_duplicate_keys (J_Obj l) then Inl E_TagsRepeat else load_default_list ps l
              | _ \<Rightarrow> Inl E_TagsShape)"

fun candidate_list :: "sg_platform list \<Rightarrow> string \<Rightarrow> json list \<Rightarrow> sys_error + nat list" where
  "candidate_list ps tag [] = Inr []"
| "candidate_list ps tag (e # es) =
     (case e of
        J_Str i \<Rightarrow> (case platform_index_by_id ps i of None \<Rightarrow> Inl (E_CandUnknown tag i)
                   | Some n \<Rightarrow> map_sum id (\<lambda>l. n # l) (candidate_list ps tag es))
      | _ \<Rightarrow> Inl (E_CandNotString tag))"

fun load_candidate_list :: "sg_platform list \<Rightarrow> (string \<times> json) list \<Rightarrow> sys_error + (string \<times> nat list) list" where
  "load_candidate_list ps [] = Inr []"
| "load_candidate_list ps ((tag, v) # xs) =
     (if tag = [] \<or> length tag > MAX_TAG_LEN then Inl E_CandKey
      else (case v of
              J_Arr l \<Rightarrow>
                if l = [] then Inl (E_CandEmpty tag)
                else (case candidate_list ps tag l of Inl e \<Rightarrow> Inl e
                      | Inr ns \<Rightarrow> map_sum id (\<lambda>r. (tag, ns) # r) (load_candidate_list ps xs))
            | _ \<Rightarrow> Inl (E_CandEmpty tag)))"

definition load_tag_candidates :: "json \<Rightarrow> sg_platform list \<Rightarrow> sys_error + (string \<times> nat list) list" where
  "load_tag_candidates doc ps =
     (let v = j_get doc ''tag_candidates''
      in if \<not> j_present v then Inr []
         else case v of
                Some (J_Obj l) \<Rightarrow> if has_duplicate_keys (J_Obj l) then Inl E_CandRepeat else load_candidate_list ps l
              | _ \<Rightarrow> Inl E_CandShape)"

text \<open>Where the catalogue is: the environment variable, beside the executable, or the working directory.\<close>

record cat_io =
  ci_env :: "string option"
  ci_readable :: "string \<Rightarrow> bool"
  ci_missing :: "string \<Rightarrow> bool"
  ci_exe_dir :: "string option"
  ci_read :: "string \<Rightarrow> string option"

definition resolve_catalog_path :: "cat_io \<Rightarrow> sys_error + string" where
  "resolve_catalog_path io =
     (let here = ''resources/systems.json''
      in case ci_env io of
           Some path \<Rightarrow>
             if length path \<ge> ZP_PATH then Inl E_EnvTooLong
             else if \<not> ci_readable io path then Inl E_EnvUnreadable else Inr path
         | None \<Rightarrow>
            (case ci_exe_dir io of
               None \<Rightarrow> if ci_readable io here then Inr here else Inl E_NoCatalog
             | Some d \<Rightarrow>
                 let beside = d @ ''/resources/systems.json''
                 in if length beside \<ge> ZP_PATH then Inl E_BesideTooLong
                    else if ci_readable io beside then Inr beside
                    else if \<not> ci_missing io beside then Inl E_BesideUnreadable
                    else if ci_readable io here then Inr here else Inl E_NoCatalog))"

definition load_root :: "json \<Rightarrow> sys_error + catalog" where
  "load_root doc =
     (if \<not> j_is_obj doc \<or> j_get doc ''schema'' \<noteq> Some (J_Num 1) then Inl E_Schema
      else if has_duplicate_keys doc then Inl E_RepeatTop
      else case load_platforms doc of
             Inl e \<Rightarrow> Inl e
           | Inr ps \<Rightarrow>
              (case load_tag_defaults doc ps of
                 Inl e \<Rightarrow> Inl e
               | Inr ds \<Rightarrow>
                  (case load_tag_candidates doc ps of
                     Inl e \<Rightarrow> Inl e
                   | Inr cs \<Rightarrow> Inr \<lparr>c_platforms = ps, c_defaults = ds, c_candidates = cs\<rparr>)))"

definition load_catalog :: "(string \<Rightarrow> json option) \<Rightarrow> cat_io \<Rightarrow> sys_error + catalog" where
  "load_catalog parse io =
     (case resolve_catalog_path io of
        Inl e \<Rightarrow> Inl e
      | Inr path \<Rightarrow>
         (case ci_read io path of
            None \<Rightarrow> Inl E_ReadFile
          | Some text \<Rightarrow> (case parse text of None \<Rightarrow> Inl E_NotJson | Some doc \<Rightarrow> load_root doc)))"

end
