(* ===== verification/Systems_Map.thy ===== *)
theory Systems_Map
  imports Systems
begin

text \<open>
  The user's mappings of \<^verbatim>\<open>systems.c\<close>: loading and saving them, resolving a folder, the suggestions,
  and the operations that change a mapping.
\<close>

section \<open>Folder keys\<close>

fun split_slash :: "string \<Rightarrow> string \<Rightarrow> string list" where
  "split_slash [] cur = [rev cur]"
| "split_slash (c # s) cur = (if c = CHR ''/'' then rev cur # split_slash s [] else split_slash s (c # cur))"

definition key_is_safe :: "string \<Rightarrow> bool" where
  "key_is_safe key =
     (if key = [] \<or> hd key = CHR ''/'' then False
      else list_all (\<lambda>c. c \<noteq> [] \<and> c \<noteq> ''.'' \<and> c \<noteq> ''..'') (split_slash key []))"

definition systems_folder_key :: "path_env \<Rightarrow> string \<Rightarrow> nat \<Rightarrow> string option" where
  "systems_folder_key E console_path buflen =
     (case zlyme_folder_key E (Some console_path) buflen of
        None \<Rightarrow> None
      | Some key \<Rightarrow> if key_is_safe key then Some key else None)"

section \<open>Override sets\<close>

definition ov_find_folder :: "override_set \<Rightarrow> string \<Rightarrow> folder_ov option" where
  "ov_find_folder set0 key = find (\<lambda>f. fo_key f = key) (os_folders set0)"

definition ov_find_tag :: "override_set \<Rightarrow> string \<Rightarrow> string option" where
  "ov_find_tag set0 tag = (case map_of (os_tags set0) tag of None \<Rightarrow> None | Some p \<Rightarrow> p)"

text \<open>The slot of a key, made when it is missing, changed by \<open>g\<close>.\<close>

fun slot_update :: "string \<Rightarrow> (folder_ov \<Rightarrow> folder_ov) \<Rightarrow> folder_ov list \<Rightarrow> folder_ov list" where
  "slot_update key g [] = [g \<lparr>fo_key = key, fo_platform = None, fo_hidden = False\<rparr>]"
| "slot_update key g (f # fs) = (if fo_key f = key then g f # fs else f # slot_update key g fs)"

definition ov_folder_slot :: "string \<Rightarrow> (folder_ov \<Rightarrow> folder_ov) \<Rightarrow> override_set \<Rightarrow> override_set" where
  "ov_folder_slot key g set0 = set0\<lparr>os_folders := slot_update key g (os_folders set0)\<rparr>"

definition ov_compact :: "override_set \<Rightarrow> override_set" where
  "ov_compact set0 =
     \<lparr>os_tags = filter (\<lambda>t. snd t \<noteq> None) (os_tags set0),
      os_folders = filter (\<lambda>f. fo_platform f \<noteq> None \<or> fo_hidden f) (os_folders set0)\<rparr>"

section \<open>Loading\<close>

definition known :: "catalog \<Rightarrow> string \<Rightarrow> bool" where
  "known c i \<longleftrightarrow> platform_index_by_id (c_platforms c) i \<noteq> None"

definition known_str :: "catalog \<Rightarrow> json \<Rightarrow> string option" where
  "known_str c v = (case v of J_Str i \<Rightarrow> if known c i then Some i else None | _ \<Rightarrow> None)"

definition load_tag_ov :: "sys \<Rightarrow> string \<times> json \<Rightarrow> sys" where
  "load_tag_ov s item =
     (case known_str (sy_cat s) (snd item) of
        Some i \<Rightarrow>
          if fst item = [] \<or> length (fst item) > MAX_TAG_LEN then warn (W_Tag (fst item)) s
          else s\<lparr>sy_ov := (sy_ov s)\<lparr>os_tags := os_tags (sy_ov s) @ [(fst item, Some i)]\<rparr>\<rparr>
      | None \<Rightarrow> warn (W_Tag (fst item)) s)"

definition load_tags :: "json option \<Rightarrow> sys \<Rightarrow> sys" where
  "load_tags v s =
     (case v of
        Some (J_Obj l) \<Rightarrow> if has_duplicate_keys (J_Obj l) then warn W_TagsRepeat s else foldl load_tag_ov s l
      | _ \<Rightarrow> if j_present v then warn W_TagsShape s else s)"

definition load_folder_ov :: "sys \<Rightarrow> string \<times> json \<Rightarrow> sys" where
  "load_folder_ov s item =
     (let key = fst item
      in if \<not> key_is_safe key \<or> length key \<ge> MAX_KEY_LEN \<or> \<not> j_is_obj (snd item) \<or> has_duplicate_keys (snd item)
         then warn (W_Folder key) s
         else let platform = j_get (snd item) ''platform''; hidden = j_get (snd item) ''hidden'';
                  s = (if hidden \<noteq> None \<and> (\<forall>b \<in> {True, False}. hidden \<noteq> Some (J_Bool b)) then warn (W_Hidden key) s else s);
                  pid = (if j_present platform then known_str (sy_cat s) (the platform) else None);
                  s = (if j_present platform \<and> pid = None then warn (W_FolderPlatform key) s else s);
                  is_hidden = (hidden = Some (J_Bool True))
              in if pid = None \<and> \<not> is_hidden then s
                 else s\<lparr>sy_ov := ov_folder_slot key
                        (\<lambda>f. f\<lparr>fo_hidden := is_hidden, fo_platform := (if pid \<noteq> None then pid else fo_platform f)\<rparr>) (sy_ov s)\<rparr>)"

definition load_folders :: "json option \<Rightarrow> sys \<Rightarrow> sys" where
  "load_folders v s =
     (case v of
        Some (J_Obj l) \<Rightarrow> if has_duplicate_keys (J_Obj l) then warn W_FoldersRepeat s else foldl load_folder_ov s l
      | _ \<Rightarrow> if j_present v then warn W_FoldersShape s else s)"

text \<open>\<open>readable\<close> is the result of reading the file that is there.\<close>

definition load_overrides :: "(string \<Rightarrow> json option) \<Rightarrow> bool \<Rightarrow> sys \<Rightarrow> sys" where
  "load_overrides parse readable s =
     (case sy_file s of
        None \<Rightarrow> s
      | Some text \<Rightarrow>
          if \<not> readable then warn W_Unreadable s
          else (case parse text of
                  None \<Rightarrow> warn W_NotJson s
                | Some doc \<Rightarrow>
                    if \<not> j_is_obj doc then warn W_NotJson s
                    else if has_duplicate_keys doc then warn W_RepeatTop s
                    else if j_get doc ''schema'' \<noteq> Some (J_Num 1) then warn W_Schema s
                    else load_folders (j_get doc ''folders'') (load_tags (j_get doc ''tags'') s)))"

section \<open>Saving\<close>

definition folder_json :: "folder_ov \<Rightarrow> json" where
  "folder_json f =
     J_Obj ((case fo_platform f of None \<Rightarrow> [] | Some p \<Rightarrow> [(''platform'', J_Str p)])
            @ (if fo_hidden f then [(''hidden'', J_Bool True)] else []))"

text \<open>A set that was compacted has an identifier for every suffix.\<close>

definition ov_to_json :: "override_set \<Rightarrow> json" where
  "ov_to_json set0 =
     J_Obj [(''schema'', J_Num 1),
            (''tags'', J_Obj (map (\<lambda>t. (fst t, J_Str (the (snd t)))) (os_tags set0))),
            (''folders'', J_Obj (map (\<lambda>f. (fo_key f, folder_json f)) (os_folders set0)))]"

datatype copy_result = Copy_Ok | Copy_NoFile | Copy_Failed

record persist_io =
  io_copy :: copy_result
  io_open :: bool
  io_write :: bool
  io_rename :: bool

definition copy_file :: "copy_result \<Rightarrow> sys \<Rightarrow> bool \<times> sys" where
  "copy_file r s =
     (case r of
        Copy_Ok \<Rightarrow> (True, s\<lparr>sy_rejected := sy_file s\<rparr>)
      | Copy_NoFile \<Rightarrow> (False, s)
      | Copy_Failed \<Rightarrow> (False, s\<lparr>sy_rejected := None\<rparr>))"

definition keep_rejected :: "nat \<Rightarrow> persist_io \<Rightarrow> sys \<Rightarrow> bool \<times> sys" where
  "keep_rejected path_len io s =
     (if sy_backup s \<and> sy_file s \<noteq> None
      then (if path_len + length ''.rejected'' \<ge> ZP_PATH then (False, set_error E_Backup s)
            else let (ok, s) = copy_file (io_copy io) s
                 in if ok then (True, s\<lparr>sy_backup := False\<rparr>) else (False, set_error E_Backup s))
      else (True, s))"

definition ov_persist :: "(json \<Rightarrow> string) \<Rightarrow> nat \<Rightarrow> persist_io \<Rightarrow> override_set \<Rightarrow> sys \<Rightarrow> bool \<times> sys" where
  "ov_persist print path_len io proposed s =
     (let (ok, s) = keep_rejected path_len io s
      in if \<not> ok then (False, s)
         else if path_len + length ''.tmp'' \<ge> ZP_PATH then (False, set_error E_TmpTooLong s)
         else if \<not> io_open io then (False, set_error E_WriteTmp s)
         else if \<not> io_write io then (False, set_error E_WriteTmp s)
         else if \<not> io_rename io then (False, set_error E_Rename s)
         else (True, s\<lparr>sy_file := Some (print (ov_to_json proposed))\<rparr>))"

definition commit :: "(json \<Rightarrow> string) \<Rightarrow> nat \<Rightarrow> persist_io \<Rightarrow> override_set \<Rightarrow> sys \<Rightarrow> bool \<times> sys" where
  "commit print path_len io proposed s =
     (let proposed = ov_compact proposed; (ok, s) = ov_persist print path_len io proposed s
      in if ok then (True, s\<lparr>sy_ov := proposed\<rparr>) else (False, s))"

section \<open>Life cycle\<close>

definition systems_init :: "(string \<Rightarrow> json option) \<Rightarrow> cat_io \<Rightarrow> bool \<Rightarrow> sys \<Rightarrow> bool \<times> sys" where
  "systems_init parse io readable s =
     (if sy_init s then (True, s)
      else let s = s\<lparr>sy_error := None, sy_warning := None, sy_backup := False\<rparr>
      in case load_catalog parse io of
           Inl e \<Rightarrow> (False, set_error e (s\<lparr>sy_cat := no_catalog\<rparr>))
         | Inr c \<Rightarrow> (True, (load_overrides parse readable (s\<lparr>sy_cat := c\<rparr>))\<lparr>sy_init := True\<rparr>))"

definition systems_shutdown :: "sys \<Rightarrow> sys" where
  "systems_shutdown s = s\<lparr>sy_cat := no_catalog, sy_ov := no_overrides, sy_init := False\<rparr>"

definition systems_clear_warning :: "sys \<Rightarrow> sys" where
  "systems_clear_warning s = s\<lparr>sy_warning := None\<rparr>"

section \<open>Resolution\<close>

datatype mapping_source = MAPPING_NONE | MAPPING_BUILTIN | MAPPING_USER_TAG | MAPPING_USER_FOLDER

record sg_mapping =
  m_platform :: "nat option"
  m_source :: mapping_source
  m_hidden :: bool

text \<open>A null tag or path is the empty string.\<close>

definition systems_builtin_tag :: "sys \<Rightarrow> string \<Rightarrow> nat option" where
  "systems_builtin_tag s tag = (if tag = [] then None else map_of (c_defaults (sy_cat s)) tag)"

definition index_of_id :: "sys \<Rightarrow> string option \<Rightarrow> nat option" where
  "index_of_id s p = (case p of None \<Rightarrow> None | Some i \<Rightarrow> platform_index_by_id (c_platforms (sy_cat s)) i)"

definition resolve_tag :: "sys \<Rightarrow> string \<Rightarrow> bool \<Rightarrow> sg_mapping" where
  "resolve_tag s tag hidden =
     (case index_of_id s (if tag \<noteq> [] then ov_find_tag (sy_ov s) tag else None) of
        Some n \<Rightarrow> \<lparr>m_platform = Some n, m_source = MAPPING_USER_TAG, m_hidden = hidden\<rparr>
      | None \<Rightarrow>
         (case systems_builtin_tag s tag of
            Some n \<Rightarrow> \<lparr>m_platform = Some n, m_source = MAPPING_BUILTIN, m_hidden = hidden\<rparr>
          | None \<Rightarrow> \<lparr>m_platform = None, m_source = MAPPING_NONE, m_hidden = hidden\<rparr>))"

definition systems_resolve :: "path_env \<Rightarrow> sys \<Rightarrow> string \<Rightarrow> string \<Rightarrow> sg_mapping" where
  "systems_resolve E s console_path tag =
     (if \<not> sy_init s then \<lparr>m_platform = None, m_source = MAPPING_NONE, m_hidden = False\<rparr>
      else let key = (if console_path \<noteq> [] then systems_folder_key E console_path MAX_KEY_LEN else None)
      in case (case key of None \<Rightarrow> None | Some k \<Rightarrow> ov_find_folder (sy_ov s) k) of
           None \<Rightarrow> resolve_tag s tag False
         | Some f \<Rightarrow>
            (case index_of_id s (fo_platform f) of
               Some n \<Rightarrow> \<lparr>m_platform = Some n, m_source = MAPPING_USER_FOLDER, m_hidden = fo_hidden f\<rparr>
             | None \<Rightarrow> resolve_tag s tag (fo_hidden f)))"

section \<open>Catalogue access and suggestions\<close>

definition systems_platform_at :: "sys \<Rightarrow> int \<Rightarrow> nat option" where
  "systems_platform_at s i = (if i < 0 \<or> i \<ge> int (length (c_platforms (sy_cat s))) then None else Some (nat i))"

definition systems_platform_by_id :: "sys \<Rightarrow> string \<Rightarrow> nat option" where
  "systems_platform_by_id s i = platform_index_by_id (c_platforms (sy_cat s)) i"

definition systems_tag_candidates :: "sys \<Rightarrow> string \<Rightarrow> int \<Rightarrow> nat list" where
  "systems_tag_candidates s tag mx =
     (if tag = [] \<or> mx \<le> 0 then []
      else case map_of (c_candidates (sy_cat s)) tag of None \<Rightarrow> [] | Some l \<Rightarrow> take (nat mx) l)"

definition matches_filter :: "sg_platform \<Rightarrow> string \<Rightarrow> bool" where
  "matches_filter rec flt =
     (if flt = [] then True
      else if contains_ci (p_name rec) flt \<or> contains_ci (p_id rec) flt then True
      else list_ex (\<lambda>a. contains_ci a flt) (p_aliases rec))"

definition names_match :: "sg_platform \<Rightarrow> string \<Rightarrow> bool" where
  "names_match rec txt =
     (if txt = [] then False
      else if equals_ci (p_name rec) txt then True
      else list_ex (\<lambda>a. equals_ci a txt) (p_aliases rec))"

definition systems_platform_matches :: "sys \<Rightarrow> nat option \<Rightarrow> string \<Rightarrow> bool" where
  "systems_platform_matches s p txt =
     (case p of None \<Rightarrow> False
      | Some i \<Rightarrow> if txt = [] then True
                 else i < length (c_platforms (sy_cat s)) \<and> matches_filter (c_platforms (sy_cat s) ! i) txt)"

text \<open>One platform is offered: it is added when there is room, it is not listed yet and it passes.\<close>

definition offer :: "nat \<Rightarrow> (nat \<Rightarrow> bool) \<Rightarrow> nat list \<Rightarrow> nat \<Rightarrow> nat list" where
  "offer mx ok out i = (if length out < mx \<and> i \<notin> set out \<and> ok i then out @ [i] else out)"

definition systems_suggest :: "sys \<Rightarrow> string \<Rightarrow> string \<Rightarrow> string \<Rightarrow> int \<Rightarrow> nat list" where
  "systems_suggest s tag display flt mx =
     (if mx \<le> 0 then []
      else let ps = c_platforms (sy_cat s); all = [0..<length ps]; m = nat mx;
               fits = (\<lambda>i. matches_filter (ps ! i) flt);
               out = foldl (offer m (\<lambda>i. names_match (ps ! i) display \<and> fits i)) [] all;
               out = foldl (offer m fits) out (systems_tag_candidates s tag 16);
               out = (case systems_builtin_tag s tag of None \<Rightarrow> out | Some b \<Rightarrow> offer m fits out b)
           in if display = [] then out
              else foldl (offer m (\<lambda>i. contains_ci (p_name (ps ! i)) display \<and> fits i)) out all)"

section \<open>Changing a mapping\<close>

fun tag_update :: "string \<Rightarrow> string option \<Rightarrow> (string \<times> string option) list \<Rightarrow> (string \<times> string option) list" where
  "tag_update tag p [] = (case p of None \<Rightarrow> [] | Some i \<Rightarrow> [(tag, Some i)])"
| "tag_update tag p (t # ts) = (if fst t = tag then (tag, p) # ts else t # tag_update tag p ts)"

definition systems_set_tag ::
    "(json \<Rightarrow> string) \<Rightarrow> nat \<Rightarrow> persist_io \<Rightarrow> string \<Rightarrow> string option \<Rightarrow> sys \<Rightarrow> bool \<times> sys" where
  "systems_set_tag print path_len io tag platform_id s =
     (if \<not> sy_init s then (False, set_error E_NotLoaded s)
      else if tag = [] \<or> length tag > MAX_TAG_LEN then (False, set_error E_TagUnusable s)
      else if platform_id \<noteq> None \<and> \<not> known (sy_cat s) (the platform_id)
      then (False, set_error (E_UnknownPlatform (the platform_id)) s)
      else commit print path_len io ((sy_ov s)\<lparr>os_tags := tag_update tag platform_id (os_tags (sy_ov s))\<rparr>) s)"

definition set_folder ::
    "path_env \<Rightarrow> (json \<Rightarrow> string) \<Rightarrow> nat \<Rightarrow> persist_io \<Rightarrow> string \<Rightarrow> string option \<Rightarrow> bool \<Rightarrow> bool \<Rightarrow> bool \<Rightarrow> sys \<Rightarrow> bool \<times> sys" where
  "set_folder E print path_len io console_path platform_id set_platform hidden set_hidden s =
     (if \<not> sy_init s then (False, set_error E_NotLoaded s)
      else case systems_folder_key E console_path MAX_KEY_LEN of
        None \<Rightarrow> (False, set_error E_FolderOutside s)
      | Some key \<Rightarrow>
          if set_platform \<and> platform_id \<noteq> None \<and> \<not> known (sy_cat s) (the platform_id)
          then (False, set_error (E_UnknownPlatform (the platform_id)) s)
          else commit print path_len io
                 (ov_folder_slot key (\<lambda>f. f\<lparr>fo_platform := (if set_platform then platform_id else fo_platform f),
                    fo_hidden := (if set_hidden then hidden else fo_hidden f)\<rparr>) (sy_ov s)) s)"

definition systems_set_folder_platform where
  "systems_set_folder_platform E print path_len io console_path platform_id s =
     set_folder E print path_len io console_path platform_id True False False s"

definition systems_set_folder_hidden where
  "systems_set_folder_hidden E print path_len io console_path hidden s =
     set_folder E print path_len io console_path None False hidden True s"

definition systems_clear_folder where
  "systems_clear_folder E print path_len io console_path s =
     set_folder E print path_len io console_path None True False True s"

record sg_override =
  so_is_folder :: bool
  so_key :: string
  so_platform :: "string option"
  so_hidden :: bool

definition systems_override_count :: "sys \<Rightarrow> nat" where
  "systems_override_count s = length (os_folders (sy_ov s)) + length (os_tags (sy_ov s))"

definition systems_override_at :: "sys \<Rightarrow> int \<Rightarrow> sg_override option" where
  "systems_override_at s index =
     (if index < 0 then None
      else let i = nat index; n = length (os_folders (sy_ov s))
      in if i < n
         then let f = os_folders (sy_ov s) ! i
              in Some \<lparr>so_is_folder = True, so_key = fo_key f, so_platform = fo_platform f, so_hidden = fo_hidden f\<rparr>
         else if i - n \<ge> length (os_tags (sy_ov s)) then None
         else let t = os_tags (sy_ov s) ! (i - n)
              in Some \<lparr>so_is_folder = False, so_key = fst t, so_platform = snd t, so_hidden = False\<rparr>)"

end
