(* ===== verification/Systems_Props.thy ===== *)
theory Systems_Props
  imports Systems_Map
begin

text \<open>
  The invariant of the catalogue and of the user's mappings, over every sequence of operations and
  every content of the two files.
\<close>

section \<open>Well-formed catalogues\<close>

definition platform_ok :: "sg_platform \<Rightarrow> bool" where
  "platform_ok p \<longleftrightarrow> p_id p \<noteq> [] \<and> length (p_id p) \<le> MAX_ID_LEN \<and> p_name p \<noteq> [] \<and> length (p_name p) \<le> MAX_NAME_LEN
     \<and> (p_ss_id p = -1 \<or> 1 \<le> p_ss_id p \<and> p_ss_id p \<le> 2147483647)
     \<and> (\<forall>d. p_dir p = Some d \<longrightarrow> systems_valid_provider_dir d)
     \<and> (\<forall>a \<in> set (p_aliases p). a \<noteq> [] \<and> length a \<le> MAX_NAME_LEN)"

definition tag_ok :: "string \<Rightarrow> bool" where
  "tag_ok t \<longleftrightarrow> t \<noteq> [] \<and> length t \<le> MAX_TAG_LEN"

definition cat_inv :: "catalog \<Rightarrow> bool" where
  "cat_inv c \<longleftrightarrow> c_platforms c \<noteq> [] \<and> (\<forall>p \<in> set (c_platforms c). platform_ok p) \<and> distinct (map p_id (c_platforms c))
     \<and> distinct (map fst (c_defaults c)) \<and> (\<forall>(t, n) \<in> set (c_defaults c). tag_ok t \<and> n < length (c_platforms c))
     \<and> distinct (map fst (c_candidates c))
     \<and> (\<forall>(t, ns) \<in> set (c_candidates c). tag_ok t \<and> ns \<noteq> [] \<and> (\<forall>n \<in> set ns. n < length (c_platforms c)))"

lemma platform_index_None: "platform_index_by_id ps i = None \<longleftrightarrow> i \<notin> p_id ` set ps"
  by (induction ps) auto

lemma platform_index_Some: "platform_index_by_id ps i = Some n \<Longrightarrow> n < length ps \<and> p_id (ps ! n) = i"
  by (induction ps arbitrary: n) (auto split: if_splits)

lemma usable_string_Some: "usable_string n v = Some s \<Longrightarrow> s \<noteq> [] \<and> length s \<le> n"
  by (auto simp: usable_string_def split: option.splits json.splits if_splits)

lemma load_ss_id_ok: "load_ss_id i v = Inr n \<Longrightarrow> n = -1 \<or> 1 \<le> n \<and> n \<le> 2147483647"
  by (auto simp: load_ss_id_def not_less le_floor_iff floor_le_iff split: if_splits option.splits json.splits)

lemma load_dir_ok: "load_dir i v = Inr (Some d) \<Longrightarrow> systems_valid_provider_dir d"
  by (auto simp: load_dir_def split: if_splits option.splits json.splits)

lemma load_alias_list_ok: "load_alias_list i l = Inr al \<Longrightarrow> a \<in> set al \<Longrightarrow> a \<noteq> [] \<and> length a \<le> MAX_NAME_LEN"
proof (induction l arbitrary: al)
  case (Cons x l)
  then show ?case by (cases "load_alias_list i l") (auto dest: usable_string_Some split: option.splits)
qed simp

lemma load_aliases_ok: "load_aliases i v = Inr al \<Longrightarrow> a \<in> set al \<Longrightarrow> a \<noteq> [] \<and> length a \<le> MAX_NAME_LEN"
  by (auto simp: load_aliases_def dest: load_alias_list_ok split: if_splits option.splits json.splits)

lemma load_platform_ok:
  assumes "load_platform ps item = Inr p"
  shows "platform_ok p \<and> p_id p \<notin> p_id ` set ps"
proof -
  obtain i nm ss d al where l: "usable_string MAX_ID_LEN (j_get item ''id'') = Some i"
      "usable_string MAX_NAME_LEN (j_get item ''name'') = Some nm" "platform_index_by_id ps i = None"
      "load_ss_id i (j_get item ''ss_id'') = Inr ss" "load_dir i (j_get item ''libretro_dir'') = Inr d"
      "load_aliases i (j_get item ''aliases'') = Inr al"
      "p = \<lparr>p_id = i, p_name = nm, p_ss_id = ss, p_dir = d, p_aliases = al\<rparr>"
    using assms unfolding load_platform_def by (auto split: if_splits option.splits sum.splits)
  then show ?thesis
    using usable_string_Some [OF l(1)] usable_string_Some [OF l(2)] load_ss_id_ok [OF l(4)] load_aliases_ok [OF l(6)]
      load_dir_ok [of i "j_get item ''libretro_dir''"]
    by (auto simp: platform_ok_def platform_index_None)
qed

lemma load_platform_list_ok:
  assumes "load_platform_list items ps = Inr ps'" "\<forall>p \<in> set ps. platform_ok p" "distinct (map p_id ps)"
  shows "(\<forall>p \<in> set ps'. platform_ok p) \<and> distinct (map p_id ps') \<and> length ps' = length ps + length items"
  using assms
proof (induction items ps rule: load_platform_list.induct)
  case (2 item items ps)
  obtain p where p: "load_platform ps item = Inr p" using "2.prems"(1) by (auto split: sum.splits)
  then show ?case using "2.IH" [OF p] "2.prems" load_platform_ok [OF p] by auto
qed simp

lemma load_default_list_ok:
  "load_default_list ps l = Inr ds \<Longrightarrow> map fst ds = map fst l \<and> (\<forall>(t, n) \<in> set ds. tag_ok t \<and> n < length ps)"
proof (induction l arbitrary: ds)
  case (Cons x l)
  obtain d where d: "load_default ps x = Inr d" using Cons.prems by (auto split: sum.splits)
  have "fst d = fst x \<and> tag_ok (fst d) \<and> snd d < length ps"
    using d by (auto simp: load_default_def tag_ok_def dest: platform_index_Some split: if_splits json.splits option.splits)
  then show ?case using Cons d by (cases "load_default_list ps l") auto
qed simp

lemma candidate_list_ok: "candidate_list ps tag l = Inr ns \<Longrightarrow> length ns = length l \<and> (\<forall>n \<in> set ns. n < length ps)"
proof (induction l arbitrary: ns)
  case (Cons e l)
  then show ?case
    by (cases "candidate_list ps tag l") (auto dest: platform_index_Some split: json.splits option.splits)
qed simp

lemma load_candidate_list_ok:
  "load_candidate_list ps l = Inr cs \<Longrightarrow> map fst cs = map fst l
    \<and> (\<forall>(t, ns) \<in> set cs. tag_ok t \<and> ns \<noteq> [] \<and> (\<forall>n \<in> set ns. n < length ps))"
proof (induction ps l arbitrary: cs rule: load_candidate_list.induct)
  case (2 ps tag v xs)
  obtain l ns where l: "v = J_Arr l" "l \<noteq> []" "candidate_list ps tag l = Inr ns" "tag_ok tag"
    using "2.prems" by (auto simp: tag_ok_def split: if_splits json.splits sum.splits)
  obtain r where r: "load_candidate_list ps xs = Inr r" "cs = (tag, ns) # r"
    using "2.prems" l by (cases "load_candidate_list ps xs") (auto simp: tag_ok_def)
  have "\<not> (tag = [] \<or> MAX_TAG_LEN < length tag)" using l(4) by (simp add: tag_ok_def)
  from "2.IH" [OF this l(1) l(2) l(3) r(1)] show ?case using l r candidate_list_ok [OF l(3)] by auto
qed simp

lemma load_root_inv:
  assumes "load_root doc = Inr c"
  shows "cat_inv c"
proof -
  obtain ps ds cs where l: "load_platforms doc = Inr ps" "load_tag_defaults doc ps = Inr ds" "load_tag_candidates doc ps = Inr cs"
      "c = \<lparr>c_platforms = ps, c_defaults = ds, c_candidates = cs\<rparr>"
    using assms by (auto simp: load_root_def split: if_splits sum.splits)
  have "ps \<noteq> [] \<and> (\<forall>p \<in> set ps. platform_ok p) \<and> distinct (map p_id ps)"
    using l(1) by (auto simp: load_platforms_def dest!: load_platform_list_ok split: option.splits json.splits if_splits)
  moreover have "distinct (map fst ds) \<and> (\<forall>(t, n) \<in> set ds. tag_ok t \<and> n < length ps)"
    using l(2) by (auto simp: load_tag_defaults_def has_duplicate_keys_def Let_def dest!: load_default_list_ok split: option.splits json.splits if_splits)
  moreover have "distinct (map fst cs) \<and> (\<forall>(t, ns) \<in> set cs. tag_ok t \<and> ns \<noteq> [] \<and> (\<forall>n \<in> set ns. n < length ps))"
    using l(3) by (auto simp: load_tag_candidates_def has_duplicate_keys_def Let_def dest!: load_candidate_list_ok split: option.splits json.splits if_splits)
  ultimately show ?thesis using l(4) by (simp add: cat_inv_def)
qed

section \<open>Well-formed mappings\<close>

definition tag_ov_ok :: "catalog \<Rightarrow> string \<times> string option \<Rightarrow> bool" where
  "tag_ov_ok c t \<longleftrightarrow> tag_ok (fst t) \<and> (\<exists>i. snd t = Some i \<and> known c i)"

definition folder_ov_ok :: "catalog \<Rightarrow> folder_ov \<Rightarrow> bool" where
  "folder_ov_ok c f \<longleftrightarrow> key_is_safe (fo_key f) \<and> length (fo_key f) < MAX_KEY_LEN
     \<and> (\<forall>i. fo_platform f = Some i \<longrightarrow> known c i)"

definition ov_inv :: "catalog \<Rightarrow> override_set \<Rightarrow> bool" where
  "ov_inv c o1 \<longleftrightarrow> distinct (map fst (os_tags o1)) \<and> (\<forall>t \<in> set (os_tags o1). tag_ov_ok c t)
     \<and> distinct (map fo_key (os_folders o1)) \<and> (\<forall>f \<in> set (os_folders o1). folder_ov_ok c f \<and> (fo_platform f \<noteq> None \<or> fo_hidden f))"

lemma slot_update_keys:
  assumes "\<And>f. fo_key (g f) = fo_key f"
  shows "map fo_key (slot_update key g fs) = (if key \<in> fo_key ` set fs then map fo_key fs else map fo_key fs @ [key])"
  using assms by (induction fs) auto

lemma slot_update_members:
  assumes "x \<in> set (slot_update key g fs)"
  shows "x \<in> set fs \<or> (\<exists>f. x = g f \<and> fo_key f = key \<and> (f \<in> set fs \<or> f = \<lparr>fo_key = key, fo_platform = None, fo_hidden = False\<rparr>))"
  using assms by (induction fs) (auto split: if_splits)

lemma slot_update_find:
  assumes "\<And>f. fo_key (g f) = fo_key f"
  shows "find (\<lambda>f. fo_key f = k) (slot_update key g fs) =
    (if k = key then Some (g (case find (\<lambda>f. fo_key f = key) fs of Some f \<Rightarrow> f
                              | None \<Rightarrow> \<lparr>fo_key = key, fo_platform = None, fo_hidden = False\<rparr>))
     else find (\<lambda>f. fo_key f = k) fs)"
  using assms by (induction fs) auto

lemma tag_update_keys:
  "map fst (tag_update tag p ts) = (if tag \<in> fst ` set ts \<or> p = None then map fst ts else map fst ts @ [tag])"
  by (induction ts) (auto split: option.splits)

lemma tag_update_members: "x \<in> set (tag_update tag p ts) \<Longrightarrow> x \<in> set ts \<or> x = (tag, p)"
  by (induction ts) (auto split: if_splits option.splits)

lemma tag_update_lookup:
  "map_of (tag_update tag p ts) k = (if k = tag \<and> (p \<noteq> None \<or> map_of ts tag \<noteq> None) then Some p else map_of ts k)"
  by (induction ts) (auto split: option.splits)

text \<open>A changed slot keeps the invariant once it is compacted.\<close>

lemma ov_inv_folder:
  assumes "ov_inv c o1" and "key_is_safe key" "length key < MAX_KEY_LEN"
    and g: "\<And>f. fo_key (g f) = fo_key f" "\<And>f i. fo_platform (g f) = Some i \<Longrightarrow> fo_platform f = Some i \<or> known c i"
  shows "ov_inv c (ov_compact (ov_folder_slot key g o1))"
proof -
  have "distinct (map fo_key (slot_update key g (os_folders o1)))"
    using assms(1) by (auto simp: slot_update_keys [OF g(1)] ov_inv_def)
  moreover have "folder_ov_ok c x" if x: "x \<in> set (slot_update key g (os_folders o1))" for x
  proof -
    have ok: "folder_ov_ok c f" if "f \<in> set (os_folders o1)" for f using that assms(1) by (simp add: ov_inv_def)
    have empty: "folder_ov_ok c \<lparr>fo_key = key, fo_platform = None, fo_hidden = False\<rparr>"
      using assms(2,3) by (simp add: folder_ov_ok_def)
    have changed: "folder_ov_ok c (g f)" if "folder_ov_ok c f" for f
      using that g(2) [of f] unfolding folder_ov_ok_def g(1) by metis
    from slot_update_members [OF x] show ?thesis
    proof (elim disjE exE conjE)
      fix f
      assume "x = g f" "f \<in> set (os_folders o1)"
      then show ?thesis using changed [OF ok] by simp
    next
      fix f
      assume "x = g f" "f = \<lparr>fo_key = key, fo_platform = None, fo_hidden = False\<rparr>"
      then show ?thesis using changed [OF empty] by simp
    qed (rule ok)
  qed
  moreover have "filter (\<lambda>t. snd t \<noteq> None) (os_tags o1) = os_tags o1"
    using assms(1) by (auto simp: ov_inv_def tag_ov_ok_def filter_id_conv)
  ultimately show ?thesis
    using assms(1) by (auto simp: ov_inv_def ov_compact_def ov_folder_slot_def distinct_map_filter)
qed

lemma ov_inv_tag:
  assumes "ov_inv c o1" and "tag_ok tag" and "\<And>i. p = Some i \<Longrightarrow> known c i"
  shows "ov_inv c (ov_compact (o1\<lparr>os_tags := tag_update tag p (os_tags o1)\<rparr>))"
proof -
  have "distinct (map fst (tag_update tag p (os_tags o1)))"
    using assms(1) by (auto simp: tag_update_keys ov_inv_def)
  moreover have "tag_ov_ok c x" if "x \<in> set (tag_update tag p (os_tags o1))" "snd x \<noteq> None" for x
    using tag_update_members [OF that(1)] that(2) assms by (auto simp: ov_inv_def tag_ov_ok_def)
  moreover have "filter (\<lambda>f. fo_platform f \<noteq> None \<or> fo_hidden f) (os_folders o1) = os_folders o1"
    using assms(1) by (auto simp: ov_inv_def filter_id_conv)
  ultimately show ?thesis using assms(1) by (auto simp: ov_inv_def ov_compact_def distinct_map_filter)
qed

section \<open>Loading keeps the invariant\<close>

text \<open>The part of the state that loading does not touch, and the mappings it builds.\<close>

definition load_inv :: "sys \<Rightarrow> sys \<Rightarrow> bool" where
  "load_inv s0 s \<longleftrightarrow> sy_cat s = sy_cat s0 \<and> sy_file s = sy_file s0 \<and> sy_rejected s = sy_rejected s0 \<and> sy_init s = sy_init s0
     \<and> ov_inv (sy_cat s0) (sy_ov s)"

lemma warn_same [simp]: "sy_ov (warn w s) = sy_ov s" "sy_cat (warn w s) = sy_cat s"
  by (simp_all add: warn_def)

lemma load_inv_warn [simp]: "load_inv s0 (warn w s) = load_inv s0 s"
  by (simp add: load_inv_def warn_def)

lemma load_tags_list:
  assumes "load_inv s0 s" "distinct (map fst l)" "fst ` set l \<inter> fst ` set (os_tags (sy_ov s)) = {}"
  shows "load_inv s0 (foldl load_tag_ov s l) \<and> os_folders (sy_ov (foldl load_tag_ov s l)) = os_folders (sy_ov s)"
  using assms
proof (induction l arbitrary: s)
  case (Cons x l)
  consider (bad) w where "load_tag_ov s x = warn w s"
    | (good) i where "known (sy_cat s) i" "tag_ok (fst x)"
        "load_tag_ov s x = s\<lparr>sy_ov := (sy_ov s)\<lparr>os_tags := os_tags (sy_ov s) @ [(fst x, Some i)]\<rparr>\<rparr>"
  proof (cases "known_str (sy_cat s) (snd x)")
    case None
    then show thesis by (intro bad) (simp add: load_tag_ov_def)
  next
    case (Some i)
    then have "known (sy_cat s) i" by (auto simp: known_str_def split: json.splits if_splits)
    then show thesis using Some by (cases "tag_ok (fst x)") (auto simp: load_tag_ov_def tag_ok_def intro: bad good)
  qed
  then show ?case
  proof cases
    case bad
    then show ?thesis using Cons.IH [of "warn w s"] Cons.prems by simp
  next
    case good
    let ?s = "load_tag_ov s x"
    have "load_inv s0 ?s" using good Cons.prems by (auto simp: load_inv_def ov_inv_def tag_ov_ok_def)
    moreover have "fst ` set l \<inter> fst ` set (os_tags (sy_ov ?s)) = {}" using good Cons.prems by auto
    ultimately have "load_inv s0 (foldl load_tag_ov ?s l) \<and> os_folders (sy_ov (foldl load_tag_ov ?s l)) = os_folders (sy_ov ?s)"
      using Cons.prems(2) by (intro Cons.IH) auto
    moreover have "os_folders (sy_ov ?s) = os_folders (sy_ov s)" using good by simp
    ultimately show ?thesis by simp
  qed
qed simp

text \<open>One folder entry: what is kept of it.\<close>

definition folder_entry :: "catalog \<Rightarrow> string \<times> json \<Rightarrow> folder_ov option" where
  "folder_entry c item =
     (if \<not> key_is_safe (fst item) \<or> length (fst item) \<ge> MAX_KEY_LEN \<or> \<not> j_is_obj (snd item) \<or> has_duplicate_keys (snd item)
      then None
      else let v = j_get (snd item) ''platform'';
               pid = (if j_present v then known_str c (the v) else None);
               h = (j_get (snd item) ''hidden'' = Some (J_Bool True))
           in if pid = None \<and> \<not> h then None else Some \<lparr>fo_key = fst item, fo_platform = pid, fo_hidden = h\<rparr>)"

lemma known_str_known: "known_str c v = Some i \<Longrightarrow> known c i"
  by (auto simp: known_str_def split: json.splits if_splits)

lemma folder_entry_ok:
  "folder_entry c item = Some f \<Longrightarrow> folder_ov_ok c f \<and> fo_key f = fst item \<and> (fo_platform f \<noteq> None \<or> fo_hidden f)"
  by (auto simp: folder_entry_def Let_def folder_ov_ok_def dest: known_str_known split: if_splits)

lemma slot_update_new: "key \<notin> fo_key ` set fs \<Longrightarrow> slot_update key g fs = fs @ [g \<lparr>fo_key = key, fo_platform = None, fo_hidden = False\<rparr>]"
  by (induction fs) auto

definition warned :: "sys \<Rightarrow> sys \<Rightarrow> bool" where
  "warned s s' \<longleftrightarrow> sy_cat s' = sy_cat s \<and> sy_ov s' = sy_ov s \<and> sy_init s' = sy_init s \<and> sy_error s' = sy_error s
     \<and> sy_file s' = sy_file s \<and> sy_rejected s' = sy_rejected s"

lemma warned_refl [simp]: "warned s s" and warned_warn [simp]: "warned s (warn w s)"
  and warned_warn2 [simp]: "warned s (warn v (warn w s))"
  by (simp_all add: warned_def warn_def)

lemma load_folder_step:
  assumes "fst item \<notin> fo_key ` set (os_folders (sy_ov s))"
  shows "\<exists>s'. warned s s' \<and> load_folder_ov s item =
    (case folder_entry (sy_cat s) item of None \<Rightarrow> s'
     | Some f \<Rightarrow> s'\<lparr>sy_ov := (sy_ov s)\<lparr>os_folders := os_folders (sy_ov s) @ [f]\<rparr>\<rparr>)"
proof (cases "\<not> key_is_safe (fst item) \<or> length (fst item) \<ge> MAX_KEY_LEN \<or> \<not> j_is_obj (snd item) \<or> has_duplicate_keys (snd item)")
  case True
  then show ?thesis by (intro exI [of _ "warn (W_Folder (fst item)) s"]) (auto simp: load_folder_ov_def folder_entry_def)
next
  case False
  let ?v = "j_get (snd item) ''platform''" and ?h = "j_get (snd item) ''hidden''"
  define s1 where "s1 = (if ?h \<noteq> None \<and> (\<forall>b \<in> {True, False}. ?h \<noteq> Some (J_Bool b)) then warn (W_Hidden (fst item)) s else s)"
  define pid where "pid = (if j_present ?v then known_str (sy_cat s) (the ?v) else None)"
  define s2 where "s2 = (if j_present ?v \<and> pid = None then warn (W_FolderPlatform (fst item)) s1 else s1)"
  have c: "sy_cat s1 = sy_cat s" by (simp add: s1_def warn_def)
  have w: "warned s s2" by (simp add: s1_def s2_def)
  have l: "load_folder_ov s item = (if pid = None \<and> ?h \<noteq> Some (J_Bool True) then s2
      else s2\<lparr>sy_ov := ov_folder_slot (fst item)
        (\<lambda>f. f\<lparr>fo_hidden := (?h = Some (J_Bool True)), fo_platform := (if pid \<noteq> None then pid else fo_platform f)\<rparr>) (sy_ov s2)\<rparr>)"
    using False unfolding load_folder_ov_def Let_def s1_def [symmetric] c pid_def [symmetric] s2_def [symmetric] by simp
  have e: "folder_entry (sy_cat s) item = (if pid = None \<and> ?h \<noteq> Some (J_Bool True) then None
      else Some \<lparr>fo_key = fst item, fo_platform = pid, fo_hidden = (?h = Some (J_Bool True))\<rparr>)"
    using False unfolding folder_entry_def Let_def pid_def [symmetric] by simp
  have o: "sy_ov s2 = sy_ov s" using w by (simp add: warned_def)
  show ?thesis
    using w assms unfolding l e by (intro exI [of _ s2]) (auto simp: o ov_folder_slot_def slot_update_new)
qed

lemma load_folders_list:
  assumes "load_inv s0 s" "distinct (map fst l)" "fst ` set l \<inter> fo_key ` set (os_folders (sy_ov s)) = {}"
  shows "load_inv s0 (foldl load_folder_ov s l)"
  using assms
proof (induction l arbitrary: s)
  case (Cons x l)
  have new: "fst x \<notin> fo_key ` set (os_folders (sy_ov s))" using Cons.prems(3) by auto
  obtain s' where w: "warned s s'" and l: "load_folder_ov s x = (case folder_entry (sy_cat s) x of None \<Rightarrow> s'
     | Some f \<Rightarrow> s'\<lparr>sy_ov := (sy_ov s)\<lparr>os_folders := os_folders (sy_ov s) @ [f]\<rparr>\<rparr>)"
    using load_folder_step [OF new] by blast
  have li: "load_inv s0 s'" using Cons.prems(1) w by (simp add: load_inv_def warned_def)
  have "load_inv s0 (load_folder_ov s x) \<and> fst ` set l \<inter> fo_key ` set (os_folders (sy_ov (load_folder_ov s x))) = {}"
  proof (cases "folder_entry (sy_cat s) x")
    case None
    then show ?thesis using l li w Cons.prems(3) by (auto simp: warned_def)
  next
    case (Some f)
    note fe = folder_entry_ok [OF Some]
    have "sy_cat s = sy_cat s0" using Cons.prems(1) by (simp add: load_inv_def)
    then have "load_inv s0 (load_folder_ov s x)"
      using l Some li Cons.prems(1) new fe w by (auto simp: load_inv_def ov_inv_def warned_def)
    then show ?thesis using l Some Cons.prems fe by auto
  qed
  then show ?case using Cons.IH Cons.prems(2) by simp
qed simp

lemma load_overrides_inv:
  assumes "sy_ov s = no_overrides"
  shows "load_inv s (load_overrides parse readable s)"
proof -
  have l0: "load_inv s s" using assms by (simp add: load_inv_def ov_inv_def no_overrides_def)
  have lt: "load_inv s (load_tags v s) \<and> os_folders (sy_ov (load_tags v s)) = []" for v
    using l0 assms load_tags_list [of s s]
    by (auto simp: load_tags_def has_duplicate_keys_def no_overrides_def warn_def load_inv_def split: option.splits json.splits)
  have "load_inv s (load_folders w (load_tags v s))" for v w
    using lt [of v] load_folders_list [of s "load_tags v s"]
    by (auto simp: load_folders_def has_duplicate_keys_def split: option.splits json.splits)
  then show ?thesis using l0 by (auto simp: load_overrides_def split: option.splits)
qed

end
