(* ===== verification/Systems_Use.thy ===== *)
theory Systems_Use
  imports Systems_Props
begin

text \<open>
  What the mappings do for a user: the abstract mapping that every operation refines, the restart of
  the scraper on the saved file, failures, and the suggestions.
\<close>

section \<open>Operations as steps\<close>

datatype sys_op =
    Op_Init cat_io bool
  | Op_SetTag persist_io string "string option"
  | Op_SetFolder persist_io string "string option"
  | Op_SetHidden persist_io string bool
  | Op_ClearFolder persist_io string
  | Op_ClearWarning
  | Op_Shutdown

fun sys_op_run :: "path_env \<Rightarrow> (string \<Rightarrow> json option) \<Rightarrow> (json \<Rightarrow> string) \<Rightarrow> nat \<Rightarrow> sys \<Rightarrow> sys_op \<Rightarrow> bool \<times> sys" where
  "sys_op_run E parse print n s (Op_Init io readable) = systems_init parse io readable s"
| "sys_op_run E parse print n s (Op_SetTag io tag p) = systems_set_tag print n io tag p s"
| "sys_op_run E parse print n s (Op_SetFolder io path p) = systems_set_folder_platform E print n io path p s"
| "sys_op_run E parse print n s (Op_SetHidden io path h) = systems_set_folder_hidden E print n io path h s"
| "sys_op_run E parse print n s (Op_ClearFolder io path) = systems_clear_folder E print n io path s"
| "sys_op_run E parse print n s Op_ClearWarning = (True, systems_clear_warning s)"
| "sys_op_run E parse print n s Op_Shutdown = (True, systems_shutdown s)"

definition sys_step :: "path_env \<Rightarrow> (string \<Rightarrow> json option) \<Rightarrow> (json \<Rightarrow> string) \<Rightarrow> nat \<Rightarrow> sys \<Rightarrow> sys_op \<Rightarrow> sys" where
  "sys_step E parse print n s op = snd (sys_op_run E parse print n s op)"

definition sys_start :: "string option \<Rightarrow> sys" where
  "sys_start f = \<lparr>sy_cat = no_catalog, sy_ov = no_overrides, sy_init = False, sy_error = None, sy_warning = None,
     sy_backup = False, sy_file = f, sy_rejected = None\<rparr>"

definition sys_inv :: "sys \<Rightarrow> bool" where
  "sys_inv s \<longleftrightarrow> (if sy_init s then cat_inv (sy_cat s) \<and> ov_inv (sy_cat s) (sy_ov s)
                  else sy_cat s = no_catalog \<and> sy_ov s = no_overrides)"

section \<open>Saving\<close>

lemma keep_rejected_same:
  assumes "keep_rejected n io s = (ok, s')"
  shows "sy_cat s' = sy_cat s" "sy_ov s' = sy_ov s" "sy_init s' = sy_init s" "sy_file s' = sy_file s"
    "ok \<Longrightarrow> sy_backup s \<Longrightarrow> sy_file s \<noteq> None \<Longrightarrow> sy_rejected s' = sy_file s" "\<not> ok \<Longrightarrow> sy_error s' = Some E_Backup"
    "ok \<Longrightarrow> sy_error s' = sy_error s"
  using assms
  by (auto simp: keep_rejected_def copy_file_def set_error_def split: if_splits copy_result.splits prod.splits)

text \<open>A commit publishes the compacted set and its file, or changes neither.\<close>

lemma commit_result:
  assumes "commit print n io p s = (ok, s')"
  shows "sy_cat s' = sy_cat s" "sy_init s' = sy_init s"
    "ok \<Longrightarrow> sy_ov s' = ov_compact p \<and> sy_file s' = Some (print (ov_to_json (ov_compact p)))"
    "\<not> ok \<Longrightarrow> sy_ov s' = sy_ov s \<and> sy_file s' = sy_file s \<and> sy_error s' \<noteq> None"
    "ok \<Longrightarrow> sy_backup s \<Longrightarrow> sy_file s \<noteq> None \<Longrightarrow> sy_rejected s' = sy_file s"
proof -
  obtain k t where k: "keep_rejected n io s = (k, t)" by (cases "keep_rejected n io s")
  note kr = keep_rejected_same [OF k]
  show "sy_cat s' = sy_cat s" "sy_init s' = sy_init s"
    "ok \<Longrightarrow> sy_ov s' = ov_compact p \<and> sy_file s' = Some (print (ov_to_json (ov_compact p)))"
    "\<not> ok \<Longrightarrow> sy_ov s' = sy_ov s \<and> sy_file s' = sy_file s \<and> sy_error s' \<noteq> None"
    "ok \<Longrightarrow> sy_backup s \<Longrightarrow> sy_file s \<noteq> None \<Longrightarrow> sy_rejected s' = sy_file s"
    using assms kr by (auto simp: commit_def ov_persist_def k set_error_def Let_def split: if_splits)
qed

lemma folder_key_ok:
  assumes "systems_folder_key E path MAX_KEY_LEN = Some key"
  shows "key_is_safe key" "length key < MAX_KEY_LEN"
proof -
  have fk: "zlyme_folder_key E (Some path) MAX_KEY_LEN = Some key" "key_is_safe key"
    using assms by (auto simp: systems_folder_key_def split: option.splits if_splits)
  show "key_is_safe key" by (rule fk(2))
  have "folder_key_loop E p MAX_KEY_LEN roots = Some key \<Longrightarrow> length key < MAX_KEY_LEN" for p roots
    by (induction roots) (auto simp: Let_def fit_def split: option.splits if_splits)
  then show "length key < MAX_KEY_LEN" using fk(1) by (auto simp: zlyme_folder_key_def)
qed

text \<open>The set a mutation proposes, when it gets as far as a commit.\<close>

lemma set_folder_cases:
  assumes "set_folder E print n io path p sp h sh s = (ok, s')"
  obtains (refused) e where "\<not> ok" "s' = set_error e s"
  | (commit) key where "sy_init s" "systems_folder_key E path MAX_KEY_LEN = Some key" "sp \<Longrightarrow> \<forall>i. p = Some i \<longrightarrow> known (sy_cat s) i"
      "commit print n io (ov_folder_slot key (\<lambda>f. f\<lparr>fo_platform := (if sp then p else fo_platform f),
         fo_hidden := (if sh then h else fo_hidden f)\<rparr>) (sy_ov s)) s = (ok, s')"
  using assms unfolding set_folder_def
  by (cases p) (auto split: if_splits option.splits)

lemma set_tag_cases:
  assumes "systems_set_tag print n io tag p s = (ok, s')"
  obtains (refused) e where "\<not> ok" "s' = set_error e s"
  | (commit) "sy_init s" "tag_ok tag" "\<forall>i. p = Some i \<longrightarrow> known (sy_cat s) i"
      "commit print n io ((sy_ov s)\<lparr>os_tags := tag_update tag p (os_tags (sy_ov s))\<rparr>) s = (ok, s')"
  using assms unfolding systems_set_tag_def tag_ok_def
  by (cases p) (auto split: if_splits)

lemma sys_inv_error [simp]: "sys_inv (set_error e s) = sys_inv s"
  by (simp add: sys_inv_def set_error_def)

lemma commit_inv:
  assumes "commit print n io p s = (ok, s')" "sys_inv s" "sy_init s" "ov_inv (sy_cat s) (ov_compact p)"
  shows "sys_inv s'"
  using commit_result [OF assms(1)] assms(2-4) by (cases ok) (auto simp: sys_inv_def)

lemma set_folder_inv:
  assumes "set_folder E print n io path p sp h sh s = (ok, s')" "sys_inv s"
  shows "sys_inv s'"
  using assms(1)
proof (cases rule: set_folder_cases)
  case refused
  then show ?thesis using assms(2) by auto
next
  case (commit key)
  have "ov_inv (sy_cat s) (sy_ov s)" using assms(2) commit(1) by (simp add: sys_inv_def)
  then have "ov_inv (sy_cat s) (ov_compact (ov_folder_slot key (\<lambda>f. f\<lparr>fo_platform := (if sp then p else fo_platform f),
         fo_hidden := (if sh then h else fo_hidden f)\<rparr>) (sy_ov s)))"
    by (rule ov_inv_folder) (use folder_key_ok [OF commit(2)] commit(3) in \<open>auto split: if_splits\<close>)
  then show ?thesis by (rule commit_inv [OF commit(4) assms(2) commit(1)])
qed

lemma set_tag_inv:
  assumes "systems_set_tag print n io tag p s = (ok, s')" "sys_inv s"
  shows "sys_inv s'"
  using assms(1)
proof (cases rule: set_tag_cases)
  case refused
  then show ?thesis using assms(2) by auto
next
  case commit
  have "ov_inv (sy_cat s) (sy_ov s)" using assms(2) commit(1) by (simp add: sys_inv_def)
  then have "ov_inv (sy_cat s) (ov_compact ((sy_ov s)\<lparr>os_tags := tag_update tag p (os_tags (sy_ov s))\<rparr>))"
    using commit by (intro ov_inv_tag) auto
  then show ?thesis by (rule commit_inv [OF commit(4) assms(2) commit(1)])
qed

lemma init_inv:
  assumes "sys_inv s"
  shows "sys_inv (snd (systems_init parse io readable s))"
proof (cases "sy_init s \<or> (\<exists>e. load_catalog parse io = Inl e)")
  case True
  then show ?thesis using assms by (auto simp: systems_init_def sys_inv_def set_error_def)
next
  case False
  then obtain c where c: "load_catalog parse io = Inr c" "\<not> sy_init s" by (cases "load_catalog parse io") auto
  then have ci: "cat_inv c"
    by (auto simp: load_catalog_def dest: load_root_inv split: sum.splits option.splits)
  let ?s = "s\<lparr>sy_error := None, sy_warning := None, sy_backup := False, sy_cat := c\<rparr>"
  have "sy_ov ?s = no_overrides" using assms c(2) by (simp add: sys_inv_def)
  from load_overrides_inv [OF this, of parse readable]
  show ?thesis using c ci by (simp add: systems_init_def load_inv_def sys_inv_def)
qed

lemma sys_step_inv: "sys_inv s \<Longrightarrow> sys_inv (sys_step E parse print n s op)"
proof (cases op)
  case (Op_Init io readable)
  then show "sys_inv s \<Longrightarrow> ?thesis" by (simp add: sys_step_def init_inv)
next
  case (Op_SetTag io tag p)
  then show "sys_inv s \<Longrightarrow> ?thesis"
    using set_tag_inv [of print n io tag p s] by (simp add: sys_step_def) (metis prod.collapse)
next
  case (Op_SetFolder io path p)
  then show "sys_inv s \<Longrightarrow> ?thesis"
    using set_folder_inv [of E print n io path] by (simp add: sys_step_def systems_set_folder_platform_def) (metis prod.collapse)
next
  case (Op_SetHidden io path h)
  then show "sys_inv s \<Longrightarrow> ?thesis"
    using set_folder_inv [of E print n io path] by (simp add: sys_step_def systems_set_folder_hidden_def) (metis prod.collapse)
next
  case (Op_ClearFolder io path)
  then show "sys_inv s \<Longrightarrow> ?thesis"
    using set_folder_inv [of E print n io path] by (simp add: sys_step_def systems_clear_folder_def) (metis prod.collapse)
qed (auto simp: sys_step_def sys_inv_def systems_clear_warning_def systems_shutdown_def)

interpretation sy: transition_system "sys_step E parse print n" "sys_start f" sys_inv
  for E parse print n f
  by unfold_locales (simp_all add: sys_step_inv, simp add: sys_inv_def sys_start_def)

section \<open>The abstract mapping\<close>

text \<open>What the saved choices mean: for a folder key the chosen platform and whether it is hidden, and
  for a suffix the chosen platform.\<close>

definition folder_choice :: "override_set \<Rightarrow> string \<Rightarrow> string option \<times> bool" where
  "folder_choice o1 k = (case ov_find_folder o1 k of None \<Rightarrow> (None, False) | Some f \<Rightarrow> (fo_platform f, fo_hidden f))"

lemma find_filter_key:
  assumes "distinct (map fo_key fs)"
  shows "find (\<lambda>f. fo_key f = k) (filter P fs) =
    (case find (\<lambda>f. fo_key f = k) fs of None \<Rightarrow> None | Some f \<Rightarrow> if P f then Some f else None)"
  using assms
proof (induction fs)
  case (Cons f fs)
  show ?case
  proof (cases "fo_key f = k")
    case True
    then have "find (\<lambda>f. fo_key f = k) (filter P fs) = None" using Cons.prems by (auto simp: find_None_iff image_iff)
    then show ?thesis using True by simp
  qed (use Cons in simp)
qed simp

lemma folder_choice_compact:
  assumes "distinct (map fo_key (os_folders o1))"
  shows "folder_choice (ov_compact o1) = folder_choice o1"
  by (rule ext) (auto simp: folder_choice_def ov_find_folder_def ov_compact_def find_filter_key [OF assms] split: option.splits)

lemma map_of_filter_some:
  assumes "distinct (map fst ts)"
  shows "(case map_of (filter (\<lambda>t. snd t \<noteq> None) ts) k of None \<Rightarrow> None | Some p \<Rightarrow> p)
    = (case map_of ts k of None \<Rightarrow> None | Some p \<Rightarrow> p)"
  using assms
proof (induction ts)
  case (Cons t ts)
  show ?case
  proof (cases "fst t = k")
    case True
    then have "k \<notin> fst ` set (filter (\<lambda>t. snd t \<noteq> None) ts)" using Cons.prems by auto
    then have "map_of (filter (\<lambda>t. snd t \<noteq> None) ts) k = None" by (simp add: map_of_eq_None_iff)
    then show ?thesis using True by (cases t) auto
  qed (use Cons in \<open>cases t; auto\<close>)
qed simp

lemma find_tag_compact:
  assumes "distinct (map fst (os_tags o1))"
  shows "ov_find_tag (ov_compact o1) = ov_find_tag o1"
  unfolding ov_find_tag_def ov_compact_def override_set.simps map_of_filter_some [OF assms] by (rule refl)

text \<open>A folder is resolved through these two functions only.\<close>

definition choice_at :: "path_env \<Rightarrow> override_set \<Rightarrow> string \<Rightarrow> string option \<times> bool" where
  "choice_at E o1 path =
     (case (if path \<noteq> [] then systems_folder_key E path MAX_KEY_LEN else None) of
        None \<Rightarrow> (None, False) | Some k \<Rightarrow> folder_choice o1 k)"

lemma resolve_by_choice:
  assumes "sy_init s"
  shows "systems_resolve E s path tag =
    (case index_of_id s (fst (choice_at E (sy_ov s) path)) of
       Some n \<Rightarrow> \<lparr>m_platform = Some n, m_source = MAPPING_USER_FOLDER, m_hidden = snd (choice_at E (sy_ov s) path)\<rparr>
     | None \<Rightarrow> resolve_tag s tag (snd (choice_at E (sy_ov s) path)))"
  using assms
  by (auto simp: systems_resolve_def choice_at_def folder_choice_def index_of_id_def Let_def split: option.splits)

text \<open>The abstract operation on the folder choices.\<close>

fun spec_folder :: "sys_op \<Rightarrow> string option \<times> bool \<Rightarrow> string option \<times> bool" where
  "spec_folder (Op_SetFolder io path p) c = (p, snd c)"
| "spec_folder (Op_SetHidden io path h) c = (fst c, h)"
| "spec_folder (Op_ClearFolder io path) c = (None, False)"
| "spec_folder op c = c"

fun spec_path :: "sys_op \<Rightarrow> string option" where
  "spec_path (Op_SetFolder io path p) = Some path"
| "spec_path (Op_SetHidden io path h) = Some path"
| "spec_path (Op_ClearFolder io path) = Some path"
| "spec_path op = None"

lemma set_folder_choice:
  assumes "sys_inv s" "set_folder E print n io path p sp h sh s = (True, s')"
  obtains key where "systems_folder_key E path MAX_KEY_LEN = Some key" "sy_cat s' = sy_cat s" "sy_init s'" "sy_init s"
    "folder_choice (sy_ov s') = (folder_choice (sy_ov s))(key :=
       (if sp then p else fst (folder_choice (sy_ov s) key), if sh then h else snd (folder_choice (sy_ov s) key)))"
    "ov_find_tag (sy_ov s') = ov_find_tag (sy_ov s)"
  using assms(2)
proof (cases rule: set_folder_cases)
  case (commit key)
  let ?g = "\<lambda>f. f\<lparr>fo_platform := (if sp then p else fo_platform f), fo_hidden := (if sh then h else fo_hidden f)\<rparr>"
  let ?o = "ov_folder_slot key ?g (sy_ov s)"
  note cr = commit_result [OF commit(4)]
  have oi: "ov_inv (sy_cat s) (sy_ov s)" using assms(1) commit(1) by (simp add: sys_inv_def)
  have d: "distinct (map fo_key (os_folders ?o))" "distinct (map fst (os_tags ?o))"
    using oi slot_update_keys [of ?g key "os_folders (sy_ov s)"] by (auto simp: ov_folder_slot_def ov_inv_def)
  have "folder_choice ?o k = (if k = key then (if sp then p else fst (folder_choice (sy_ov s) key), if sh then h else snd (folder_choice (sy_ov s) key))
      else folder_choice (sy_ov s) k)" for k
    by (auto simp: folder_choice_def ov_find_folder_def ov_folder_slot_def slot_update_find split: option.splits)
  then have "folder_choice (sy_ov s') = (folder_choice (sy_ov s))(key :=
       (if sp then p else fst (folder_choice (sy_ov s) key), if sh then h else snd (folder_choice (sy_ov s) key)))"
    using cr(3) folder_choice_compact [OF d(1)] by auto
  moreover have "ov_find_tag (sy_ov s') = ov_find_tag (sy_ov s)"
    using cr(3) find_tag_compact [OF d(2)] by (auto simp: ov_find_tag_def ov_folder_slot_def fun_eq_iff)
  ultimately show thesis using that [OF commit(2)] cr commit(1) by simp
qed simp

lemma set_tag_choice:
  assumes "sys_inv s" "systems_set_tag print n io tag p s = (True, s')"
  shows "ov_find_tag (sy_ov s') = (ov_find_tag (sy_ov s))(tag := p) \<and> folder_choice (sy_ov s') = folder_choice (sy_ov s)
    \<and> sy_cat s' = sy_cat s \<and> sy_init s' \<and> sy_init s"
  using assms(2)
proof (cases rule: set_tag_cases)
  case commit
  let ?o = "(sy_ov s)\<lparr>os_tags := tag_update tag p (os_tags (sy_ov s))\<rparr>"
  note cr = commit_result [OF commit(4)]
  have oi: "ov_inv (sy_cat s) (sy_ov s)" using assms(1) commit(1) by (simp add: sys_inv_def)
  have d: "distinct (map fo_key (os_folders ?o))" "distinct (map fst (os_tags ?o))"
    using oi by (auto simp: ov_inv_def tag_update_keys)
  have "ov_find_tag ?o k = (if k = tag then p else ov_find_tag (sy_ov s) k)" for k
    by (auto simp: ov_find_tag_def tag_update_lookup split: option.splits)
  moreover have "folder_choice ?o = folder_choice (sy_ov s)" by (simp add: folder_choice_def ov_find_folder_def fun_eq_iff)
  ultimately show ?thesis
    using cr commit(1) folder_choice_compact [OF d(1)] find_tag_compact [OF d(2)] by auto
qed simp

end
