(* ===== verification/Systems_File.thy ===== *)
theory Systems_File
  imports Systems_Use
begin

text \<open>
  Properties of the scraper's mappings that span the file and the operations: the invariant of every
  run, the restart on a saved file, failures, and the suggestions.
\<close>

section \<open>Reading back a saved file\<close>

lemma load_saved_tags:
  assumes "\<forall>t \<in> set ts. tag_ov_ok (sy_cat s) t"
  shows "foldl load_tag_ov s (map (\<lambda>t. (fst t, J_Str (the (snd t)))) ts)
    = s\<lparr>sy_ov := (sy_ov s)\<lparr>os_tags := os_tags (sy_ov s) @ ts\<rparr>\<rparr>"
  using assms
proof (induction ts arbitrary: s)
  case (Cons t ts)
  obtain i where i: "snd t = Some i" "known (sy_cat s) i" "tag_ok (fst t)" using Cons.prems by (auto simp: tag_ov_ok_def)
  let ?s = "s\<lparr>sy_ov := (sy_ov s)\<lparr>os_tags := os_tags (sy_ov s) @ [t]\<rparr>\<rparr>"
  have "load_tag_ov s (fst t, J_Str (the (snd t))) = ?s"
    using i by (cases t) (auto simp: load_tag_ov_def known_str_def tag_ok_def)
  then show ?case using Cons.IH [of ?s] Cons.prems by simp
qed simp

lemma load_saved_folder:
  assumes "folder_ov_ok (sy_cat s) f" "fo_platform f \<noteq> None \<or> fo_hidden f" "fo_key f \<notin> fo_key ` set (os_folders (sy_ov s))"
  shows "load_folder_ov s (fo_key f, folder_json f) = s\<lparr>sy_ov := (sy_ov s)\<lparr>os_folders := os_folders (sy_ov s) @ [f]\<rparr>\<rparr>"
proof -
  have k: "key_is_safe (fo_key f)" "length (fo_key f) < MAX_KEY_LEN" using assms(1) by (auto simp: folder_ov_ok_def)
  have j: "j_is_obj (folder_json f)" "\<not> has_duplicate_keys (folder_json f)"
    by (auto simp: folder_json_def j_is_obj_def has_duplicate_keys_def split: option.splits)
  have p: "j_get (folder_json f) ''platform'' = map_option J_Str (fo_platform f)"
    "j_get (folder_json f) ''hidden'' = (if fo_hidden f then Some (J_Bool True) else None)"
    by (auto simp: j_get_def folder_json_def split: option.splits)
  have kp: "known_str (sy_cat s) (J_Str i) = Some i" if "fo_platform f = Some i" for i
    using assms(1) that by (simp add: folder_ov_ok_def known_str_def)
  have f: "f = \<lparr>fo_key = fo_key f, fo_platform = fo_platform f, fo_hidden = fo_hidden f\<rparr>" by simp
  show ?thesis
    using k j kp assms(2,3) unfolding load_folder_ov_def Let_def fst_conv snd_conv p
    by (cases "fo_platform f"; cases "fo_hidden f") (auto simp: j_present_def ov_folder_slot_def slot_update_new)
qed

lemma load_saved_folders:
  assumes "\<forall>f \<in> set fs. folder_ov_ok (sy_cat s) f \<and> (fo_platform f \<noteq> None \<or> fo_hidden f)"
    "distinct (map fo_key fs)" "fo_key ` set fs \<inter> fo_key ` set (os_folders (sy_ov s)) = {}"
  shows "foldl load_folder_ov s (map (\<lambda>f. (fo_key f, folder_json f)) fs)
    = s\<lparr>sy_ov := (sy_ov s)\<lparr>os_folders := os_folders (sy_ov s) @ fs\<rparr>\<rparr>"
  using assms
proof (induction fs arbitrary: s)
  case (Cons f fs)
  let ?s = "s\<lparr>sy_ov := (sy_ov s)\<lparr>os_folders := os_folders (sy_ov s) @ [f]\<rparr>\<rparr>"
  have "load_folder_ov s (fo_key f, folder_json f) = ?s" using Cons.prems by (intro load_saved_folder) auto
  moreover have "foldl load_folder_ov ?s (map (\<lambda>f. (fo_key f, folder_json f)) fs)
      = ?s\<lparr>sy_ov := (sy_ov ?s)\<lparr>os_folders := os_folders (sy_ov ?s) @ fs\<rparr>\<rparr>"
    using Cons.prems by (intro Cons.IH) auto
  ultimately show ?case by simp
qed simp

lemma load_saved:
  assumes "ov_inv (sy_cat s) o1" "sy_ov s = no_overrides" "sy_file s = Some body" "parse body = Some (ov_to_json o1)"
  shows "load_overrides parse True s = s\<lparr>sy_ov := o1\<rparr>"
proof -
  have g: "j_get (ov_to_json o1) ''tags'' = Some (J_Obj (map (\<lambda>t. (fst t, J_Str (the (snd t)))) (os_tags o1)))"
    "j_get (ov_to_json o1) ''folders'' = Some (J_Obj (map (\<lambda>f. (fo_key f, folder_json f)) (os_folders o1)))"
    "j_get (ov_to_json o1) ''schema'' = Some (J_Num 1)" "j_is_obj (ov_to_json o1)" "\<not> has_duplicate_keys (ov_to_json o1)"
    by (auto simp: ov_to_json_def j_get_def j_is_obj_def has_duplicate_keys_def)
  have d: "distinct (map fst (os_tags o1))" "distinct (map fo_key (os_folders o1))" using assms(1) by (auto simp: ov_inv_def)
  then have nd: "\<not> has_duplicate_keys (J_Obj (map (\<lambda>t. (fst t, J_Str (the (snd t)))) (os_tags o1)))"
    "\<not> has_duplicate_keys (J_Obj (map (\<lambda>f. (fo_key f, folder_json f)) (os_folders o1)))"
    by (auto simp: has_duplicate_keys_def comp_def)
  let ?s = "s\<lparr>sy_ov := (sy_ov s)\<lparr>os_tags := os_tags o1\<rparr>\<rparr>"
  have t: "load_tags (j_get (ov_to_json o1) ''tags'') s = ?s"
    using nd(1) assms(1,2) load_saved_tags [of "os_tags o1" s] by (simp add: load_tags_def g ov_inv_def no_overrides_def)
  have "load_folders (j_get (ov_to_json o1) ''folders'') ?s = s\<lparr>sy_ov := o1\<rparr>"
    using nd(2) assms(1,2) d(2) load_saved_folders [of "os_folders o1" ?s] by (simp add: load_folders_def g ov_inv_def no_overrides_def)
  then show ?thesis using assms(3,4) t g by (simp add: load_overrides_def)
qed

lemma resolve_same:
  assumes "sy_cat t = sy_cat s" "sy_ov t = sy_ov s" "sy_init t = sy_init s"
  shows "systems_resolve E t path tag = systems_resolve E s path tag"
  using assms by (auto simp: systems_resolve_def resolve_tag_def index_of_id_def systems_builtin_tag_def Let_def split: option.splits)

section \<open>Properties\<close>

definition is_change :: "sys_op \<Rightarrow> bool" where
  "is_change op = (case op of Op_SetTag io t p \<Rightarrow> True | Op_SetFolder io q p \<Rightarrow> True | Op_SetHidden io q h \<Rightarrow> True
     | Op_ClearFolder io q \<Rightarrow> True | _ \<Rightarrow> False)"

text \<open>A change that gets as far as a commit, or is refused.\<close>

lemma change_cases:
  assumes "is_change op" "sys_op_run E parse print n s op = (ok, s')"
  obtains (refused) e where "\<not> ok" "s' = set_error e s"
  | (commit) io p where "sy_init s" "commit print n io p s = (ok, s')"
proof (cases "\<exists>path. spec_path op = Some path")
  case True
  then obtain io path p sp h sh where "set_folder E print n io path p sp h sh s = (ok, s')"
    using assms(2) by (cases op) (auto simp: systems_set_folder_platform_def systems_set_folder_hidden_def systems_clear_folder_def)
  then show thesis by (cases rule: set_folder_cases) (use that in blast)+
next
  case False
  then obtain io tag p where "systems_set_tag print n io tag p s = (ok, s')"
    using assms by (cases op) (auto simp: is_change_def)
  then show thesis by (cases rule: set_tag_cases) (use that in blast)+
qed

section \<open>A sample catalogue\<close>

definition sample_doc :: json where
  "sample_doc = J_Obj [(''schema'', J_Num 1),
     (''platforms'', J_Arr [J_Obj [(''id'', J_Str ''gb''), (''name'', J_Str ''Game Boy''), (''ss_id'', J_Num 9)],
                          J_Obj [(''id'', J_Str ''fc''), (''name'', J_Str ''Famicom''), (''aliases'', J_Arr [J_Str ''NES''])]]),
     (''tags'', J_Obj [(''GB'', J_Str ''gb'')]), (''tag_candidates'', J_Obj [(''GB'', J_Arr [J_Str ''fc''])])]"

definition sample_catalog :: catalog where
  "sample_catalog = \<lparr>c_platforms = [\<lparr>p_id = ''gb'', p_name = ''Game Boy'', p_ss_id = 9, p_dir = None, p_aliases = []\<rparr>,
     \<lparr>p_id = ''fc'', p_name = ''Famicom'', p_ss_id = -1, p_dir = None, p_aliases = [''NES'']\<rparr>],
     c_defaults = [(''GB'', 0)], c_candidates = [(''GB'', [1])]\<rparr>"

definition sample_saved :: override_set where
  "sample_saved = \<lparr>os_tags = [], os_folders = [\<lparr>fo_key = ''GB'', fo_platform = Some ''fc'', fo_hidden = False\<rparr>]\<rparr>"

definition sample_parse :: "string \<Rightarrow> json option" where
  "sample_parse t = (if t = ''C'' then Some sample_doc else if t = ''O'' then Some (ov_to_json sample_saved) else None)"

definition sample_print :: "json \<Rightarrow> string" where
  "sample_print j = ''O''"

definition sample_cat_io :: cat_io where
  "sample_cat_io = \<lparr>ci_env = None, ci_readable = (\<lambda>p. p = ''/pak/resources/systems.json''), ci_missing = (\<lambda>p. True),
     ci_exe_dir = Some ''/pak'', ci_read = (\<lambda>p. Some ''C'')\<rparr>"

definition sample_io :: persist_io where
  "sample_io = \<lparr>io_copy = Copy_Ok, io_open = True, io_write = True, io_rename = True\<rparr>"

definition sample_sys :: sys where
  "sample_sys = (sys_start None)\<lparr>sy_cat := sample_catalog, sy_init := True\<rparr>"

lemma sample_load: "load_catalog sample_parse sample_cat_io = Inr sample_catalog"
  by (simp add: load_catalog_def resolve_catalog_path_def sample_cat_io_def sample_parse_def sample_doc_def load_root_def
      j_is_obj_def j_get_def has_duplicate_keys_def load_platforms_def load_platform_def usable_string_def load_ss_id_def
      load_dir_def load_aliases_def j_present_def load_tag_defaults_def load_default_def load_tag_candidates_def sample_catalog_def Let_def)

lemma sample_init: "systems_init sample_parse sample_cat_io True (sys_start None) = (True, sample_sys)"
  by (simp add: systems_init_def sample_load load_overrides_def sample_sys_def sys_start_def)

lemma sample_inv: "sys_inv sample_sys"
proof -
  have "sys_inv (sys_start None)" by (simp add: sys_inv_def sys_start_def)
  from init_inv [OF this, of sample_parse sample_cat_io True] show ?thesis by (simp add: sample_init)
qed

lemma sample_key: "systems_folder_key sample_paths ''/storage/Roms/GB'' MAX_KEY_LEN = Some ''GB''"
proof -
  have "zlyme_library_roms_dir sample_paths ''/storage'' ZP_PATH = Some ''/storage/Roms''"
    by (simp add: zlyme_library_roms_dir_def rom_names_def sample_paths_def)
  then show ?thesis by (simp add: systems_folder_key_def zlyme_folder_key_def sample_paths_dirs key_is_safe_def Let_def)
qed

lemma sample_set: "sys_op_run sample_paths sample_parse sample_print 20 sample_sys (Op_SetFolder sample_io ''/storage/Roms/GB'' (Some ''fc''))
    = (True, sample_sys\<lparr>sy_ov := sample_saved, sy_file := Some ''O''\<rparr>)"
  by (simp add: systems_set_folder_platform_def set_folder_def sample_key sample_sys_def sys_start_def known_def sample_catalog_def
      commit_def ov_persist_def keep_rejected_def sample_io_def ov_folder_slot_def no_overrides_def ov_compact_def sample_saved_def
      sample_print_def)

text \<open>
  C26 (type). Whatever the catalogue file, the override file and the results of the file operations
  are, every state the mapping code reaches is well formed: while it is initialised the catalogue has
  distinct, bounded identifiers, provider ids in range, cheat directories of one path component, and
  every index and saved choice refers to a platform of the catalogue; otherwise everything is empty.
\<close>

theorem systems_run_inv: "sys_inv (foldl (sys_step E parse print n) (sys_start f) ops)"
  by (rule sy.inv_run)



text \<open>
  C28 (error). A change that fails, for whatever reason, leaves the mapping file and every resolution
  as they were and records an error; a change that succeeds replaces the file by the new mappings, and
  a file that could not be used completely is first copied to the side.
\<close>

theorem systems_failed_change:
  assumes "is_change op" "sys_op_run E parse print n s op = (ok, s')"
  shows "(\<not> ok \<longrightarrow> sy_file s' = sy_file s \<and> sy_error s' \<noteq> None \<and> (\<forall>path tag. systems_resolve E s' path tag = systems_resolve E s path tag))
    \<and> (ok \<longrightarrow> sy_file s' = Some (print (ov_to_json (sy_ov s')))
        \<and> (sy_backup s \<and> sy_file s \<noteq> None \<longrightarrow> sy_rejected s' = sy_file s))"
proof -
  show ?thesis using assms
  proof (cases rule: change_cases)
    case refused
    then show ?thesis using resolve_same [of s' s] by (simp add: set_error_def)
  next
    case (commit io p)
    note cr = commit_result [OF commit(2)]
    show ?thesis using cr resolve_same [of s' s] by (cases ok) auto
  qed
qed

theorem systems_failed_change_witness:
  "sys_op_run sample_paths sample_parse sample_print 20 sample_sys (Op_SetTag (sample_io\<lparr>io_rename := False\<rparr>) ''GB'' None)
     = (False, sample_sys\<lparr>sy_error := Some E_Rename\<rparr>)
   \<and> sy_file (sample_sys\<lparr>sy_error := Some E_Rename\<rparr>) = sy_file sample_sys"
proof -
  have r: "sys_op_run sample_paths sample_parse sample_print 20 sample_sys (Op_SetTag (sample_io\<lparr>io_rename := False\<rparr>) ''GB'' None)
     = (False, sample_sys\<lparr>sy_error := Some E_Rename\<rparr>)"
    by (simp add: systems_set_tag_def sample_sys_def sys_start_def no_overrides_def commit_def ov_persist_def keep_rejected_def
        sample_io_def set_error_def)
  show ?thesis using r systems_failed_change [OF _ r] by (simp add: is_change_def)
qed

text \<open>
  C29 (roundtrip). After a successful change, a scraper started on the saved file with the same
  catalogue comes up without a warning, with the same mappings, and resolves every folder as before.
  The hypothesis on the JSON library is that parsing what it printed gives back the value.
\<close>

theorem systems_restart:
  assumes "sys_inv s" "is_change op" "sys_op_run E parse print n s op = (True, s')"
    and "load_catalog parse io = Inr (sy_cat s')"
    and json: "parse (print (ov_to_json (sy_ov s'))) = Some (ov_to_json (sy_ov s'))"
  shows "\<exists>t. systems_init parse io True (sys_start (sy_file s')) = (True, t) \<and> sy_warning t = None \<and> \<not> sy_backup t
    \<and> sy_ov t = sy_ov s' \<and> (\<forall>path tag. systems_resolve E t path tag = systems_resolve E s' path tag)"
proof -
  have f: "sy_file s' = Some (print (ov_to_json (sy_ov s')))" "sy_init s'"
    using assms(2,3) by (cases rule: change_cases; auto dest: commit_result)+
  have "sys_inv s'" using sys_step_inv [OF assms(1), of E parse print n op] assms(3) by (simp add: sys_step_def)
  then have oi: "ov_inv (sy_cat s') (sy_ov s')" using f(2) by (simp add: sys_inv_def)
  let ?s = "(sys_start (sy_file s'))\<lparr>sy_error := None, sy_warning := None, sy_backup := False, sy_cat := sy_cat s'\<rparr>"
  have "load_overrides parse True ?s = ?s\<lparr>sy_ov := sy_ov s'\<rparr>"
    by (rule load_saved [where body = "print (ov_to_json (sy_ov s'))"]) (use oi f json in \<open>simp_all add: sys_start_def\<close>)
  then have i: "systems_init parse io True (sys_start (sy_file s')) = (True, ?s\<lparr>sy_ov := sy_ov s', sy_init := True\<rparr>)"
    using assms(4) by (simp add: systems_init_def sys_start_def)
  have "systems_resolve E (?s\<lparr>sy_ov := sy_ov s', sy_init := True\<rparr>) path tag = systems_resolve E s' path tag" for path tag
    by (rule resolve_same) (use f(2) in simp_all)
  then show ?thesis using i by (simp add: sys_start_def)
qed

theorem systems_restart_witness:
  "\<exists>t. systems_init sample_parse sample_cat_io True (sys_start (Some ''O'')) = (True, t) \<and> sy_ov t = sample_saved"
  using systems_restart [OF sample_inv _ sample_set, of sample_cat_io] sample_load
  by (auto simp: is_change_def sample_print_def sample_parse_def sample_sys_def)

section \<open>Suggestions\<close>

text \<open>A pass over some platforms adds those that pass, in order, while there is room.\<close>

lemma offer_pass:
  assumes "distinct out"
  shows "\<exists>new. foldl (offer m ok) out xs = out @ new \<and> distinct (out @ new) \<and> set new \<subseteq> {x \<in> set xs. ok x}
    \<and> (length out \<le> m \<longrightarrow> length (out @ new) \<le> m)
    \<and> (length (out @ new) < m \<longrightarrow> {x \<in> set xs. ok x} \<subseteq> set (out @ new))"
  using assms
proof (induction xs arbitrary: out)
  case (Cons x xs)
  show ?case
  proof (cases "length out < m \<and> x \<notin> set out \<and> ok x")
    case True
    then have o: "offer m ok out x = out @ [x]" by (simp add: offer_def)
    have "distinct (out @ [x])" using Cons.prems True by simp
    from Cons.IH [OF this] obtain new where n: "foldl (offer m ok) (out @ [x]) xs = (out @ [x]) @ new"
      "distinct ((out @ [x]) @ new)" "set new \<subseteq> {x \<in> set xs. ok x}"
      "length (out @ [x]) \<le> m \<longrightarrow> length ((out @ [x]) @ new) \<le> m"
      "length ((out @ [x]) @ new) < m \<longrightarrow> {x \<in> set xs. ok x} \<subseteq> set ((out @ [x]) @ new)" by blast
    then show ?thesis using True o by (intro exI [of _ "x # new"]) auto
  next
    case False
    then have o: "offer m ok out x = out" by (simp add: offer_def)
    from Cons.IH [OF Cons.prems] obtain new where n: "foldl (offer m ok) out xs = out @ new"
      "distinct (out @ new)" "set new \<subseteq> {x \<in> set xs. ok x}" "length out \<le> m \<longrightarrow> length (out @ new) \<le> m"
      "length (out @ new) < m \<longrightarrow> {x \<in> set xs. ok x} \<subseteq> set (out @ new)" by blast
    then show ?thesis using False o by (intro exI [of _ new]) auto
  qed
qed simp

lemma offer_take:
  assumes "distinct (out @ xs)" "length out \<le> m"
  shows "foldl (offer m ok) out xs = take m (out @ filter ok xs)"
  using assms
proof (induction xs arbitrary: out)
  case (Cons x xs)
  show ?case
  proof (cases "length out < m \<and> ok x")
    case True
    then show ?thesis using Cons.IH [of "out @ [x]"] Cons.prems by (auto simp: offer_def)
  next
    case False
    then show ?thesis using Cons.IH [of out] Cons.prems by (auto simp: offer_def)
  qed
qed simp

text \<open>The platforms that have a reason to be suggested.\<close>

definition suggestible :: "sys \<Rightarrow> string \<Rightarrow> string \<Rightarrow> nat \<Rightarrow> bool" where
  "suggestible s tag display i \<longleftrightarrow> names_match (c_platforms (sy_cat s) ! i) display \<or> i \<in> set (systems_tag_candidates s tag 16)
     \<or> systems_builtin_tag s tag = Some i \<or> display \<noteq> [] \<and> contains_ci (p_name (c_platforms (sy_cat s) ! i)) display"

text \<open>
  The suggestions are at most as many as asked for, without repetition, all of them
  platforms of the catalogue that pass the filter and have a reason to be there (a matching name or
  alias, a reviewed candidate, the default of the suffix, or the display name inside their name);
  exact matches come first, in catalogue order; and when there is room left nothing was omitted.
\<close>

theorem systems_suggest_correct:
  assumes "sys_inv s" "sy_init s" and r: "systems_suggest s tag display flt mx = out"
  shows "distinct out \<and> length out \<le> nat mx
    \<and> (\<forall>i \<in> set out. i < length (c_platforms (sy_cat s)) \<and> matches_filter (c_platforms (sy_cat s) ! i) flt \<and> suggestible s tag display i)
    \<and> prefix (take (nat mx) (filter (\<lambda>i. names_match (c_platforms (sy_cat s) ! i) display \<and> matches_filter (c_platforms (sy_cat s) ! i) flt)
        [0..<length (c_platforms (sy_cat s))])) out
    \<and> (length out < nat mx \<longrightarrow> (\<forall>i < length (c_platforms (sy_cat s)).
        matches_filter (c_platforms (sy_cat s) ! i) flt \<and> suggestible s tag display i \<longrightarrow> i \<in> set out))"
proof (cases "mx \<le> 0")
  case True
  then show ?thesis using r by (simp add: systems_suggest_def)
next
  case False
  let ?ps = "c_platforms (sy_cat s)" and ?m = "nat mx"
  let ?fits = "\<lambda>i. matches_filter (?ps ! i) flt"
  let ?exact = "\<lambda>i. names_match (?ps ! i) display \<and> ?fits i" and ?all = "[0..<length ?ps]"
  have ci: "cat_inv (sy_cat s)" using assms(1,2) by (simp add: sys_inv_def)
  have cand: "i < length ?ps" if "i \<in> set (systems_tag_candidates s tag 16)" for i
    using that ci by (auto simp: systems_tag_candidates_def cat_inv_def dest!: map_of_SomeD in_set_takeD split: if_splits option.splits)
  have bi: "i < length ?ps" if "systems_builtin_tag s tag = Some i" for i
    using that ci by (auto simp: systems_builtin_tag_def cat_inv_def dest!: map_of_SomeD split: if_splits)
  obtain a where a: "foldl (offer ?m ?exact) [] ?all = a" by simp
  obtain a' where a': "a = a'" "distinct a" "set a \<subseteq> {x \<in> set ?all. ?exact x}" "length a \<le> ?m"
      "length a < ?m \<longrightarrow> {x \<in> set ?all. ?exact x} \<subseteq> set a"
    using offer_pass [of "[]" ?m ?exact ?all] a by auto
  have at: "a = take ?m (filter ?exact ?all)" using offer_take [of "[]" ?all ?m ?exact] a by simp
  obtain b where b: "foldl (offer ?m ?fits) a (systems_tag_candidates s tag 16) = a @ b" "distinct (a @ b)"
      "set b \<subseteq> {x \<in> set (systems_tag_candidates s tag 16). ?fits x}" "length (a @ b) \<le> ?m"
      "length (a @ b) < ?m \<longrightarrow> {x \<in> set (systems_tag_candidates s tag 16). ?fits x} \<subseteq> set (a @ b)"
    using offer_pass [OF a'(2), of ?m ?fits "systems_tag_candidates s tag 16"] a'(4) by blast
  let ?bl = "case systems_builtin_tag s tag of None \<Rightarrow> [] | Some x \<Rightarrow> [x]"
  obtain c where c: "foldl (offer ?m ?fits) (a @ b) ?bl = (a @ b) @ c" "distinct ((a @ b) @ c)" "set c \<subseteq> {x \<in> set ?bl. ?fits x}"
      "length ((a @ b) @ c) \<le> ?m" "length ((a @ b) @ c) < ?m \<longrightarrow> {x \<in> set ?bl. ?fits x} \<subseteq> set ((a @ b) @ c)"
    using offer_pass [OF b(2), of ?m ?fits ?bl] b(4) by blast
  let ?dl = "if display = [] then [] else ?all" and ?sub = "\<lambda>i. contains_ci (p_name (?ps ! i)) display \<and> ?fits i"
  obtain d where d: "foldl (offer ?m ?sub) ((a @ b) @ c) ?dl = ((a @ b) @ c) @ d" "distinct (((a @ b) @ c) @ d)"
      "set d \<subseteq> {x \<in> set ?dl. ?sub x}" "length (((a @ b) @ c) @ d) \<le> ?m"
      "length (((a @ b) @ c) @ d) < ?m \<longrightarrow> {x \<in> set ?dl. ?sub x} \<subseteq> set (((a @ b) @ c) @ d)"
    using offer_pass [OF c(2), of ?m ?sub ?dl] c(4) by blast
  have bl: "(case systems_builtin_tag s tag of None \<Rightarrow> a @ b | Some x \<Rightarrow> offer ?m ?fits (a @ b) x) = (a @ b) @ c"
    using c(1) by (cases "systems_builtin_tag s tag") auto
  have "out = (if display = [] then (a @ b) @ c else foldl (offer ?m ?sub) ((a @ b) @ c) ?all)"
    using r False unfolding systems_suggest_def Let_def a b(1) bl by simp
  then have out: "out = ((a @ b) @ c) @ d" using d(1) by (auto split: if_splits)
  have "i < length ?ps \<and> ?fits i \<and> suggestible s tag display i" if "i \<in> set out" for i
    using that out a'(3) b(3) c(3) d(3) cand bi
    by (auto simp: suggestible_def split: if_splits option.splits)
  moreover have "prefix (take ?m (filter ?exact ?all)) out" unfolding out at [symmetric] by simp
  moreover have "distinct out" "length out \<le> ?m" using out d(2,4) by simp_all
  moreover have "i \<in> set out" if "length out < ?m" "i < length ?ps" "?fits i" "suggestible s tag display i" for i
    using that(4) unfolding suggestible_def
  proof (elim disjE conjE)
    assume "names_match (?ps ! i) display"
    then show ?thesis using that out a'(5) by auto
  next
    assume "i \<in> set (systems_tag_candidates s tag 16)"
    then show ?thesis using that out b(5) by auto
  next
    assume "systems_builtin_tag s tag = Some i"
    then show ?thesis using that out c(5) by auto
  next
    assume "display \<noteq> []" "contains_ci (p_name (?ps ! i)) display"
    then show ?thesis using that out d(5) by auto
  qed
  ultimately show ?thesis by blast
qed

theorem systems_suggest_correct_witness:
  "systems_suggest sample_sys ''GB'' ''nes'' [] 5 = [1, 0] \<and> distinct (systems_suggest sample_sys ''GB'' ''nes'' [] 5)"
proof -
  have "systems_suggest sample_sys ''GB'' ''nes'' [] 5 = [1, 0]"
    by (simp add: systems_suggest_def sample_sys_def sample_catalog_def Let_def offer_def names_match_def matches_filter_def
        lower_def char_val_def systems_tag_candidates_def systems_builtin_tag_def contains_ci_def upt_rec)
  then show ?thesis using systems_suggest_correct [OF sample_inv _ refl, of "''GB''" "''nes''" "[]" 5] by (simp add: sample_sys_def)
qed

end
