(* ===== verification/Cheat_Names.thy ===== *)
theory Cheat_Names
  imports Scrape_Paths
begin

text \<open>
  Names of cheat files, \<^verbatim>\<open>zcrapegoat/src/src/cheats.c\<close>: the normalised key of a title, the keys of its
  alternate titles, and the regions in its parentheses.
\<close>

section \<open>Normalisation\<close>

text \<open>\<open>n\<close> is the room left in the output buffer.\<close>

fun strip_loop :: "nat \<Rightarrow> nat \<Rightarrow> string \<Rightarrow> string" where
  "strip_loop n depth [] = []"
| "strip_loop n depth (c # s) =
     (if n = 0 then []
      else if c = CHR ''('' then strip_loop n (depth + 1) s
      else if c = CHR '')'' then strip_loop n (depth - 1) s
      else if depth = 0 then c # strip_loop (n - 1) depth s
      else strip_loop n depth s)"

definition strip_parentheticals :: "string \<Rightarrow> nat \<Rightarrow> string" where
  "strip_parentheticals s out_len = rev (dropWhile (\<lambda>c. c = CHR '' '') (rev (strip_loop (out_len - 1) 0 s)))"

text \<open>\<^verbatim>\<open>ispunct\<close> of the C locale.\<close>

definition is_punct :: "char \<Rightarrow> bool" where
  "is_punct c \<longleftrightarrow> (let v = char_val c in 33 \<le> v \<and> v \<le> 47 \<or> 58 \<le> v \<and> v \<le> 64 \<or> 91 \<le> v \<and> v \<le> 96 \<or> 123 \<le> v \<and> v \<le> 126)"

fun normalize_loop :: "nat \<Rightarrow> bool \<Rightarrow> string \<Rightarrow> string" where
  "normalize_loop n prev_space [] = []"
| "normalize_loop n prev_space (c # s) =
     (if n = 0 then []
      else if is_punct c then normalize_loop n prev_space s
      else if is_space c then (if \<not> prev_space then CHR '' '' # normalize_loop (n - 1) True s else normalize_loop n prev_space s)
      else lower c # normalize_loop (n - 1) False s)"

definition drop_last_space :: "string \<Rightarrow> string" where
  "drop_last_space s = (if s \<noteq> [] \<and> last s = CHR '' '' then butlast s else s)"

definition normalize_cheat_name :: "string \<Rightarrow> nat \<Rightarrow> string" where
  "normalize_cheat_name name out_len =
     drop_last_space (normalize_loop (out_len - 1) True (strip_parentheticals name 512))"

fun count_tokens :: "bool \<Rightarrow> string \<Rightarrow> nat" where
  "count_tokens in_token [] = 0"
| "count_tokens in_token (c # s) =
     (if is_space c then count_tokens False s
      else if \<not> in_token then Suc (count_tokens True s) else count_tokens in_token s)"

definition count_normalized_tokens :: "string \<Rightarrow> nat" where
  "count_normalized_tokens s = count_tokens False s"

section \<open>Alternate titles\<close>

function split_us :: "string \<Rightarrow> string \<Rightarrow> string list" where
  "split_us [] cur = [rev cur]"
| "split_us (c # s) cur =
     (if prefix '' _ '' (c # s) then rev cur # split_us (drop 2 s) [] else split_us s (c # cur))"
  by pat_completeness auto
termination
  by (relation "measure (\<lambda>(s, cur). length s)") auto

text \<open>The loop over the parts; \<open>None\<close> as soon as one is not a title of its own.\<close>

fun alias_loop :: "string \<Rightarrow> string list \<Rightarrow> string list \<Rightarrow> string list option" where
  "alias_loop full [] keys = Some keys"
| "alias_loop full (part # parts) keys =
     (let key = normalize_cheat_name (fit 256 part) 256
      in if key = [] \<or> key = full \<or> count_normalized_tokens key < 2 then None
         else alias_loop full parts (if key \<in> set keys then keys else keys @ [key]))"

definition collect_cheat_alias_keys :: "string \<Rightarrow> string \<Rightarrow> string list" where
  "collect_cheat_alias_keys game_name full =
     (let parts = split_us (strip_parentheticals game_name 512) []
      in if length parts < 2 then []
         else case alias_loop full parts [] of None \<Rightarrow> [] | Some keys \<Rightarrow> if length keys < 2 then [] else keys)"

section \<open>Regions\<close>

definition cheat_region_map :: "(string \<times> string) list" where
  "cheat_region_map =
     [(''usa'', ''us''), (''europe'', ''eu''), (''japan'', ''jp''), (''world'', ''wor''), (''france'', ''fr''), (''germany'', ''de''),
      (''spain'', ''es''), (''italy'', ''it''), (''portugal'', ''pt''), (''australia'', ''eu''), (''korea'', ''kr''), (''china'', ''cn''),
      (''taiwan'', ''tw''), (''brazil'', ''pt''), (''us'', ''us''), (''eu'', ''eu''), (''jp'', ''jp''), (''fr'', ''fr''), (''de'', ''de''),
      (''es'', ''es''), (''it'', ''it''), (''pt'', ''pt''), (''kr'', ''kr''), (''cn'', ''cn''), (''tw'', ''tw'')]"

text \<open>The contents of the parentheses, each up to the next closing one.\<close>

function paren_groups :: "string \<Rightarrow> string list" where
  "paren_groups s =
     (case dropWhile (\<lambda>c. c \<noteq> CHR ''('') s of
        [] \<Rightarrow> []
      | _ # r \<Rightarrow>
          if CHR '')'' \<notin> set r then []
          else takeWhile (\<lambda>c. c \<noteq> CHR '')'') r # paren_groups (tl (dropWhile (\<lambda>c. c \<noteq> CHR '')'') r)))"
  by pat_completeness auto
termination
proof (relation "measure length", goal_cases)
  case (2 s a r)
  have "length r < length s" using length_dropWhile_le [of "\<lambda>c. c \<noteq> CHR ''(''" s] 2(1) by simp
  moreover have "length (tl (dropWhile (\<lambda>c. c \<noteq> CHR '')'') r)) \<le> length r"
    using length_dropWhile_le [of "\<lambda>c. c \<noteq> CHR '')''" r] by simp
  ultimately show ?case by simp
qed simp

declare paren_groups.simps [simp del]

fun split_comma :: "string \<Rightarrow> string \<Rightarrow> string list" where
  "split_comma [] cur = [rev cur]"
| "split_comma (c # s) cur = (if c = CHR '','' then rev cur # split_comma s [] else split_comma s (c # cur))"

definition add_region :: "nat \<Rightarrow> string list \<Rightarrow> string \<Rightarrow> string list" where
  "add_region max_regions regions item =
     (let t = trim_inplace item
      in if t = [] \<or> length t \<ge> 32 then regions
         else case map_of cheat_region_map (map lower t) of
                None \<Rightarrow> regions
              | Some code \<Rightarrow> if code \<in> set regions \<or> length regions \<ge> max_regions then regions else regions @ [code])"

definition extract_cheat_regions :: "string \<Rightarrow> nat \<Rightarrow> string list" where
  "extract_cheat_regions name max_regions =
     foldl (add_region max_regions) [] (concat (map (\<lambda>g. split_comma g []) (paren_groups name)))"

definition score_overlap :: "string list \<Rightarrow> string list \<Rightarrow> nat" where
  "score_overlap cheat_regions rom_regions =
     sum_list (map (\<lambda>c. length (filter (\<lambda>r. c = r) rom_regions)) cheat_regions)"

text \<open>The first preferred region the cheat has.\<close>

fun prio_index :: "string list \<Rightarrow> string list \<Rightarrow> nat \<Rightarrow> nat option" where
  "prio_index regions [] i = None"
| "prio_index regions (p # ps) i = (if p \<in> set regions then Some i else prio_index regions ps (Suc i))"

definition score_cheat_region :: "string list \<Rightarrow> string list \<Rightarrow> string list \<Rightarrow> int" where
  "score_cheat_region cheat_regions rom_regions prio =
     (if score_overlap cheat_regions rom_regions > 0 then 1000 + int (score_overlap cheat_regions rom_regions)
      else if ''wor'' \<in> set cheat_regions then 500
      else case prio_index cheat_regions prio 0 of
             Some i \<Rightarrow> 100 - int i
           | None \<Rightarrow> if cheat_regions = [] then 50 else 0)"

end
