(* ===== verification/Cheat_List.thy ===== *)
theory Cheat_List
  imports Cheat_Names
begin

text \<open>
  The index of the cheat files of a system and the choice of a file for a ROM, the description lines of
  a cheat file, and the safe copy, \<^verbatim>\<open>zcrapegoat/src/src/cheats.c\<close>.
\<close>

section \<open>The index\<close>

record cheat_candidate =
  cc_path :: string
  cc_regions :: "string list"

record cheat_entry =
  ce_normalized :: string
  ce_candidates :: "cheat_candidate list"

type_synonym cheat_list = "cheat_entry list"

definition cheat_list_find :: "cheat_list \<Rightarrow> string \<Rightarrow> cheat_entry option" where
  "cheat_list_find l normalized = find (\<lambda>e. ce_normalized e = normalized) l"

fun entry_add :: "string \<Rightarrow> cheat_candidate \<Rightarrow> cheat_list \<Rightarrow> cheat_list" where
  "entry_add key c [] = [\<lparr>ce_normalized = fit 256 key, ce_candidates = [c]\<rparr>]"
| "entry_add key c (e # es) =
     (if ce_normalized e = key then e\<lparr>ce_candidates := ce_candidates e @ [c]\<rparr> # es else e # entry_add key c es)"

definition cheat_list_add_internal :: "cheat_list \<Rightarrow> string \<Rightarrow> string \<Rightarrow> string list \<Rightarrow> cheat_list" where
  "cheat_list_add_internal l normalized path regions =
     entry_add normalized \<lparr>cc_path = fit ZP_PATH path, cc_regions = take 16 regions\<rparr> l"

definition is_cht_name :: "string \<Rightarrow> bool" where
  "is_cht_name name \<longleftrightarrow> name \<noteq> [] \<and> hd name \<noteq> CHR ''.'' \<and> length name \<ge> 5
     \<and> map lower (drop (length name - 4) name) = ''.cht''"

definition game_name_of :: "string \<Rightarrow> string" where
  "game_name_of name = fit 256 (take (length name - 4) name)"

definition index_file :: "string \<Rightarrow> cheat_list \<Rightarrow> string \<Rightarrow> cheat_list" where
  "index_file cheat_dir l name =
     (if \<not> is_cht_name name then l
      else let path = fit ZP_PATH (cheat_dir @ ''/'' @ name); game = game_name_of name;
               key = normalize_cheat_name game 256; regions = extract_cheat_regions game 16;
               l = cheat_list_add_internal l key path regions
           in foldl (\<lambda>l k. cheat_list_add_internal l k path regions) l (collect_cheat_alias_keys game key))"

text \<open>\<open>names\<close> is the listing of the directory, \<open>None\<close> when it cannot be opened.\<close>

definition build_cheat_list :: "string \<Rightarrow> string \<Rightarrow> string list option \<Rightarrow> cheat_list option" where
  "build_cheat_list repo libretro_dir_name names =
     map_option (foldl (index_file (fit ZP_PATH (repo @ ''/cht/'' @ libretro_dir_name))) []) names"

definition is_device_specific_cheat :: "string \<Rightarrow> bool" where
  "is_device_specific_cheat path =
     (let base = path_base path in sublist ''(Game Genie)'' base \<or> sublist ''(Action Replay)'' base)"

definition candidate_score :: "string \<Rightarrow> string list \<Rightarrow> cheat_candidate \<Rightarrow> int" where
  "candidate_score rom_display prio c =
     score_cheat_region (cc_regions c) (extract_cheat_regions rom_display 16) prio
     + (if is_device_specific_cheat (cc_path c) then 0 else 1)"

fun best_candidate :: "(cheat_candidate \<Rightarrow> int) \<Rightarrow> int \<Rightarrow> string \<Rightarrow> cheat_candidate list \<Rightarrow> string" where
  "best_candidate score best path [] = path"
| "best_candidate score best path (c # cs) =
     (if score c > best then best_candidate score (score c) (cc_path c) cs else best_candidate score best path cs)"

definition match_cheat :: "string \<Rightarrow> cheat_list \<Rightarrow> string list \<Rightarrow> string option" where
  "match_cheat rom_display l prio =
     (case cheat_list_find l (normalize_cheat_name rom_display 256) of
        None \<Rightarrow> None
      | Some e \<Rightarrow>
          (case ce_candidates e of
             [] \<Rightarrow> None
           | [c] \<Rightarrow> Some (cc_path c)
           | c # cs \<Rightarrow> Some (best_candidate (candidate_score rom_display prio) (-1) (cc_path c) (c # cs))))"

section \<open>Copying a file\<close>

text \<open>The directories that are made for a file, outermost first.\<close>

definition ensure_parent_dir :: "string \<Rightarrow> string list" where
  "ensure_parent_dir path =
     (let p = fit ZP_PATH path
      in if CHR ''/'' \<notin> set p then []
         else let parent = rev (tl (dropWhile (\<lambda>c. c \<noteq> CHR ''/'') (rev p)))
              in map (\<lambda>i. take i parent) (filter (\<lambda>i. parent ! i = CHR ''/'') [1..<length parent]) @ [parent])"

text \<open>What the file operations of a copy report. A read error ends the loop like the end of the file, after
  the first \<open>n\<close> bytes.\<close>

datatype copy_outcome = CP_NoSource | CP_NoTemp | CP_WriteFailed | CP_RenameFailed | CP_ReadError nat | CP_Done

definition copied_bytes :: "copy_outcome \<Rightarrow> string \<Rightarrow> string" where
  "copied_bytes io content = (case io of CP_ReadError n \<Rightarrow> take n content | _ \<Rightarrow> content)"

definition copy_cheat_file :: "copy_outcome \<Rightarrow> string \<Rightarrow> string \<Rightarrow> (string \<rightharpoonup> string) \<Rightarrow> bool \<times> (string \<rightharpoonup> string)" where
  "copy_cheat_file io src dst fs =
     (let tmp = fit ZP_PATH (dst @ ''.tmp'')
      in case fs src of
           None \<Rightarrow> (False, fs)
         | Some content \<Rightarrow>
             if io = CP_NoSource \<or> io = CP_NoTemp then (False, fs)
             else if io = CP_WriteFailed \<or> io = CP_RenameFailed then (False, fs(tmp := None))
             else (True, fs(tmp := None, dst := Some (copied_bytes io (if src = tmp then [] else content)))))"

definition cheat_path :: "string \<Rightarrow> string \<Rightarrow> string \<Rightarrow> string" where
  "cheat_path base tag rom_display = fit ZP_PATH (base @ ''/'' @ tag @ ''/'' @ rom_display @ ''.cht'')"

definition cheat_exists :: "string \<Rightarrow> string \<Rightarrow> string \<Rightarrow> (string \<rightharpoonup> string) \<Rightarrow> bool" where
  "cheat_exists base tag rom_display fs \<longleftrightarrow> fs (cheat_path base tag rom_display) \<noteq> None"

section \<open>Descriptions\<close>

text \<open>\<^verbatim>\<open>sscanf\<close> of a literal in which a blank matches any white space, then \<^verbatim>\<open>%d\<close>.\<close>

fun scan_lit :: "string \<Rightarrow> string \<Rightarrow> string option" where
  "scan_lit [] s = Some s"
| "scan_lit (f # fs) s =
     (if f = CHR '' '' then scan_lit fs (dropWhile is_space s)
      else case s of [] \<Rightarrow> None | c # s' \<Rightarrow> if c = f then scan_lit fs s' else None)"

definition scan_int :: "string \<Rightarrow> int option" where
  "scan_int s = (case strtol10 s of (v, err, rest) \<Rightarrow> if rest = s then None else Some (to_s32 v))"

definition scan_count :: "string \<Rightarrow> int option" where
  "scan_count line =
     (case Option.bind (scan_lit '' cheats = \"'' line) scan_int of
        Some n \<Rightarrow> Some n
      | None \<Rightarrow> Option.bind (scan_lit '' cheats = '' line) scan_int)"

fun first_count :: "string list \<Rightarrow> int" where
  "first_count [] = 0"
| "first_count (l # ls) = (case scan_count l of Some n \<Rightarrow> n | None \<Rightarrow> first_count ls)"

definition parse_cht_string :: "string \<Rightarrow> nat \<Rightarrow> string option" where
  "parse_cht_string line buflen =
     (case dropWhile (\<lambda>c. c \<noteq> CHR 0x22) line of
        [] \<Rightarrow> None
      | _ # q1 \<Rightarrow>
          if CHR 0x22 \<notin> set q1 then None
          else let v = rev (tl (dropWhile (\<lambda>c. c \<noteq> CHR 0x22) (rev q1))) in if v = [] then None else Some (fit buflen v))"

definition desc_line :: "string option list \<Rightarrow> string \<Rightarrow> string option list" where
  "desc_line ds line =
     (if \<not> sublist ''_desc'' line then ds
      else case Option.bind (scan_lit '' cheat'' line) scan_int of
             None \<Rightarrow> ds
           | Some idx \<Rightarrow>
               if idx < 0 \<or> idx \<ge> int (length ds) then ds
               else (case parse_cht_string line 512 of None \<Rightarrow> ds | Some v \<Rightarrow> ds[nat idx := Some v]))"

definition parse_cheat_descriptions :: "string option \<Rightarrow> string option list option" where
  "parse_cheat_descriptions body =
     (case body of None \<Rightarrow> None
      | Some t \<Rightarrow>
          let lines = fgets_lines 510 t; total = first_count lines
          in if total \<le> 0 then None else Some (foldl desc_line (replicate (nat total) None) lines))"

end
