(* ===== verification/Cheat_Git.thy ===== *)
theory Cheat_Git
  imports Cheat_Names
begin

text \<open>
  The Git program the cheat database is fetched with, \<^verbatim>\<open>zcrapegoat/src/src/cheats.c\<close>: which binary is
  chosen, the environment it gets, and the lines of its standard error. The environment variables and the
  file system are inputs; the builds for macOS are left out.
\<close>

section \<open>Choice of the binary\<close>

record git_world =
  gw_exec_path :: "string option"
  gw_exe :: "string option"
  gw_path :: "string option"
  gw_isreg :: "string \<Rightarrow> bool"
  gw_xok :: "string \<Rightarrow> bool"
  gw_real :: "string \<Rightarrow> string option"

definition env_key_is :: "string \<Rightarrow> string \<Rightarrow> bool" where
  "env_key_is entry key \<longleftrightarrow> prefix (key @ ''='') entry"

definition join_file :: "nat \<Rightarrow> string \<Rightarrow> string \<Rightarrow> string option" where
  "join_file buflen dir name =
     (if buflen = 0 \<or> dir = [] \<or> name = [] then None
      else let slash = last dir = CHR ''/''
           in if length dir + (if slash then 0 else 1) + length name \<ge> buflen then None
              else Some (dir @ (if slash then [] else ''/'') @ name))"

definition git_join :: "nat \<Rightarrow> string option \<Rightarrow> string option" where
  "git_join buflen dir =
     (case dir of
        None \<Rightarrow> None
      | Some d \<Rightarrow>
          if buflen = 0 \<or> d = [] then None
          else let slash = last d = CHR ''/''
               in if length d + (if slash then 0 else 1) + 3 \<ge> buflen then None
                  else Some (d @ (if slash then [] else ''/'') @ ''git''))"

definition git_file_usable :: "git_world \<Rightarrow> string \<Rightarrow> bool" where
  "git_file_usable W path \<longleftrightarrow> path \<noteq> [] \<and> gw_isreg W path \<and> gw_xok W path"

text \<open>The path before the last slash.\<close>

definition git_dir_of :: "string \<Rightarrow> string option" where
  "git_dir_of path =
     (if CHR ''/'' \<notin> set path then None
      else let d = rev (tl (dropWhile (\<lambda>c. c \<noteq> CHR ''/'') (rev path))) in if d = [] then None else Some d)"

definition parent_dir :: "nat \<Rightarrow> string \<Rightarrow> string option" where
  "parent_dir dirlen path =
     (case git_dir_of path of None \<Rightarrow> None | Some d \<Rightarrow> if length d \<ge> dirlen then None else Some d)"

definition copy_resolved :: "git_world \<Rightarrow> nat \<Rightarrow> string \<Rightarrow> string option" where
  "copy_resolved W buflen path =
     (if \<not> git_file_usable W path \<or> buflen = 0 then None
      else case gw_real W path of None \<Rightarrow> None | Some r \<Rightarrow> if length r \<ge> buflen then None else Some r)"

definition exe_candidate :: "git_world \<Rightarrow> string option" where
  "exe_candidate W =
     (case gw_exe W of
        None \<Rightarrow> None
      | Some exe \<Rightarrow>
          if exe = [] then None
          else case git_dir_of exe of
                 None \<Rightarrow> None
               | Some d \<Rightarrow>
                   if length (d @ ''/resources/bin'') \<ge> ZP_PATH then None
                   else git_join ZP_PATH (Some (d @ ''/resources/bin'')))"

definition exe_resources_git :: "git_world \<Rightarrow> nat \<Rightarrow> string option" where
  "exe_resources_git W buflen =
     (case exe_candidate W of None \<Rightarrow> None | Some c \<Rightarrow> copy_resolved W buflen c)"

fun split_colon :: "string \<Rightarrow> string \<Rightarrow> string list" where
  "split_colon [] cur = [rev cur]"
| "split_colon (c # s) cur = (if c = CHR '':'' then rev cur # split_colon s [] else split_colon s (c # cur))"

fun path_loop :: "git_world \<Rightarrow> nat \<Rightarrow> string list \<Rightarrow> string option" where
  "path_loop W buflen [] = None"
| "path_loop W buflen (e # es) =
     (case Option.bind (git_join ZP_PATH (Some (if e = [] then ''.'' else e))) (copy_resolved W buflen) of
        Some g \<Rightarrow> Some g
      | None \<Rightarrow> path_loop W buflen es)"

definition git_from_path :: "git_world \<Rightarrow> nat \<Rightarrow> string option" where
  "git_from_path W buflen =
     (case gw_path W of
        None \<Rightarrow> None
      | Some p \<Rightarrow> if p = [] \<or> buflen = 0 then None else path_loop W buflen (split_colon p []))"

definition get_git_bin :: "git_world \<Rightarrow> string option" where
  "get_git_bin W =
     (case Option.bind (git_join ZP_PATH (gw_exec_path W)) (copy_resolved W ZP_PATH) of
        Some g \<Rightarrow> Some g
      | None \<Rightarrow>
          (case exe_resources_git W ZP_PATH of
             Some g \<Rightarrow> Some g
           | None \<Rightarrow> git_from_path W ZP_PATH))"

definition check_git_available :: "git_world \<Rightarrow> bool" where
  "check_git_available W =
     (case get_git_bin W of None \<Rightarrow> False | Some g \<Rightarrow> g \<noteq> [] \<and> git_file_usable W g)"

section \<open>Its environment\<close>

definition git_bundled :: "git_world \<Rightarrow> string \<Rightarrow> string \<Rightarrow> bool" where
  "git_bundled W git dir \<longleftrightarrow>
     Option.bind (git_join ZP_PATH (gw_exec_path W)) (copy_resolved W ZP_PATH) = Some git
     \<or> exe_resources_git W ZP_PATH = Some git
     \<or> (case join_file ZP_PATH dir ''git-remote-https'' of None \<Rightarrow> False | Some r \<Rightarrow> git_file_usable W r)"

definition git_exec_entry :: "git_world \<Rightarrow> string list" where
  "git_exec_entry W =
     (case get_git_bin W of
        None \<Rightarrow> []
      | Some git \<Rightarrow>
          (case parent_dir ZP_PATH git of
             None \<Rightarrow> []
           | Some dir \<Rightarrow> if git_bundled W git dir then [fit ZP_PATH (''GIT_EXEC_PATH='' @ dir)] else []))"

definition build_git_env :: "git_world \<Rightarrow> string list \<Rightarrow> string list" where
  "build_git_env W environ =
     filter (\<lambda>e. \<not> (env_key_is e ''GIT_EXEC_PATH'' \<or> env_key_is e ''GIT_TEMPLATE_DIR''
                     \<or> env_key_is e ''GIT_TERMINAL_PROMPT'')) environ
     @ git_exec_entry W @ [''GIT_TEMPLATE_DIR='', ''GIT_TERMINAL_PROMPT=0'']"

section \<open>Its standard error\<close>

definition git_markers :: "string list" where
  "git_markers = [''Receiving objects:'', ''Checking out files:'', ''Updating files:'', ''Updating index flags:'']"

text \<open>What follows the first occurrence, as \<^verbatim>\<open>strstr\<close> finds it.\<close>

fun after_sub :: "string \<Rightarrow> string \<Rightarrow> string option" where
  "after_sub m [] = (if m = [] then Some [] else None)"
| "after_sub m (c # s) = (if prefix m (c # s) then Some (drop (length m) (c # s)) else after_sub m s)"

fun progress_loop :: "string list \<Rightarrow> string \<Rightarrow> int option" where
  "progress_loop [] line = None"
| "progress_loop (m # ms) line =
     (case after_sub m line of
        None \<Rightarrow> progress_loop ms line
      | Some rest \<Rightarrow>
          let pct = to_s32 (fst (strtol10 (dropWhile (\<lambda>c. c = CHR '' '') rest)))
          in if 0 \<le> pct \<and> pct \<le> 100 then Some pct else progress_loop ms line)"

definition parse_git_progress :: "string \<Rightarrow> int option" where
  "parse_git_progress line = progress_loop git_markers line"

definition git_stderr_is_noise :: "string \<Rightarrow> bool" where
  "git_stderr_is_noise line \<longleftrightarrow>
     line = [] \<or> parse_git_progress line \<noteq> None
     \<or> prefix ''remote: Counting objects:'' line \<or> prefix ''remote: Compressing objects:'' line
     \<or> prefix ''remote: Enumerating objects:'' line \<or> sublist ''Authorization:'' line"

text \<open>What a line does: a position of the progress bar, in per cent, and a line of the log. While Git is silent the
  bar is nudged, in per mille.\<close>

datatype git_note = GN_Progress int | GN_Nudge nat | GN_Log string

definition note_git_stderr_line :: "bool \<Rightarrow> string \<Rightarrow> git_note list" where
  "note_git_stderr_line has_bar line =
     (case parse_git_progress line of Some pct \<Rightarrow> if has_bar then [GN_Progress pct] else [] | None \<Rightarrow> [])
     @ (if git_stderr_is_noise line then [] else [GN_Log (''cheats: git: '' @ line)])"

text \<open>One pass over the buffer: the lines it completes and the bytes that stay. A line is read as a C string.\<close>

definition cstr :: "string \<Rightarrow> string" where
  "cstr s = takeWhile (\<lambda>c. c \<noteq> CHR 0x00) s"

fun cut_lines :: "string \<Rightarrow> string \<Rightarrow> string list \<times> string" where
  "cut_lines cur [] = ([], cur)"
| "cut_lines cur (c # s) =
     (if c = c_cr \<or> c = c_nl then
        (let s' = (if c = c_cr \<and> s \<noteq> [] \<and> hd s = c_nl then tl s else s);
             (ls, rest) = cut_lines [] s'
         in (if cur = [] then ls else cur # ls, rest))
      else cut_lines (cur @ [c]) s)"

text \<open>What the reading loop meets: \<^verbatim>\<open>poll\<close> interrupted, failing, timing out, or \<open>n\<close> bytes for the read. The
  bytes Git has still to write are \<open>gs_pipe\<close>; a read that gets none, at the end of the stream or for want
  of room, ends the loop.\<close>

datatype git_event = GE_Intr | GE_PollFail | GE_Timeout | GE_Ready nat

record git_stream =
  gs_pipe :: string
  gs_buf :: string
  gs_killed :: bool
  gs_timeouts :: nat
  gs_real :: bool
  gs_notes :: "git_note list"

definition note_line :: "bool \<Rightarrow> git_stream \<Rightarrow> string \<Rightarrow> git_stream" where
  "note_line has_bar g line =
     g\<lparr>gs_real := gs_real g \<or> has_bar \<and> parse_git_progress (cstr line) \<noteq> None,
       gs_notes := gs_notes g @ note_git_stderr_line has_bar (cstr line)\<rparr>"

definition git_timeout :: "bool \<Rightarrow> git_stream \<Rightarrow> git_stream" where
  "git_timeout has_bar g =
     (let t = gs_timeouts g + 1; g = g\<lparr>gs_timeouts := t\<rparr>
      in if t > 4 \<and> has_bar \<and> \<not> gs_real g then g\<lparr>gs_notes := gs_notes g @ [GN_Nudge (min 900 ((t - 4) * 5))]\<rparr> else g)"

abbreviation (input) "GIT_BUF \<equiv> (4096 :: nat)"

definition git_read :: "bool \<Rightarrow> nat \<Rightarrow> git_stream \<Rightarrow> git_stream option" where
  "git_read has_bar n g =
     (let k = min n (GIT_BUF - length (gs_buf g) - 1); got = take k (gs_pipe g)
      in if got = [] then None
         else let (ls, rest) = cut_lines [] (gs_buf g @ got)
              in Some ((foldl (note_line has_bar) g ls)\<lparr>gs_pipe := drop k (gs_pipe g), gs_buf := rest\<rparr>))"

definition git_kill :: "bool \<Rightarrow> git_stream \<Rightarrow> git_stream" where
  "git_kill interrupted g = g\<lparr>gs_killed := gs_killed g \<or> interrupted\<rparr>"

fun git_loop :: "bool \<Rightarrow> (bool \<times> git_event) list \<Rightarrow> git_stream \<Rightarrow> git_stream" where
  "git_loop has_bar [] g = g"
| "git_loop has_bar ((interrupted, e) # es) g =
     (let g = git_kill interrupted g
      in case e of
           GE_Intr \<Rightarrow> git_loop has_bar es g
         | GE_PollFail \<Rightarrow> g
         | GE_Timeout \<Rightarrow> git_loop has_bar es (git_timeout has_bar g)
         | GE_Ready n \<Rightarrow> (case git_read has_bar n g of None \<Rightarrow> g | Some g' \<Rightarrow> git_loop has_bar es g'))"

definition git_flush :: "bool \<Rightarrow> git_stream \<Rightarrow> git_stream" where
  "git_flush has_bar g = (if gs_buf g = [] then g else note_line has_bar g (gs_buf g))"

definition git_start :: "string \<Rightarrow> git_stream" where
  "git_start out = \<lparr>gs_pipe = out, gs_buf = [], gs_killed = False, gs_timeouts = 0, gs_real = False, gs_notes = []\<rparr>"

datatype cheat_op = CHEAT_OP_OK | CHEAT_OP_ERROR | CHEAT_OP_CANCELLED | CHEAT_OP_BUSY

text \<open>How one run of the program goes: the pipe, the fork, what it writes, what the loop meets and its
  exit status, \<open>None\<close> when it was killed by a signal.\<close>

record git_run =
  gr_pipe_ok :: bool
  gr_fork_ok :: bool
  gr_out :: string
  gr_events :: "(bool \<times> git_event) list"
  gr_status :: "int option"

definition run_git_streaming :: "bool \<Rightarrow> git_run \<Rightarrow> cheat_op \<times> git_note list" where
  "run_git_streaming has_bar r =
     (if \<not> gr_pipe_ok r \<or> \<not> gr_fork_ok r then (CHEAT_OP_ERROR, [])
      else let g = git_flush has_bar (git_loop has_bar (gr_events r) (git_start (gr_out r)))
           in (if gs_killed g then CHEAT_OP_CANCELLED
               else if gr_status r = Some 0 then CHEAT_OP_OK else CHEAT_OP_ERROR, gs_notes g))"

text \<open>The capture of the first \<open>cap - 1\<close> bytes of the output, into a buffer of zeros.\<close>

definition run_git_capture :: "git_run \<Rightarrow> nat \<Rightarrow> int \<times> string" where
  "run_git_capture r cap =
     (if \<not> gr_pipe_ok r \<or> \<not> gr_fork_ok r then (-1, [])
      else ((case gr_status r of Some v \<Rightarrow> v | None \<Rightarrow> -1), take (cap - 1) (gr_out r)))"

end
