(* ===== verification/Cheat_Repo.thy ===== *)
theory Cheat_Repo
  imports Cheat_List Cheat_Git Systems_Map
begin

text \<open>
  The local copy of the cheat database and the download of the cheats of a system,
  \<^verbatim>\<open>zcrapegoat/src/src/cheats.c\<close>: the lock around the Git runs, clone, update and sparse checkout, and
  the loop over the ROMs. The runs of Git, the file system and the interrupt flag are inputs.
\<close>

section \<open>The lock\<close>

text \<open>A thread is a process and a number in it. \<open>rl_mutex\<close> is the mutex of each process, \<open>rl_flock\<close> the thread
  whose open file holds the lock of the lock file, \<open>rl_fd\<close> whether a thread's lock object has a descriptor.\<close>

type_synonym thread = "nat \<times> nat"

record repo_lock =
  rl_mutex :: "nat \<Rightarrow> bool"
  rl_flock :: "thread option"
  rl_fd :: "thread \<Rightarrow> bool"

definition acquire_repo_lock :: "thread \<Rightarrow> bool \<Rightarrow> bool \<Rightarrow> repo_lock \<Rightarrow> cheat_op \<times> repo_lock" where
  "acquire_repo_lock t open_ok flock_ok s =
     (let s = s\<lparr>rl_fd := (rl_fd s)(t := False)\<rparr>
      in if rl_mutex s (fst t) then (CHEAT_OP_BUSY, s)
         else if \<not> open_ok then (CHEAT_OP_ERROR, s)
         else if rl_flock s \<noteq> None then (CHEAT_OP_BUSY, s)
         else if \<not> flock_ok then (CHEAT_OP_ERROR, s)
         else (CHEAT_OP_OK, s\<lparr>rl_mutex := (rl_mutex s)(fst t := True), rl_flock := Some t, rl_fd := (rl_fd s)(t := True)\<rparr>))"

definition release_repo_lock :: "thread \<Rightarrow> repo_lock \<Rightarrow> repo_lock" where
  "release_repo_lock t s =
     (if \<not> rl_fd s t then s
      else s\<lparr>rl_mutex := (rl_mutex s)(fst t := False), rl_flock := None, rl_fd := (rl_fd s)(t := False)\<rparr>)"

text \<open>Threads run Git one after the other or at once: a thread that is not running it may try to take the
  lock, and one that holds it gives it back when its run ends.\<close>

inductive lock_step :: "repo_lock \<Rightarrow> repo_lock \<Rightarrow> bool" where
  lock_take: "\<not> rl_fd s t \<Longrightarrow> lock_step s (snd (acquire_repo_lock t open_ok flock_ok s))"
| lock_give: "lock_step s (release_repo_lock t s)"

definition lock_free :: repo_lock where
  "lock_free = \<lparr>rl_mutex = \<lambda>p. False, rl_flock = None, rl_fd = \<lambda>t. False\<rparr>"

section \<open>Git runs on the database\<close>

text \<open>A run with its lock: the result of taking the lock and how the program goes.\<close>

type_synonym git_call = "cheat_op \<times> git_run"

text \<open>The commands that were started are the second component.\<close>

definition run_repo_git_streaming :: "bool \<Rightarrow> string list \<Rightarrow> git_call \<Rightarrow> cheat_op \<times> string list list" where
  "run_repo_git_streaming has_bar argv call =
     (if fst call \<noteq> CHEAT_OP_OK then (fst call, []) else (fst (run_git_streaming has_bar (snd call)), [argv]))"

definition git_http :: "string list" where
  "git_http = [''-c'', ''http.connectTimeout=10'', ''-c'', ''http.lowSpeedLimit=100'', ''-c'', ''http.lowSpeedTime=30'']"

record repo_world =
  rw_git :: git_world
  rw_repo :: string
  rw_bar :: bool
  rw_clone :: git_call
  rw_fetch :: git_call
  rw_head :: git_run
  rw_fetch_head :: git_run
  rw_merge :: git_call
  rw_checkout :: git_call

definition init_cheat_repo :: "repo_world \<Rightarrow> cheat_op \<times> string list list" where
  "init_cheat_repo W =
     (if \<not> check_git_available (rw_git W) then (CHEAT_OP_ERROR, [])
      else case get_git_bin (rw_git W) of
             None \<Rightarrow> (CHEAT_OP_ERROR, [])
           | Some git \<Rightarrow>
               run_repo_git_streaming (rw_bar W)
                 ([git] @ git_http @ [''clone'', ''--sparse'', ''--filter=blob:none'', ''--depth=1'', ''--branch'', ''master'',
                   ''--single-branch'', ''--no-tags'', ''--progress'',
                   ''https://github.com/libretro/libretro-database.git'', rw_repo W])
                 (rw_clone W))"

definition ensure_system_checked_out :: "repo_world \<Rightarrow> bool \<Rightarrow> string \<Rightarrow> cheat_op \<times> string list list" where
  "ensure_system_checked_out W present libretro_dir_name =
     (if present then (CHEAT_OP_OK, [])
      else case get_git_bin (rw_git W) of
             None \<Rightarrow> (CHEAT_OP_ERROR, [])
           | Some git \<Rightarrow>
               run_repo_git_streaming (rw_bar W)
                 ([git] @ git_http @ [''-C'', rw_repo W, ''sparse-checkout'', ''add'', fit 512 (''cht/'' @ libretro_dir_name)])
                 (rw_checkout W))"

definition same_commit :: "repo_world \<Rightarrow> bool" where
  "same_commit W \<longleftrightarrow>
     fst (run_git_capture (rw_head W) 64) = 0 \<and> fst (run_git_capture (rw_fetch_head W) 64) = 0
     \<and> line_of (cstr (snd (run_git_capture (rw_head W) 64))) = line_of (cstr (snd (run_git_capture (rw_fetch_head W) 64)))"

definition update_cheat_repo :: "repo_world \<Rightarrow> cheat_op \<times> string list list" where
  "update_cheat_repo W =
     (case get_git_bin (rw_git W) of
        None \<Rightarrow> (CHEAT_OP_ERROR, [])
      | Some git \<Rightarrow>
          (case run_repo_git_streaming (rw_bar W)
                  ([git] @ git_http @ [''-C'', rw_repo W, ''fetch'', ''--filter=blob:none'', ''--progress'']) (rw_fetch W) of
             (ret, cmds) \<Rightarrow>
               if ret \<noteq> CHEAT_OP_OK then (ret, cmds)
               else if same_commit W then (CHEAT_OP_OK, cmds)
               else (case run_repo_git_streaming (rw_bar W)
                            [git, ''-C'', rw_repo W, ''merge'', ''--ff-only'', ''FETCH_HEAD''] (rw_merge W) of
                       (ret', cmds') \<Rightarrow> (ret', cmds @ cmds'))))"

section \<open>The download\<close>

datatype run_status = RUN_OK | RUN_CANCELLED | RUN_ERROR

record scrape_summary =
  ss_total :: nat
  ss_found :: nat
  ss_not_found :: nat
  ss_errors :: nat

record run_result =
  rr_status :: run_status
  rr_summary :: scrape_summary
  rr_error :: string

definition no_summary :: scrape_summary where
  "no_summary = \<lparr>ss_total = 0, ss_found = 0, ss_not_found = 0, ss_errors = 0\<rparr>"

definition make_run_result :: "run_status \<Rightarrow> scrape_summary \<Rightarrow> string \<Rightarrow> run_result" where
  "make_run_result status summary err = \<lparr>rr_status = status, rr_summary = summary, rr_error = fit 256 err\<rparr>"

definition make_run_error :: "scrape_summary \<Rightarrow> string \<Rightarrow> run_result" where
  "make_run_error summary msg = \<lparr>rr_status = RUN_ERROR, rr_summary = summary, rr_error = fit 256 msg\<rparr>"

text \<open>A ROM of the loop: its display name, the interrupt flag when its turn comes, and how its copy goes.\<close>

type_synonym rom_turn = "string \<times> bool \<times> copy_outcome"
type_synonym files = "string \<rightharpoonup> string"

definition rom_cheat :: "cheat_list \<Rightarrow> string list \<Rightarrow> string \<Rightarrow> string \<Rightarrow> string \<Rightarrow> copy_outcome \<Rightarrow> scrape_summary \<Rightarrow> files \<Rightarrow> scrape_summary \<times> files" where
  "rom_cheat l prio base tag rom io sm fs =
     (case match_cheat rom l prio of
        None \<Rightarrow> (sm\<lparr>ss_not_found := ss_not_found sm + 1\<rparr>, fs)
      | Some src \<Rightarrow>
          let dest = cheat_path base tag rom
          in if fs dest \<noteq> None then (sm\<lparr>ss_found := ss_found sm + 1\<rparr>, fs)
             else case copy_cheat_file io src dest fs of
                    (ok, fs') \<Rightarrow> (if ok then sm\<lparr>ss_found := ss_found sm + 1\<rparr> else sm\<lparr>ss_errors := ss_errors sm + 1\<rparr>, fs'))"

text \<open>The result says whether the loop was cancelled.\<close>

fun rom_loop :: "cheat_list \<Rightarrow> string list \<Rightarrow> string \<Rightarrow> string \<Rightarrow> rom_turn list \<Rightarrow> scrape_summary \<Rightarrow> files \<Rightarrow> bool \<times> scrape_summary \<times> files" where
  "rom_loop l prio base tag [] sm fs = (False, sm, fs)"
| "rom_loop l prio base tag ((rom, interrupted, io) # ts) sm fs =
     (if interrupted then (True, sm, fs)
      else case rom_cheat l prio base tag rom io sm fs of (sm', fs') \<Rightarrow> rom_loop l prio base tag ts sm' fs')"

text \<open>Preparing the database: an early result, or that the loop may begin. Of a failed update the existing
  data are used.\<close>

definition op_failed :: "cheat_op \<Rightarrow> string \<Rightarrow> run_result option" where
  "op_failed op msg =
     (case op of
        CHEAT_OP_OK \<Rightarrow> None
      | CHEAT_OP_CANCELLED \<Rightarrow> Some (make_run_result RUN_CANCELLED no_summary [])
      | CHEAT_OP_BUSY \<Rightarrow> Some (make_run_error no_summary ''Cheat database is busy. Please wait for the current operation to finish.'')
      | CHEAT_OP_ERROR \<Rightarrow> Some (make_run_error no_summary msg))"

record download_world = repo_world +
  dw_paths :: path_env
  dw_sys :: sys
  dw_initialized :: bool
  dw_dir_before :: bool
  dw_dir_after :: bool
  dw_names :: "string list option"
  dw_roms :: "rom_turn list option"
  dw_base :: string
  dw_prio :: "string list"

definition prepare_repo :: "download_world \<Rightarrow> run_result option \<times> string list list" where
  "prepare_repo W =
     (if \<not> dw_initialized W then
        (case init_cheat_repo (repo_world.truncate W) of (op, cmds) \<Rightarrow> (op_failed op ''Failed to clone the cheat database.'', cmds))
      else if dw_dir_before W then
        (case update_cheat_repo (repo_world.truncate W) of
           (op, cmds) \<Rightarrow> (if op = CHEAT_OP_ERROR then None else op_failed op [], cmds))
      else (None, []))"

definition copy_cheats :: "download_world \<Rightarrow> string \<Rightarrow> string \<Rightarrow> files \<Rightarrow> run_result \<times> files" where
  "copy_cheats W dir tag fs =
     (case build_cheat_list (rw_repo W) dir (dw_names W) of
        None \<Rightarrow> (make_run_error no_summary ''Failed to build the cheat list for this system.'', fs)
      | Some l \<Rightarrow>
          if l = [] then (make_run_error no_summary ''No cheats are available for this system.'', fs)
          else case dw_roms W of
                 None \<Rightarrow> (make_run_error no_summary ''Could not read ROM files for this system.'', fs)
               | Some roms \<Rightarrow>
                   (case rom_loop l (dw_prio W) (dw_base W) tag roms (no_summary\<lparr>ss_total := length roms\<rparr>) fs of
                      (cancelled, sm, fs') \<Rightarrow> (make_run_result (if cancelled then RUN_CANCELLED else RUN_OK) sm [], fs')))"

definition download_cheats_for_console :: "download_world \<Rightarrow> string \<Rightarrow> string \<Rightarrow> files \<Rightarrow> run_result \<times> files \<times> string list list" where
  "download_cheats_for_console W path tag fs =
     (case m_platform (systems_resolve (dw_paths W) (dw_sys W) path tag) of
        None \<Rightarrow> (make_run_error no_summary ''No scraping platform is selected for this folder.'', fs, [])
      | Some n \<Rightarrow>
          (case p_dir (c_platforms (sy_cat (dw_sys W)) ! n) of
             None \<Rightarrow> (make_run_error no_summary ''Libretro has no cheat database for this platform.'', fs, [])
           | Some dir \<Rightarrow>
               (case prepare_repo W of
                  (Some r, cmds) \<Rightarrow> (r, fs, cmds)
                | (None, cmds) \<Rightarrow>
                    (case ensure_system_checked_out (repo_world.truncate W) (dw_dir_after W) dir of
                       (op, cmds') \<Rightarrow>
                         (case op_failed op ''Failed to check out cheats for this system.'' of
                            Some r \<Rightarrow> (r, fs, cmds @ cmds')
                          | None \<Rightarrow> (case copy_cheats W dir tag fs of (r, fs') \<Rightarrow> (r, fs', cmds @ cmds')))))))"

end
