(* ===== verification/Cheat_Props.thy ===== *)
theory Cheat_Props
  imports Cheat_List
begin

text \<open>
  The index of cheat files is the grouping of the files by their keys, the choice for a ROM is the first
  best one, and normalised names are a normal form.
\<close>

section \<open>Normal form of names\<close>

text \<open>Characters a normalised name may have, and the separation of its words.\<close>

definition plain_char :: "char \<Rightarrow> bool" where
  "plain_char c \<longleftrightarrow> \<not> is_punct c \<and> (is_space c \<longrightarrow> c = CHR '' '') \<and> lower c = c"

fun single_spaced :: "bool \<Rightarrow> string \<Rightarrow> bool" where
  "single_spaced prev [] = True"
| "single_spaced prev (c # s) = (if c = CHR '' '' then \<not> prev \<and> single_spaced True s else single_spaced False s)"

definition normal_name :: "string \<Rightarrow> bool" where
  "normal_name s \<longleftrightarrow> (\<forall>c \<in> set s. plain_char c) \<and> single_spaced True s \<and> (s = [] \<or> last s \<noteq> CHR '' '')"

lemma lower_val: "char_val (lower c) = (if 65 \<le> char_val c \<and> char_val c \<le> 90 then char_val c + 32 else char_val c)"
  by (simp add: lower_def char_val_char_of)

lemma is_space_val: "is_space c \<longleftrightarrow> char_val c = 32 \<or> 9 \<le> char_val c \<and> char_val c \<le> 13"
proof -
  have "(of_char c = (of_char (CHR '' '') :: nat)) = (c = CHR '' '')" by (rule of_char_eq_iff)
  moreover have "(of_char (CHR '' '') :: nat) = 32" by simp
  ultimately have "char_val c = 32 \<longleftrightarrow> c = CHR '' ''" by (simp only: char_val_def)
  then show ?thesis by (simp add: is_space_def)
qed

lemma plain_lower:
  assumes "\<not> is_punct c" "\<not> is_space c"
  shows "plain_char (lower c)" "lower c \<noteq> CHR '' ''"
proof -
  have v: "\<not> is_punct (lower c)" "\<not> is_space (lower c)"
    using assms by (auto simp: is_punct_def is_space_val lower_val Let_def split: if_splits)
  moreover have "lower (lower c) = lower c"
    by (cases "65 \<le> char_val c \<and> char_val c \<le> 90") (auto simp: lower_def [of "lower c"] lower_val)
  ultimately show "plain_char (lower c)" by (simp add: plain_char_def)
  show "lower c \<noteq> CHR '' ''" using v(2) by (auto simp: is_space_def)
qed

lemma plain_space: "plain_char (CHR '' '')"
  by (simp add: plain_char_def is_punct_def char_val_def lower_def)

lemma normalize_loop_form:
  "(\<forall>c \<in> set (normalize_loop n prev s). plain_char c) \<and> single_spaced prev (normalize_loop n prev s) \<and> length (normalize_loop n prev s) \<le> n"
proof (induction n prev s rule: normalize_loop.induct)
  case (2 n prev c s)
  then show ?case using plain_lower [of c] plain_space by auto
qed simp

lemma single_spaced_butlast: "single_spaced prev s \<Longrightarrow> single_spaced prev (butlast s)"
  by (induction prev s rule: single_spaced.induct) auto

lemma single_spaced_two: "single_spaced prev (s @ [a, b]) \<Longrightarrow> \<not> (a = CHR '' '' \<and> b = CHR '' '')"
  by (induction s arbitrary: prev) (auto split: if_splits)

lemma single_spaced_last:
  assumes "single_spaced prev s" "s \<noteq> []" "last s = CHR '' ''" "butlast s \<noteq> []"
  shows "last (butlast s) \<noteq> CHR '' ''"
proof -
  have "s = butlast (butlast s) @ [last (butlast s), last s]"
    using assms(2,4) by (metis append_assoc append_Cons append_Nil append_butlast_last_id)
  then show ?thesis using single_spaced_two assms(1,3) by metis
qed

lemma normalize_normal: "normal_name (normalize_cheat_name s n) \<and> length (normalize_cheat_name s n) \<le> n - 1"
proof -
  let ?l = "normalize_loop (n - 1) True (strip_parentheticals s 512)"
  have f: "\<forall>c \<in> set ?l. plain_char c" "single_spaced True ?l" "length ?l \<le> n - 1"
    using normalize_loop_form [of "n - 1" True "strip_parentheticals s 512"] by auto
  show ?thesis
  proof (cases "?l \<noteq> [] \<and> last ?l = CHR '' ''")
    case True
    have "butlast ?l = [] \<or> last (butlast ?l) \<noteq> CHR '' ''" using single_spaced_last [OF f(2)] True by blast
    then show ?thesis
      using True f single_spaced_butlast [OF f(2)]
      by (auto simp: normalize_cheat_name_def drop_last_space_def normal_name_def dest: in_set_butlastD)
  next
    case False
    then show ?thesis using f by (auto simp: normalize_cheat_name_def drop_last_space_def normal_name_def)
  qed
qed

text \<open>A normal name is left alone.\<close>

lemma strip_loop_plain: "\<forall>c \<in> set s. plain_char c \<Longrightarrow> length s \<le> n \<Longrightarrow> strip_loop n 0 s = s"
proof (induction s arbitrary: n)
  case (Cons c s)
  have "c \<noteq> CHR ''(''" "c \<noteq> CHR '')''" using Cons.prems(1) by (auto simp: plain_char_def is_punct_def char_val_def)
  then show ?case using Cons by simp
qed simp

lemma normalize_loop_plain:
  assumes "\<forall>c \<in> set s. plain_char c" "single_spaced prev s" "length s \<le> n"
  shows "normalize_loop n prev s = s"
  using assms
proof (induction s arbitrary: n prev)
  case (Cons c s)
  have c: "\<not> is_punct c" "is_space c \<Longrightarrow> c = CHR '' ''" "lower c = c" using Cons.prems(1) by (auto simp: plain_char_def)
  have sp: "is_space (CHR '' '')" by (simp add: is_space_def)
  show ?case
  proof (cases "c = CHR '' ''")
    case True
    then have "\<not> prev" "single_spaced True s" using Cons.prems(2) by auto
    then show ?thesis using Cons.IH [of True "n - 1"] Cons.prems True c(1) sp by simp
  next
    case False
    then have "single_spaced False s" "\<not> is_space c" using Cons.prems(2) c(2) by auto
    then show ?thesis using Cons.IH [of False "n - 1"] Cons.prems c(1,3) by simp
  qed
qed simp

lemma normalize_fixed:
  assumes "normal_name s" "length s < n" "n \<le> 512"
  shows "normalize_cheat_name s n = s"
proof -
  have p: "\<forall>c \<in> set s. plain_char c" "single_spaced True s" "s = [] \<or> last s \<noteq> CHR '' ''" using assms(1) by (auto simp: normal_name_def)
  have "strip_loop 511 0 s = s" using assms(2,3) by (intro strip_loop_plain [OF p(1)]) simp
  moreover have "dropWhile (\<lambda>c. c = CHR '' '') (rev s) = rev s" using p(3) by (cases s rule: rev_cases) auto
  ultimately have "strip_parentheticals s 512 = s" by (simp add: strip_parentheticals_def)
  moreover have "normalize_loop (n - 1) True s = s" using assms(2) by (intro normalize_loop_plain [OF p(1,2)]) simp
  ultimately show ?thesis using p(3) by (auto simp: normalize_cheat_name_def drop_last_space_def)
qed

section \<open>The index\<close>

definition cands :: "cheat_list \<Rightarrow> string \<Rightarrow> cheat_candidate list" where
  "cands l k = (case cheat_list_find l k of None \<Rightarrow> [] | Some e \<Rightarrow> ce_candidates e)"

lemma cands_add:
  assumes "length key < 256"
  shows "cands (cheat_list_add_internal l key path regions) k
    = cands l k @ (if k = key then [\<lparr>cc_path = fit ZP_PATH path, cc_regions = take 16 regions\<rparr>] else [])"
  using assms unfolding cheat_list_add_internal_def
  by (induction l) (auto simp: cands_def cheat_list_find_def)

definition file_keys :: "string \<Rightarrow> string list" where
  "file_keys name = (let g = game_name_of name; key = normalize_cheat_name g 256 in key # collect_cheat_alias_keys g key)"

definition file_candidate :: "string \<Rightarrow> string \<Rightarrow> cheat_candidate" where
  "file_candidate cheat_dir name = \<lparr>cc_path = fit ZP_PATH (cheat_dir @ ''/'' @ name), cc_regions = extract_cheat_regions (game_name_of name) 16\<rparr>"

lemma alias_loop_keys:
  assumes "alias_loop full parts keys = Some ks" "distinct keys" "\<forall>k \<in> set keys. k \<noteq> full \<and> length k < 256"
  shows "distinct ks \<and> (\<forall>k \<in> set ks. k \<noteq> full \<and> length k < 256)"
  using assms
proof (induction full parts keys rule: alias_loop.induct)
  case (2 full part parts keys)
  let ?k = "normalize_cheat_name (fit 256 part) 256"
  let ?ks = "if ?k \<in> set keys then keys else keys @ [?k]"
  have l: "length ?k < 256" using normalize_normal [of "fit 256 part" 256] by simp
  have n: "\<not> (?k = [] \<or> ?k = full \<or> count_normalized_tokens ?k < 2)"
    using "2.prems"(1) by (simp only: alias_loop.simps Let_def split: if_splits) simp_all
  then have h: "alias_loop full parts ?ks = Some ks" using "2.prems"(1) by (simp only: alias_loop.simps Let_def if_False)
  have d: "distinct ?ks" using "2.prems"(2) by simp
  have e: "\<forall>k \<in> set ?ks. k \<noteq> full \<and> length k < 256" using "2.prems"(3) n l by simp
  show ?case by (rule "2.IH" [OF refl n h d e])
qed simp

lemma file_keys_ok: "distinct (file_keys name) \<and> (\<forall>k \<in> set (file_keys name). length k < 256)"
proof -
  let ?g = "game_name_of name"
  let ?k = "normalize_cheat_name ?g 256"
  have "distinct (collect_cheat_alias_keys ?g ?k) \<and> (\<forall>k \<in> set (collect_cheat_alias_keys ?g ?k). k \<noteq> ?k \<and> length k < 256)"
    using alias_loop_keys [of ?k _ "[]"] by (auto simp: collect_cheat_alias_keys_def Let_def split: option.splits)
  moreover have "length ?k < 256" using normalize_normal [of ?g 256] by simp
  ultimately show ?thesis by (auto simp: file_keys_def Let_def)
qed

lemma regions_bound: "length (extract_cheat_regions s n) \<le> n"
proof -
  have "length (foldl (add_region n) rs items) \<le> n" if "length rs \<le> n" for rs items
    using that by (induction items arbitrary: rs) (auto simp: add_region_def Let_def split: option.splits)
  then show ?thesis by (simp add: extract_cheat_regions_def)
qed

lemma fit_fit [simp]: "fit n (fit n s) = fit n s"
  by (simp add: fit_def)

lemma index_file_cands:
  "cands (index_file d l name) k = cands l k @ (if is_cht_name name \<and> k \<in> set (file_keys name) then [file_candidate d name] else [])"
proof (cases "is_cht_name name")
  case True
  let ?path = "fit ZP_PATH (d @ ''/'' @ name)" and ?r = "extract_cheat_regions (game_name_of name) 16"
  have fold: "cands (foldl (\<lambda>l k. cheat_list_add_internal l k ?path ?r) l0 ks) k
      = cands l0 k @ (if k \<in> set ks then [file_candidate d name] else [])"
    if "distinct ks" "\<forall>k \<in> set ks. length k < 256" for l0 ks
    using that regions_bound [of "game_name_of name" 16]
    by (induction ks arbitrary: l0) (auto simp: cands_add file_candidate_def)
  have "index_file d l name = foldl (\<lambda>l k. cheat_list_add_internal l k ?path ?r) l (file_keys name)"
    using True by (simp add: index_file_def file_keys_def Let_def)
  then show ?thesis using fold [of "file_keys name" l] file_keys_ok [of name] True by simp
qed (simp add: index_file_def)

lemma index_files_cands:
  "cands (foldl (index_file d) l names) k
    = cands l k @ map (file_candidate d) (filter (\<lambda>n. is_cht_name n \<and> k \<in> set (file_keys n)) names)"
  by (induction names arbitrary: l) (auto simp: index_file_cands)

section \<open>The choice\<close>

lemma prio_index_bound: "prio_index rs ps i = Some k \<Longrightarrow> k < i + length ps"
  by (induction rs ps i rule: prio_index.induct) (auto split: if_splits)

lemma score_nonneg:
  assumes "length prio \<le> 100"
  shows "0 \<le> candidate_score rom prio c"
  using assms prio_index_bound [of "cc_regions c" prio 0]
  by (fastforce simp: candidate_score_def score_cheat_region_def split: option.splits)

lemma best_candidate_first_max:
  assumes "\<forall>c \<in> set cs. 0 \<le> score c" "best \<ge> -1"
  shows "(\<forall>c \<in> set cs. score c \<le> best) \<and> best_candidate score best path cs = path
    \<or> (\<exists>i < length cs. best_candidate score best path cs = cc_path (cs ! i) \<and> best < score (cs ! i)
        \<and> (\<forall>j < length cs. score (cs ! j) \<le> score (cs ! i)) \<and> (\<forall>j < i. score (cs ! j) < score (cs ! i)))"
  using assms
proof (induction cs arbitrary: best path)
  case (Cons c cs)
  show ?case
  proof (cases "score c > best")
    case True
    have "-1 \<le> score c" using Cons.prems by auto
    from Cons.IH [OF _ this, of "cc_path c"] Cons.prems
    consider "\<forall>x \<in> set cs. score x \<le> score c" "best_candidate score (score c) (cc_path c) cs = cc_path c"
      | i where "i < length cs" "best_candidate score (score c) (cc_path c) cs = cc_path (cs ! i)" "score c < score (cs ! i)"
          "\<forall>j < length cs. score (cs ! j) \<le> score (cs ! i)" "\<forall>j < i. score (cs ! j) < score (cs ! i)" by auto
    then show ?thesis
    proof cases
      case 1
      then show ?thesis using True by (intro disjI2 exI [of _ 0]) (auto simp: nth_Cons split: nat.splits)
    next
      case (2 i)
      then show ?thesis using True by (intro disjI2 exI [of _ "Suc i"]) (auto simp: nth_Cons split: nat.splits)
    qed
  next
    case False
    from Cons.IH [of best path] Cons.prems
    consider "\<forall>x \<in> set cs. score x \<le> best" "best_candidate score best path cs = path"
      | i where "i < length cs" "best_candidate score best path cs = cc_path (cs ! i)" "best < score (cs ! i)"
          "\<forall>j < length cs. score (cs ! j) \<le> score (cs ! i)" "\<forall>j < i. score (cs ! j) < score (cs ! i)" by auto
    then show ?thesis
    proof cases
      case 1
      then show ?thesis using False by auto
    next
      case (2 i)
      then show ?thesis using False by (intro disjI2 exI [of _ "Suc i"]) (auto simp: nth_Cons split: nat.splits)
    qed
  qed
qed simp

lemma best_from_start:
  assumes "cs \<noteq> []" "\<forall>c \<in> set cs. 0 \<le> score c"
  shows "\<exists>i < length cs. best_candidate score (-1) (cc_path (hd cs)) cs = cc_path (cs ! i)
    \<and> (\<forall>j < length cs. score (cs ! j) \<le> score (cs ! i)) \<and> (\<forall>j < i. score (cs ! j) < score (cs ! i))"
proof -
  have "\<not> (\<forall>c \<in> set cs. score c \<le> - 1)" using assms by (cases cs) auto
  then show ?thesis using best_candidate_first_max [OF assms(2), of "-1" "cc_path (hd cs)"] by auto
qed

lemma match_best:
  assumes "length prio \<le> 100"
  shows "match_cheat rom l prio = None \<and> cands l (normalize_cheat_name rom 256) = []
    \<or> (\<exists>i < length (cands l (normalize_cheat_name rom 256)).
         match_cheat rom l prio = Some (cc_path (cands l (normalize_cheat_name rom 256) ! i))
         \<and> (\<forall>j < length (cands l (normalize_cheat_name rom 256)).
              candidate_score rom prio (cands l (normalize_cheat_name rom 256) ! j)
              \<le> candidate_score rom prio (cands l (normalize_cheat_name rom 256) ! i))
         \<and> (\<forall>j < i. candidate_score rom prio (cands l (normalize_cheat_name rom 256) ! j)
              < candidate_score rom prio (cands l (normalize_cheat_name rom 256) ! i)))"
proof -
  let ?cs = "cands l (normalize_cheat_name rom 256)"
  have n: "\<forall>c \<in> set ?cs. 0 \<le> candidate_score rom prio c" using score_nonneg [OF assms] by blast
  show ?thesis
  proof (cases ?cs)
    case Nil
    then show ?thesis by (auto simp: cands_def match_cheat_def split: option.splits)
  next
    case (Cons c cs)
    obtain e where e: "cheat_list_find l (normalize_cheat_name rom 256) = Some e" "ce_candidates e = c # cs"
      using Cons by (auto simp: cands_def split: option.splits)
    have "match_cheat rom l prio = Some (best_candidate (candidate_score rom prio) (-1) (cc_path c) (c # cs))"
      using e n Cons by (cases cs) (auto simp: match_cheat_def)
    then show ?thesis using best_from_start [OF _ n] Cons by auto
  qed
qed

text \<open>
  C30 (functional). The cheat file of a ROM is chosen from exactly the files of the folder whose title, or one
  of whose alternate titles, is the normalised title of the ROM: none when there is no such file, otherwise
  the first of those with the best score for region and device.
\<close>

theorem cheat_match_best:
  assumes "length prio \<le> 100" "build_cheat_list repo dir (Some names) = Some l"
    "cs = map (file_candidate (fit 4096 (repo @ ''/cht/'' @ dir)))
            (filter (\<lambda>n. is_cht_name n \<and> normalize_cheat_name rom 256 \<in> set (file_keys n)) names)"
  shows "match_cheat rom l prio = None \<and> cs = []
    \<or> (\<exists>i < length cs. match_cheat rom l prio = Some (cc_path (cs ! i))
         \<and> (\<forall>j < length cs. candidate_score rom prio (cs ! j) \<le> candidate_score rom prio (cs ! i))
         \<and> (\<forall>j < i. candidate_score rom prio (cs ! j) < candidate_score rom prio (cs ! i)))"
proof -
  have "cands l (normalize_cheat_name rom 256) = cs"
    using assms(2,3) index_files_cands [of "fit 4096 (repo @ ''/cht/'' @ dir)" "[]" names "normalize_cheat_name rom 256"]
    by (auto simp: build_cheat_list_def cands_def cheat_list_find_def)
  then show ?thesis using match_best [OF assms(1), of rom l] by simp
qed

lemma ex_lower:
  "map lower ''USA'' = ''usa''" "map lower ''Japan'' = ''japan''" "map lower ''Tetris'' = ''tetris''" "map lower ''Pong'' = ''pong''"
  "map lower ''.cht'' = ''.cht''"
  by code_simp+

lemmas ex_eval = is_cht_name_def game_name_of_def normalize_cheat_name_def strip_parentheticals_def is_punct_def is_space_def
  char_val_def drop_last_space_def ex_lower [simplified] extract_cheat_regions_def paren_groups.simps add_region_def trim_inplace_def
  cheat_region_map_def collect_cheat_alias_keys_def Let_def

definition ex_names :: "string list" where
  "ex_names = [''Tetris (Japan).cht'', ''Pong.cht'', ''Tetris (USA).cht'']"

lemma ex_keys:
  "is_cht_name ''Tetris (Japan).cht''" "is_cht_name ''Pong.cht''" "is_cht_name ''Tetris (USA).cht''"
  "file_keys ''Tetris (Japan).cht'' = [''tetris'']" "file_keys ''Pong.cht'' = [''pong'']" "file_keys ''Tetris (USA).cht'' = [''tetris'']"
  "normalize_cheat_name ''Tetris (USA)'' 256 = ''tetris''"
  by (simp_all add: file_keys_def ex_eval)

lemma ex_device:
  "\<not> is_device_specific_cheat ''/r/cht/GB/Tetris (Japan).cht''" "\<not> is_device_specific_cheat ''/r/cht/GB/Tetris (USA).cht''"
  by code_simp+

lemma ex_scores:
  "candidate_score ''Tetris (USA)'' [] (file_candidate ''/r/cht/GB'' ''Tetris (Japan).cht'') = 1"
  "candidate_score ''Tetris (USA)'' [] (file_candidate ''/r/cht/GB'' ''Tetris (USA).cht'') = 1002"
  by (simp_all add: candidate_score_def file_candidate_def ex_eval score_cheat_region_def score_overlap_def ex_device)

theorem cheat_match_best_witness:
  "match_cheat ''Tetris (USA)'' (the (build_cheat_list ''/r'' ''GB'' (Some ex_names))) [] = Some ''/r/cht/GB/Tetris (USA).cht''"
proof -
  have le0: "length ([] :: string list) \<le> 100" by simp
  let ?cs = "[file_candidate ''/r/cht/GB'' ''Tetris (Japan).cht'', file_candidate ''/r/cht/GB'' ''Tetris (USA).cht'']"
  have cs: "?cs = map (file_candidate (fit 4096 (''/r'' @ ''/cht/'' @ ''GB'')))
      (filter (\<lambda>n. is_cht_name n \<and> normalize_cheat_name ''Tetris (USA)'' 256 \<in> set (file_keys n)) ex_names)"
    by (simp add: ex_names_def ex_keys)
  have l: "build_cheat_list ''/r'' ''GB'' (Some ex_names) = Some (the (build_cheat_list ''/r'' ''GB'' (Some ex_names)))"
    by (simp add: build_cheat_list_def)
  from cheat_match_best [OF le0 l cs] obtain i where i: "i < length ?cs" "\<forall>j < length ?cs. candidate_score ''Tetris (USA)'' [] (?cs ! j) \<le> candidate_score ''Tetris (USA)'' [] (?cs ! i)"
    "match_cheat ''Tetris (USA)'' (the (build_cheat_list ''/r'' ''GB'' (Some ex_names))) [] = Some (cc_path (?cs ! i))" by blast
  have "i = 1" using i(1) i(2) [rule_format, of 1] ex_scores by (cases i) auto
  then show ?thesis using i(3) by (simp add: file_candidate_def)
qed

end
