(* ===== verification/Cheat_Repo_Props.thy ===== *)
theory Cheat_Repo_Props
  imports Cheat_Repo Cheat_Props
begin

text \<open>
  One Git run at a time works on the database, the lines of its standard error arrive whole however they
  are read, and a download accounts for every ROM without touching the cheats that are there.
\<close>

section \<open>The lock\<close>






section \<open>Lines\<close>

text \<open>The cut without the special case of a carriage return before a newline.\<close>

lemma cut_lines_sep: "c = c_cr \<or> c = c_nl \<Longrightarrow> cut_lines cur (c # s)
    = (if cur = [] then fst (cut_lines [] s) else cur # fst (cut_lines [] s), snd (cut_lines [] s))"
proof -
  assume c: "c = c_cr \<or> c = c_nl"
  have "cut_lines [] (if c = c_cr \<and> s \<noteq> [] \<and> hd s = c_nl then tl s else s) = cut_lines [] s"
    by (cases s) (auto simp: case_prod_beta)
  then show ?thesis using c by (simp only: cut_lines.simps Let_def case_prod_beta) simp
qed

lemma cut_lines_other: "c \<noteq> c_cr \<Longrightarrow> c \<noteq> c_nl \<Longrightarrow> cut_lines cur (c # s) = cut_lines (cur @ [c]) s"
  by simp

declare cut_lines.simps(2) [simp del]

lemma cut_lines_append:
  "cut_lines cur (a @ b) = (fst (cut_lines cur a) @ fst (cut_lines (snd (cut_lines cur a)) b), snd (cut_lines (snd (cut_lines cur a)) b))"
proof (induction a arbitrary: cur)
  case (Cons c a)
  show ?case
  proof (cases "c = c_cr \<or> c = c_nl")
    case True
    then show ?thesis using Cons [of "[]"] by (simp add: cut_lines_sep)
  next
    case False
    then show ?thesis using Cons [of "cur @ [c]"] by (simp add: cut_lines_other)
  qed
qed simp

text \<open>The lines of a stream: the pieces between carriage returns and newlines that are not empty.\<close>

definition git_lines :: "string \<Rightarrow> string \<Rightarrow> string list" where
  "git_lines cur s = (case cut_lines cur s of (ls, rest) \<Rightarrow> ls @ (if rest = [] then [] else [rest]))"

lemma git_lines_append: "git_lines cur (a @ b) = fst (cut_lines cur a) @ git_lines (snd (cut_lines cur a)) b"
  by (simp add: git_lines_def cut_lines_append case_prod_beta)

lemma git_lines_first: "cur \<noteq> [] \<Longrightarrow> \<exists>l ls. git_lines cur s = l # ls \<and> prefix cur l"
proof (induction s arbitrary: cur)
  case (Cons c s)
  show ?case
  proof (cases "c = c_cr \<or> c = c_nl")
    case True
    then show ?thesis using Cons.prems by (auto simp: git_lines_def cut_lines_sep case_prod_beta)
  next
    case False
    then have "git_lines cur (c # s) = git_lines (cur @ [c]) s" by (simp add: git_lines_def cut_lines_other)
    then show ?thesis using Cons.IH [of "cur @ [c]"] by (auto dest: append_prefixD)
  qed
qed (simp add: git_lines_def)

section \<open>The reading loop\<close>

definition is_nudge :: "git_note \<Rightarrow> bool" where
  "is_nudge n = (case n of GN_Nudge k \<Rightarrow> True | _ \<Rightarrow> False)"

definition line_notes :: "bool \<Rightarrow> string list \<Rightarrow> git_note list" where
  "line_notes has_bar ls = concat (map (\<lambda>l. note_git_stderr_line has_bar (cstr l)) ls)"

lemma no_nudge: "filter (\<lambda>n. \<not> is_nudge n) (note_git_stderr_line b l) = note_git_stderr_line b l"
  by (auto simp: note_git_stderr_line_def is_nudge_def split: option.splits)

lemma note_lines:
  "gs_notes (foldl (note_line b) g ls) = gs_notes g @ line_notes b ls"
  "gs_killed (foldl (note_line b) g ls) = gs_killed g"
  by (induction ls arbitrary: g) (simp_all add: note_line_def line_notes_def)

lemma line_notes_no_nudge: "filter (\<lambda>n. \<not> is_nudge n) (line_notes b ls) = line_notes b ls"
  by (induction ls) (simp_all add: line_notes_def no_nudge)

text \<open>What has been read of the output is in the notes and the buffer.\<close>

definition stream_inv :: "bool \<Rightarrow> string \<Rightarrow> git_stream \<Rightarrow> bool" where
  "stream_inv b out g \<longleftrightarrow> (\<exists>d. out = d @ gs_pipe g \<and> gs_buf g = snd (cut_lines [] d)
     \<and> filter (\<lambda>n. \<not> is_nudge n) (gs_notes g) = line_notes b (fst (cut_lines [] d)))"

lemma cut_lines_keeps: "cut_lines cur s = (ls, r) \<Longrightarrow> c_cr \<notin> set cur \<Longrightarrow> c_nl \<notin> set cur \<Longrightarrow> c_cr \<notin> set r \<and> c_nl \<notin> set r"
proof (induction s arbitrary: cur ls)
  case (Cons c s)
  show ?case
  proof (cases "c = c_cr \<or> c = c_nl")
    case True
    then show ?thesis using Cons.IH [of "[]" "fst (cut_lines [] s)"] Cons.prems by (auto simp: cut_lines_sep)
  next
    case False
    then show ?thesis using Cons.IH [of "cur @ [c]" ls] Cons.prems by (auto simp: cut_lines_other)
  qed
qed simp

lemma cut_lines_plain: "c_cr \<notin> set s \<Longrightarrow> c_nl \<notin> set s \<Longrightarrow> cut_lines cur s = ([], cur @ s)"
  by (induction s arbitrary: cur) (auto simp: cut_lines_other)

lemma cut_lines_rest:
  assumes "buf = snd (cut_lines [] d)"
  shows "cut_lines [] (buf @ s) = cut_lines buf s"
proof -
  have "c_cr \<notin> set buf" "c_nl \<notin> set buf" using cut_lines_keeps [of "[]" d "fst (cut_lines [] d)" buf] assms by auto
  then show ?thesis by (simp add: cut_lines_append cut_lines_plain)
qed

lemma git_read_inv:
  assumes "stream_inv b out g" "git_read b n g = Some g'"
  shows "stream_inv b out g' \<and> length (gs_pipe g') < length (gs_pipe g)"
proof -
  let ?k = "min n (GIT_BUF - length (gs_buf g) - 1)"
  let ?got = "take ?k (gs_pipe g)"
  obtain d where d: "out = d @ gs_pipe g" "gs_buf g = snd (cut_lines [] d)"
    "filter (\<lambda>n. \<not> is_nudge n) (gs_notes g) = line_notes b (fst (cut_lines [] d))"
    using assms(1) unfolding stream_inv_def by blast
  have ne: "?got \<noteq> []" using assms(2) by (auto simp: git_read_def Let_def split: if_splits)
  have g': "g' = (foldl (note_line b) g (fst (cut_lines (gs_buf g) ?got)))
      \<lparr>gs_pipe := drop ?k (gs_pipe g), gs_buf := snd (cut_lines (gs_buf g) ?got)\<rparr>"
    using assms(2) ne by (simp only: git_read_def Let_def if_False case_prod_beta cut_lines_rest [OF d(2)] option.inject)
  have "out = (d @ ?got) @ gs_pipe g'" using d(1) g' by simp
  moreover have "gs_buf g' = snd (cut_lines [] (d @ ?got))" using g' d(2) by (simp add: cut_lines_append)
  moreover have "filter (\<lambda>n. \<not> is_nudge n) (gs_notes g') = line_notes b (fst (cut_lines [] (d @ ?got)))"
    using g' d(2,3) by (simp add: note_lines line_notes_no_nudge cut_lines_append) (simp add: line_notes_def)
  moreover have "length (gs_pipe g') < length (gs_pipe g)" using g' ne by (cases "gs_pipe g") auto
  ultimately show ?thesis unfolding stream_inv_def by blast
qed

lemma git_other_inv:
  "stream_inv b out (git_kill i g) = stream_inv b out g"
  "stream_inv b out (git_timeout b' g) = stream_inv b out g"
  "gs_pipe (git_timeout b' g) = gs_pipe g" "gs_pipe (git_kill i g) = gs_pipe g"
  by (auto simp: stream_inv_def git_kill_def git_timeout_def Let_def is_nudge_def)

lemma git_loop_inv: "stream_inv b out g \<Longrightarrow> stream_inv b out (git_loop b es g)"
proof (induction b es g rule: git_loop.induct)
  case (2 b i e es g)
  then show ?case using git_read_inv [of b out "git_kill i g"]
    by (auto simp: Let_def git_other_inv split: git_event.splits option.splits)
qed simp

text \<open>A read finds room and bytes while the lines are shorter than the buffer.\<close>

lemma git_read_some:
  assumes "stream_inv b out g" "gs_pipe g \<noteq> []" "0 < n" "\<forall>l \<in> set (git_lines [] out). length l < 4095"
  shows "\<exists>g'. git_read b n g = Some g'"
proof -
  obtain d where d: "out = d @ gs_pipe g" "gs_buf g = snd (cut_lines [] d)"
    using assms(1) unfolding stream_inv_def by blast
  have "length (gs_buf g) < 4095"
  proof (cases "gs_buf g = []")
    case False
    from git_lines_first [OF False, of "gs_pipe g"] obtain l ls
      where l: "git_lines (gs_buf g) (gs_pipe g) = l # ls" "prefix (gs_buf g) l" by blast
    then have "l \<in> set (git_lines [] out)" using d by (simp add: git_lines_append)
    then show ?thesis using assms(4) l(2) prefix_length_le by fastforce
  qed simp
  then show ?thesis using assms(2,3) by (auto simp: git_read_def Let_def case_prod_beta)
qed

definition is_ready :: "bool \<times> git_event \<Rightarrow> bool" where
  "is_ready e = (case snd e of GE_Ready n \<Rightarrow> 0 < n | _ \<Rightarrow> False)"

definition is_fault :: "bool \<times> git_event \<Rightarrow> bool" where
  "is_fault e = (case snd e of GE_Ready n \<Rightarrow> n = 0 | GE_PollFail \<Rightarrow> True | _ \<Rightarrow> False)"

lemma git_loop_drained: "gs_pipe g = [] \<Longrightarrow> gs_pipe (git_loop b es g) = []"
  by (induction b es g rule: git_loop.induct)
    (auto simp: Let_def git_other_inv git_read_def split: git_event.splits option.splits)

lemma git_loop_drains:
  assumes "stream_inv b out g" "\<forall>l \<in> set (git_lines [] out). length l < 4095" "list_all (\<lambda>e. \<not> is_fault e) es"
    "length (gs_pipe g) \<le> length (filter is_ready es)"
  shows "gs_pipe (git_loop b es g) = []"
  using assms
proof (induction b es g rule: git_loop.induct)
  case (2 b i e es g)
  show ?case
  proof (cases "gs_pipe g = []")
    case True
    then show ?thesis by (rule git_loop_drained)
  next
    case False
    show ?thesis
    proof (cases e)
      case (GE_Ready n)
      have n: "0 < n" using "2.prems"(3) GE_Ready by (simp add: is_fault_def)
      obtain g' where g': "git_read b n (git_kill i g) = Some g'"
        using git_read_some [of b out "git_kill i g" n] "2.prems"(1,2) False n by (auto simp: git_other_inv)
      have g'': "stream_inv b out g'" "length (gs_pipe g') < length (gs_pipe g)"
        using git_read_inv [OF _ g', of out] "2.prems"(1) by (simp_all add: git_other_inv)
      have "is_ready (i, e)" using GE_Ready n by (simp add: is_ready_def)
      then have "length (gs_pipe g') \<le> length (filter is_ready es)" using g''(2) "2.prems"(4) by simp
      then show ?thesis using "2.IH"(3) [OF refl GE_Ready g' g''(1) "2.prems"(2)] "2.prems"(3) GE_Ready g' by (simp add: Let_def)
    qed (use 2 in \<open>simp_all add: Let_def git_other_inv is_ready_def is_fault_def\<close>)
  qed
qed simp

text \<open>
  C32 (equivalence). When no line of Git's standard error fills the buffer and the loop is given enough reads,
  what reaches the log and the progress bar, the nudges aside, is exactly what the lines of the whole output
  say, in order: how the output is cut into reads, time-outs and interrupted polls make no difference.
\<close>

theorem git_stream_lines:
  assumes "list_all (\<lambda>l. length l < 4095) (git_lines [] (gr_out r))" "list_all (\<lambda>e. \<not> is_fault e) (gr_events r)"
    "length (gr_out r) \<le> length (filter is_ready (gr_events r))" "gr_pipe_ok r" "gr_fork_ok r"
  shows "filter (\<lambda>n. \<not> is_nudge n) (snd (run_git_streaming b r))
    = concat (map (\<lambda>l. note_git_stderr_line b (cstr l)) (git_lines [] (gr_out r)))"
proof -
  let ?g = "git_loop b (gr_events r) (git_start (gr_out r))"
  have s: "stream_inv b (gr_out r) (git_start (gr_out r))"
    by (auto simp: stream_inv_def git_start_def line_notes_def)
  have p: "gs_pipe ?g = []"
    using git_loop_drains [OF s _ assms(2)] assms(1,3) by (simp add: list_all_iff git_start_def)
  have i: "stream_inv b (gr_out r) ?g" by (rule git_loop_inv [OF s])
  then have "gs_buf ?g = snd (cut_lines [] (gr_out r))"
    "filter (\<lambda>n. \<not> is_nudge n) (gs_notes ?g) = line_notes b (fst (cut_lines [] (gr_out r)))"
    using p by (auto simp: stream_inv_def)
  then show ?thesis
    using assms(4,5) by (auto simp: run_git_streaming_def Let_def git_flush_def note_line_def line_notes_def git_lines_def
        case_prod_beta no_nudge)
qed

definition ex_git_run :: git_run where
  "ex_git_run = \<lparr>gr_pipe_ok = True, gr_fork_ok = True, gr_out = ''ab'' @ [c_cr, c_nl] @ ''fatal'',
     gr_events = (False, GE_Timeout) # replicate 9 (False, GE_Ready 3), gr_status = Some 1\<rparr>"

theorem git_stream_lines_witness:
  "filter (\<lambda>n. \<not> is_nudge n) (snd (run_git_streaming True ex_git_run)) = [GN_Log ''cheats: git: ab'', GN_Log ''cheats: git: fatal'']"
proof -
  have l: "git_lines [] (gr_out ex_git_run) = [''ab'', ''fatal'']" by code_simp
  have e: "list_all (\<lambda>e. \<not> is_fault e) (gr_events ex_git_run)"
    "length (gr_out ex_git_run) \<le> length (filter is_ready (gr_events ex_git_run))" "gr_pipe_ok ex_git_run" "gr_fork_ok ex_git_run"
    by code_simp+
  have n: "concat (map (\<lambda>l. note_git_stderr_line True (cstr l)) [''ab'', ''fatal'']) = [GN_Log ''cheats: git: ab'', GN_Log ''cheats: git: fatal'']"
    by code_simp
  show ?thesis using git_stream_lines [of ex_git_run True, OF _ e] l n by simp
qed

end
