(* ===== verification/Cheat_Download.thy ===== *)
theory Cheat_Download
  imports Cheat_Repo_Props
begin

text \<open>
  The download of the cheats of a system, from the selected platform to the copied files.
\<close>

section \<open>One copy\<close>




text \<open>Every directory is made after the ones that contain it.\<close>

lemma ensure_parent_dir_nested:
  "sorted_wrt (\<lambda>a b. prefix a b \<and> length a < length b) (ensure_parent_dir path)"
proof -
  have nested: "sorted_wrt (\<lambda>a b. prefix a b \<and> length a < length b) (map (\<lambda>i. take i d) (filter P [1..<length d]) @ [d])" for d :: string and P
  proof -
    have "sorted_wrt (<) (filter P [1..<length d])" by (simp add: sorted_wrt_filter)
    moreover have "prefix (take i d) (take j d) \<and> length (take i d) < length (take j d)"
      if "i \<in> set (filter P [1..<length d])" "j \<in> set (filter P [1..<length d])" "i < j" for i j
      using that take_is_prefix [of i "take j d"] by (auto simp: min_def)
    ultimately show ?thesis
      by (auto simp: sorted_wrt_append sorted_wrt_map take_is_prefix elim!: sorted_wrt_mono_rel [rotated])
  qed
  show ?thesis unfolding ensure_parent_dir_def Let_def by (rule if_split [THEN iffD2], intro conjI impI, rule sorted_wrt.simps(1) [THEN iffD2], rule TrueI, rule nested)
qed

section \<open>The loop\<close>









section \<open>The whole download\<close>
















end
