(* ===== verification/Cheat_Git_Props.thy ===== *)
theory Cheat_Git_Props
  imports Cheat_Git
begin

text \<open>
  Which Git is run, and the environment it gets.
\<close>

section \<open>The binary\<close>

text \<open>The candidates in the order of preference: the launcher's directory, the resources beside the
  executable, and the directories of the search path.\<close>

definition git_candidates :: "git_world \<Rightarrow> string list" where
  "git_candidates W =
     List.map_filter id
       ([git_join ZP_PATH (gw_exec_path W), exe_candidate W]
        @ (case gw_path W of None \<Rightarrow> []
           | Some p \<Rightarrow> if p = [] then [] else map (\<lambda>e. git_join ZP_PATH (Some (if e = [] then ''.'' else e))) (split_colon p [])))"

fun first_some :: "('a \<Rightarrow> 'b option) \<Rightarrow> 'a list \<Rightarrow> 'b option" where
  "first_some f [] = None"
| "first_some f (x # xs) = (case f x of Some y \<Rightarrow> Some y | None \<Rightarrow> first_some f xs)"

lemma first_some_append: "first_some f (xs @ ys) = (case first_some f xs of Some y \<Rightarrow> Some y | None \<Rightarrow> first_some f ys)"
  by (induction xs) (auto split: option.splits)

lemma first_some_in: "first_some f xs = Some y \<Longrightarrow> \<exists>x \<in> set xs. f x = Some y"
  by (induction xs) (auto split: option.splits)

lemma map_filter_cons: "List.map_filter id (x # xs) = (case x of None \<Rightarrow> List.map_filter id xs | Some y \<Rightarrow> y # List.map_filter id xs)"
  by (auto simp: map_filter_simps split: option.splits)

lemma path_loop_first:
  "path_loop W n es = first_some (copy_resolved W n)
     (List.map_filter id (map (\<lambda>e. git_join ZP_PATH (Some (if e = [] then ''.'' else e))) es))"
  by (induction es) (auto simp: map_filter_simps split: option.splits)

lemma get_git_bin_first: "get_git_bin W = first_some (copy_resolved W ZP_PATH) (git_candidates W)"
  by (cases "git_join ZP_PATH (gw_exec_path W)"; cases "exe_candidate W")
    (auto simp: get_git_bin_def git_candidates_def git_from_path_def exe_resources_git_def path_loop_first
        map_filter_cons map_filter_simps split: option.splits)

lemma copy_resolved_usable:
  "copy_resolved W n p = Some g \<Longrightarrow> git_file_usable W p \<and> gw_real W p = Some g \<and> length g < n"
  by (auto simp: copy_resolved_def split: if_splits option.splits)

text \<open>\<^verbatim>\<open>execve\<close> does not search: when \<^verbatim>\<open>realpath\<close> answers absolute paths, the chosen binary is one.\<close>

lemma git_bin_absolute:
  assumes "\<forall>p r. gw_real W p = Some r \<longrightarrow> prefix ''/'' r" "get_git_bin W = Some g"
  shows "prefix ''/'' g \<and> (\<exists>p \<in> set (git_candidates W). git_file_usable W p)"
  using assms first_some_in [of "copy_resolved W ZP_PATH" "git_candidates W" g] copy_resolved_usable
  by (metis get_git_bin_first)

section \<open>The environment\<close>

definition git_keys :: "string list" where
  "git_keys = [''GIT_EXEC_PATH'', ''GIT_TEMPLATE_DIR'', ''GIT_TERMINAL_PROMPT'']"

lemma git_exec_entry_cases:
  "git_exec_entry W = [] \<or> (\<exists>g d. get_git_bin W = Some g \<and> git_dir_of g = Some d
     \<and> git_exec_entry W = [fit ZP_PATH (''GIT_EXEC_PATH='' @ d)])"
  by (auto simp: git_exec_entry_def parent_dir_def split: option.splits if_splits)

text \<open>
  The environment of Git fits the table that is allocated for it, keeps every other variable
  in its order, disables the templates and the prompt exactly once, and names a helper directory at most
  once, the directory of the chosen binary. The binary is the first usable candidate, with its links resolved.
\<close>

theorem git_env_correct:
  "length (build_git_env W environ) + 1 \<le> length environ + 4
   \<and> (\<exists>ex. build_git_env W environ
          = filter (\<lambda>e. list_all (\<lambda>k. \<not> env_key_is e k) git_keys) environ @ ex @ [''GIT_TEMPLATE_DIR='', ''GIT_TERMINAL_PROMPT=0'']
        \<and> (ex = [] \<or> (\<exists>g d. get_git_bin W = Some g \<and> git_dir_of g = Some d \<and> ex = [fit 4096 (''GIT_EXEC_PATH='' @ d)])))
   \<and> get_git_bin W = first_some (copy_resolved W 4096) (git_candidates W)"
proof (intro conjI)
  have f: "filter (\<lambda>e. \<not> (env_key_is e ''GIT_EXEC_PATH'' \<or> env_key_is e ''GIT_TEMPLATE_DIR'' \<or> env_key_is e ''GIT_TERMINAL_PROMPT'')) environ
      = filter (\<lambda>e. list_all (\<lambda>k. \<not> env_key_is e k) git_keys) environ"
    by (simp add: git_keys_def)
  then show "\<exists>ex. build_git_env W environ
          = filter (\<lambda>e. list_all (\<lambda>k. \<not> env_key_is e k) git_keys) environ @ ex @ [''GIT_TEMPLATE_DIR='', ''GIT_TERMINAL_PROMPT=0'']
        \<and> (ex = [] \<or> (\<exists>g d. get_git_bin W = Some g \<and> git_dir_of g = Some d \<and> ex = [fit 4096 (''GIT_EXEC_PATH='' @ d)]))"
    using git_exec_entry_cases [of W] by (intro exI [of _ "git_exec_entry W"]) (simp only: build_git_env_def)
  have "length (git_exec_entry W) \<le> 1" using git_exec_entry_cases [of W] by auto
  then show "length (build_git_env W environ) + 1 \<le> length environ + 4"
    using length_filter_le [of "\<lambda>e. \<not> (env_key_is e ''GIT_EXEC_PATH'' \<or> env_key_is e ''GIT_TEMPLATE_DIR'' \<or> env_key_is e ''GIT_TERMINAL_PROMPT'')" environ]
    unfolding build_git_env_def length_append by (simp only: list.size)
  show "get_git_bin W = first_some (copy_resolved W 4096) (git_candidates W)" by (rule get_git_bin_first)
qed

end
