(* ===== verification/Daemon_Queue.thy ===== *)
theory Daemon_Queue
  imports Scrape_Handoff Systems
begin

text \<open>
  The queue file of the background daemon, \<^verbatim>\<open>zcrapegoat/src/src/daemon.c\<close>: items to JSON and back, the
  statistics read from it, and the round trip. The printer and the parser of cJSON are parameters;
  numbers are the exact values of the doubles.
\<close>

section \<open>Strings of the enumerations\<close>

fun status_to_str :: "queue_item_status \<Rightarrow> string" where
  "status_to_str QUEUE_IDLE = ''idle''"
| "status_to_str QUEUE_SEARCHING = ''searching''"
| "status_to_str QUEUE_DOWNLOADING = ''downloading''"
| "status_to_str QUEUE_CLONING = ''cloning''"
| "status_to_str QUEUE_MATCHING = ''matching''"
| "status_to_str QUEUE_DONE = ''done''"
| "status_to_str QUEUE_NOT_FOUND = ''not_found''"
| "status_to_str QUEUE_ERROR = ''error''"
| "status_to_str QUEUE_SKIPPED = ''skipped''"
| "status_to_str QUEUE_NONE = ''unknown''"

definition str_to_status :: "string \<Rightarrow> queue_item_status" where
  "str_to_status s =
     (if s = ''idle'' then QUEUE_IDLE else if s = ''searching'' then QUEUE_SEARCHING
      else if s = ''downloading'' then QUEUE_DOWNLOADING else if s = ''cloning'' then QUEUE_CLONING
      else if s = ''matching'' then QUEUE_MATCHING else if s = ''done'' then QUEUE_DONE
      else if s = ''not_found'' then QUEUE_NOT_FOUND else if s = ''error'' then QUEUE_ERROR
      else if s = ''skipped'' then QUEUE_SKIPPED else QUEUE_IDLE)"

fun type_to_str :: "queue_item_type \<Rightarrow> string" where
  "type_to_str QUEUE_TYPE_ARTWORK = ''artwork''"
| "type_to_str QUEUE_TYPE_CHEAT = ''cheat''"
| "type_to_str QUEUE_TYPE_MANUAL = ''manual''"

definition str_to_type :: "string \<Rightarrow> queue_item_type" where
  "str_to_type s = (if s = ''cheat'' then QUEUE_TYPE_CHEAT else if s = ''manual'' then QUEUE_TYPE_MANUAL else QUEUE_TYPE_ARTWORK)"

section \<open>Writing\<close>

definition item_json :: "queue_item \<Rightarrow> json" where
  "item_json it =
     J_Obj [(''id'', J_Num (of_int (uint (q_id it)))), (''type'', J_Str (type_to_str (q_type it))),
            (''rom_display'', J_Str (q_rom_display it)), (''rom_path'', J_Str (q_rom_path it)),
            (''system_tag'', J_Str (q_system_tag it)), (''system_display'', J_Str (q_system_display it)),
            (''console_path'', J_Str (q_console_path it)), (''system_id'', J_Num (of_int (q_system_id it))),
            (''cheat_dir'', J_Str (q_cheat_dir it)), (''status'', J_Str (status_to_str (q_status it))),
            (''error_msg'', J_Str (q_error_msg it)), (''force'', J_Bool (q_force it))]"

text \<open>How the write goes. The results of \<^verbatim>\<open>fputs\<close>, \<^verbatim>\<open>fflush\<close>, \<^verbatim>\<open>fsync\<close> and \<^verbatim>\<open>fclose\<close> are not looked at: only
  the first \<open>n\<close> bytes may have reached the file that is renamed into place.\<close>

datatype save_io = SV_NoTemp | SV_Short nat | SV_RenameFailed | SV_Ok

definition serialize_queue :: "(json \<Rightarrow> string) \<Rightarrow> save_io \<Rightarrow> queue_item list \<Rightarrow> string option \<Rightarrow> bool \<times> string option" where
  "serialize_queue print io items disk =
     (let body = print (J_Arr (map item_json items))
      in case io of
           SV_NoTemp \<Rightarrow> (False, disk)
         | SV_RenameFailed \<Rightarrow> (False, disk)
         | SV_Short n \<Rightarrow> (True, Some (take n body))
         | SV_Ok \<Rightarrow> (True, Some body))"

section \<open>Reading\<close>

text \<open>\<^verbatim>\<open>cJSON_GetObjectItem\<close> ignores the case of the keys and finds the first.\<close>

definition j_get_ci :: "json \<Rightarrow> string \<Rightarrow> json option" where
  "j_get_ci j k = (case j of J_Obj l \<Rightarrow> map_option snd (find (\<lambda>(k', v). map lower k' = map lower k) l) | _ \<Rightarrow> None)"

definition get_str :: "json \<Rightarrow> string \<Rightarrow> string option" where
  "get_str j k = (case j_get_ci j k of Some (J_Str s) \<Rightarrow> Some s | _ \<Rightarrow> None)"

definition get_num :: "json \<Rightarrow> string \<Rightarrow> rat option" where
  "get_num j k = (case j_get_ci j k of Some (J_Num r) \<Rightarrow> Some r | _ \<Rightarrow> None)"

definition str_field :: "json \<Rightarrow> string \<Rightarrow> nat \<Rightarrow> string" where
  "str_field j k n = (case get_str j k of None \<Rightarrow> [] | Some s \<Rightarrow> fit n s)"

text \<open>The conversion of a double to an integer drops the fraction; the values are in the range of the type.\<close>

definition trunc :: "rat \<Rightarrow> int" where
  "trunc r = (if r \<ge> 0 then floor r else ceiling r)"

definition bad_cheat_dir :: "json \<Rightarrow> bool" where
  "bad_cheat_dir j =
     (case j_get_ci j ''cheat_dir'' of
        None \<Rightarrow> False
      | Some (J_Str s) \<Rightarrow> s \<noteq> [] \<and> \<not> systems_valid_provider_dir s
      | Some _ \<Rightarrow> True)"

definition read_item :: "json \<Rightarrow> queue_item" where
  "read_item j =
     (let it = \<lparr>q_id = (case get_num j ''id'' of None \<Rightarrow> 0 | Some r \<Rightarrow> word_of_int (trunc r)),
                q_type = (case get_str j ''type'' of None \<Rightarrow> QUEUE_TYPE_ARTWORK | Some s \<Rightarrow> str_to_type s),
                q_rom_display = str_field j ''rom_display'' 256, q_rom_path = str_field j ''rom_path'' PATH_MAX,
                q_system_tag = str_field j ''system_tag'' 64, q_system_display = str_field j ''system_display'' 256,
                q_console_path = str_field j ''console_path'' PATH_MAX,
                q_system_id = (case get_num j ''system_id'' of None \<Rightarrow> 0 | Some r \<Rightarrow> to_s32 (trunc r)),
                q_cheat_dir = (if bad_cheat_dir j then [] else str_field j ''cheat_dir'' 256),
                q_status = (case get_str j ''status'' of None \<Rightarrow> QUEUE_IDLE | Some s \<Rightarrow> str_to_status s),
                q_error_msg = str_field j ''error_msg'' 256,
                q_force = (case j_get_ci j ''force'' of Some (J_Bool b) \<Rightarrow> b | _ \<Rightarrow> False)\<rparr>
      in if q_type it = QUEUE_TYPE_CHEAT \<and> bad_cheat_dir j
         then it\<lparr>q_status := QUEUE_ERROR, q_error_msg := ''Saved cheat database name is invalid''\<rparr>
         else it)"

text \<open>\<open>None\<close> is a file that cannot be opened or read whole.\<close>

definition deserialize_queue :: "(string \<Rightarrow> json option) \<Rightarrow> string option \<Rightarrow> nat \<Rightarrow> queue_item list" where
  "deserialize_queue parse disk max_items =
     (case disk of
        None \<Rightarrow> []
      | Some data \<Rightarrow>
          if data = [] then []
          else (case parse data of
                  Some (J_Arr l) \<Rightarrow> map read_item (take max_items l)
                | _ \<Rightarrow> []))"

definition read_stats :: "queue_stats \<Rightarrow> queue_item \<Rightarrow> queue_stats" where
  "read_stats s it =
     (if q_status it = QUEUE_DONE then s\<lparr>qs_done := qs_done s + 1\<rparr>
      else if q_status it = QUEUE_NOT_FOUND \<or> q_status it = QUEUE_ERROR then s\<lparr>qs_failed := qs_failed s + 1\<rparr>
      else if q_status it = QUEUE_SKIPPED then s
      else s\<lparr>qs_pending := qs_pending s + 1\<rparr>)"

definition daemon_read_queue :: "(string \<Rightarrow> json option) \<Rightarrow> string option \<Rightarrow> nat \<Rightarrow> queue_item list \<times> queue_stats" where
  "daemon_read_queue parse disk max_items =
     (let items = deserialize_queue parse disk max_items
      in (items, foldl read_stats \<lparr>qs_total = length items, qs_done = 0, qs_failed = 0, qs_pending = 0\<rparr> items))"

section \<open>The round trip\<close>

text \<open>An item that fits the buffers it came from, with a cheat directory the queue can have.\<close>

definition item_ok :: "queue_item \<Rightarrow> bool" where
  "item_ok it \<longleftrightarrow> length (q_rom_display it) < 256 \<and> length (q_rom_path it) < PATH_MAX \<and> length (q_system_tag it) < 64
     \<and> length (q_system_display it) < 256 \<and> length (q_console_path it) < PATH_MAX \<and> s32_ok (q_system_id it)
     \<and> length (q_cheat_dir it) < 256 \<and> (q_cheat_dir it = [] \<or> systems_valid_provider_dir (q_cheat_dir it))
     \<and> length (q_error_msg it) < 256 \<and> q_status it \<noteq> QUEUE_NONE"

lemma str_to_status_to_str [simp]: "st \<noteq> QUEUE_NONE \<Longrightarrow> str_to_status (status_to_str st) = st"
  by (cases st) (simp_all add: str_to_status_def)

lemma str_to_type_to_str [simp]: "str_to_type (type_to_str t) = t"
  by (cases t) (simp_all add: str_to_type_def)

lemma trunc_of_int [simp]: "trunc (of_int i) = i"
  by (simp add: trunc_def)

lemma trunc_unsigned [simp]: "trunc (unsigned (w :: u32)) = uint w"
  using trunc_of_int [of "uint w"] by simp

lemma item_keys: "map lower k = k" if "k \<in> set [''id'', ''type'', ''rom_display'', ''rom_path'', ''system_tag'', ''system_display'',
    ''console_path'', ''system_id'', ''cheat_dir'', ''status'', ''error_msg'', ''force'']"
proof -
  have "list_all (\<lambda>k. map lower k = k) [''id'', ''type'', ''rom_display'', ''rom_path'', ''system_tag'', ''system_display'',
    ''console_path'', ''system_id'', ''cheat_dir'', ''status'', ''error_msg'', ''force'']" by code_simp
  then show ?thesis using that unfolding list_all_iff by blast
qed

lemma item_json_fields:
  "j_get_ci (item_json it) ''id'' = Some (J_Num (of_int (uint (q_id it))))"
  "j_get_ci (item_json it) ''type'' = Some (J_Str (type_to_str (q_type it)))"
  "j_get_ci (item_json it) ''rom_display'' = Some (J_Str (q_rom_display it))"
  "j_get_ci (item_json it) ''rom_path'' = Some (J_Str (q_rom_path it))"
  "j_get_ci (item_json it) ''system_tag'' = Some (J_Str (q_system_tag it))"
  "j_get_ci (item_json it) ''system_display'' = Some (J_Str (q_system_display it))"
  "j_get_ci (item_json it) ''console_path'' = Some (J_Str (q_console_path it))"
  "j_get_ci (item_json it) ''system_id'' = Some (J_Num (of_int (q_system_id it)))"
  "j_get_ci (item_json it) ''cheat_dir'' = Some (J_Str (q_cheat_dir it))"
  "j_get_ci (item_json it) ''status'' = Some (J_Str (status_to_str (q_status it)))"
  "j_get_ci (item_json it) ''error_msg'' = Some (J_Str (q_error_msg it))"
  "j_get_ci (item_json it) ''force'' = Some (J_Bool (q_force it))"
  by (simp_all only: j_get_ci_def item_json_def json.case find.simps prod.case item_keys list.set insert_iff simp_thms refl)
    simp_all

lemma read_item_json:
  assumes "item_ok it"
  shows "read_item (item_json it) = it"
  using assms
  by (cases it) (auto simp: read_item_def item_json_fields get_str_def get_num_def str_field_def bad_cheat_dir_def item_ok_def
      to_s32_id Let_def)

lemma deserialize_serialized:
  assumes "parse (print (J_Arr (map item_json items))) = Some (J_Arr (map item_json items))" "parse [] = None"
    "list_all item_ok items" "serialize_queue print SV_Ok items old = (ok, disk)"
  shows "ok \<and> deserialize_queue parse disk n = take n items"
proof -
  have d: "disk = Some (print (J_Arr (map item_json items)))" "ok" using assms(4) by (auto simp: serialize_queue_def)
  have "print (J_Arr (map item_json items)) \<noteq> []" using assms(1,2) by (metis option.distinct(1))
  moreover have "map (read_item \<circ> item_json) (take n items) = take n items"
    using assms(3) by (intro map_idI) (auto simp: list_all_iff read_item_json dest: in_set_takeD)
  ultimately show ?thesis using d assms(1) by (simp add: deserialize_queue_def take_map)
qed

lemma read_stats_count:
  "foldl read_stats s items = s\<lparr>qs_done := qs_done s + length (filter (\<lambda>it. q_status it = QUEUE_DONE) items),
     qs_failed := qs_failed s + length (filter (\<lambda>it. q_status it = QUEUE_NOT_FOUND \<or> q_status it = QUEUE_ERROR) items),
     qs_pending := qs_pending s + length (filter (\<lambda>it. \<not> is_terminal_status (q_status it)) items)\<rparr>"
proof (induction items arbitrary: s)
  case (Cons it items)
  show ?case by (simp add: Cons.IH) (auto simp: read_stats_def is_terminal_status_def)
qed simp

text \<open>The statistics of the file have the pending and failed items of the queue; cancelled items count as
  done in the queue and not at all in the file.\<close>

lemma count_stats_count:
  "foldl count_stats s items = s\<lparr>qs_done := qs_done s + length (filter (\<lambda>it. q_status it = QUEUE_DONE \<or> q_status it = QUEUE_SKIPPED) items),
     qs_failed := qs_failed s + length (filter (\<lambda>it. q_status it = QUEUE_NOT_FOUND \<or> q_status it = QUEUE_ERROR) items),
     qs_pending := qs_pending s + length (filter (\<lambda>it. \<not> is_terminal_status (q_status it)) items)\<rparr>"
proof (induction items arbitrary: s)
  case (Cons it items)
  show ?case by (simp add: Cons.IH) (auto simp: count_stats_def is_terminal_status_def)
qed simp

end
