(* ===== verification/Daemon_Main.thy ===== *)
theory Daemon_Main
  imports Daemon_Queue
begin

text \<open>
  The background daemon of the scraper, \<^verbatim>\<open>zcrapegoat/src/src/daemon.c\<close>: its files, the commands, launch and
  main loop. The files of the daemon directory are a record; results of system calls, the signal flag and
  what the queue threads do between two polls are inputs.
\<close>

section \<open>Files\<close>

definition daemon_dir :: "string option \<Rightarrow> nat \<Rightarrow> string" where
  "daemon_dir env n = zlyme_daemon_dir env n"

definition daemon_pid_path :: "string option \<Rightarrow> nat \<Rightarrow> string" where
  "daemon_pid_path env n = fit n (daemon_dir env PATH_MAX @ ''/daemon.pid'')"

definition daemon_lock_path :: "string option \<Rightarrow> nat \<Rightarrow> string" where
  "daemon_lock_path env n = fit n (daemon_dir env PATH_MAX @ ''/daemon.lock'')"

definition daemon_queue_path :: "string option \<Rightarrow> nat \<Rightarrow> string" where
  "daemon_queue_path env n = fit n (daemon_dir env PATH_MAX @ ''/queue.json'')"

definition daemon_settings_path :: "string option \<Rightarrow> nat \<Rightarrow> string" where
  "daemon_settings_path env n = fit n (daemon_dir env PATH_MAX @ ''/settings.json'')"

definition daemon_control_path :: "string option \<Rightarrow> nat \<Rightarrow> string" where
  "daemon_control_path env n = fit n (daemon_dir env PATH_MAX @ ''/daemon.control'')"

definition daemon_log_path :: "string option \<Rightarrow> nat \<Rightarrow> string" where
  "daemon_log_path env n = fit n (daemon_dir env PATH_MAX @ ''/daemon.log'')"

text \<open>The directories that are made, outermost first.\<close>

definition mkdirs :: "string \<Rightarrow> string list" where
  "mkdirs path =
     (let tmp = fit PATH_MAX path
      in map (\<lambda>i. take i tmp) (filter (\<lambda>i. tmp ! i = CHR ''/'') [1..<length tmp]) @ [tmp])"

text \<open>The files; of the lock file only whether it exists.\<close>

record dfiles =
  df_pid :: "string option"
  df_lock :: bool
  df_queue :: "string option"
  df_control :: "string option"
  df_settings :: bool

definition daemon_cleanup :: "dfiles \<Rightarrow> dfiles" where
  "daemon_cleanup d = d\<lparr>df_pid := None, df_lock := False, df_control := None, df_settings := False\<rparr>"

definition daemon_cleanup_all :: "dfiles \<Rightarrow> dfiles" where
  "daemon_cleanup_all d = d\<lparr>df_pid := None, df_lock := False, df_queue := None, df_control := None, df_settings := False\<rparr>"

text \<open>\<^verbatim>\<open>fscanf("%d")\<close>; \<open>alive\<close> is the answer of \<^verbatim>\<open>kill(pid, 0)\<close>, a missing permission included.\<close>

definition scan_pid :: "string \<Rightarrow> int option" where
  "scan_pid s = (case strtol10 s of (v, err, rest) \<Rightarrow> if rest = s then None else Some (to_s32 v))"

definition daemon_is_running :: "(int \<Rightarrow> bool) \<Rightarrow> dfiles \<Rightarrow> bool \<times> dfiles" where
  "daemon_is_running alive d =
     (case df_pid d of
        None \<Rightarrow> (False, d)
      | Some content \<Rightarrow>
          (case scan_pid content of
             None \<Rightarrow> (False, daemon_cleanup d)
           | Some pid \<Rightarrow>
               if pid \<le> 0 \<or> \<not> alive pid then (False, daemon_cleanup d) else (True, d)))"

section \<open>Commands\<close>

definition daemon_write_command :: "bool \<Rightarrow> bool \<Rightarrow> string \<Rightarrow> dfiles \<Rightarrow> bool \<times> dfiles" where
  "daemon_write_command open_ok rename_ok cmd d =
     (if open_ok \<and> rename_ok then (True, d\<lparr>df_control := Some cmd\<rparr>) else (False, d))"

definition daemon_request_stop :: "bool \<Rightarrow> bool \<Rightarrow> dfiles \<Rightarrow> bool \<times> dfiles" where
  "daemon_request_stop open_ok rename_ok d = daemon_write_command open_ok rename_ok (''stop'' @ [c_nl]) d"

definition daemon_request_handoff :: "bool \<Rightarrow> bool \<Rightarrow> dfiles \<Rightarrow> bool \<times> dfiles" where
  "daemon_request_handoff open_ok rename_ok d = daemon_write_command open_ok rename_ok (''handoff'' @ [c_nl]) d"

datatype daemon_command = DAEMON_CMD_NONE | DAEMON_CMD_STOP | DAEMON_CMD_HANDOFF

definition daemon_read_command :: "bool \<Rightarrow> string option \<Rightarrow> daemon_command" where
  "daemon_read_command stop_flag control =
     (if stop_flag then DAEMON_CMD_STOP
      else case control of
             None \<Rightarrow> DAEMON_CMD_NONE
           | Some text0 \<Rightarrow>
               (case fgets_lines 30 text0 of
                  [] \<Rightarrow> DAEMON_CMD_NONE
                | buf # _ \<Rightarrow>
                    if prefix ''handoff'' buf then DAEMON_CMD_HANDOFF
                    else if prefix ''stop'' buf then DAEMON_CMD_STOP else DAEMON_CMD_NONE))"

section \<open>Launch\<close>

record launch_io =
  li_save :: save_io
  li_exe :: bool
  li_pipe :: bool
  li_fork :: bool

text \<open>What the parent does before and after the child: \<open>ready\<close> is the byte the child reports, \<open>None\<close> when the pipe
  closes without one. The result is whether the launch succeeded.\<close>

definition launch_files :: "(json \<Rightarrow> string) \<Rightarrow> launch_io \<Rightarrow> queue_item list \<Rightarrow> dfiles \<Rightarrow> bool \<times> dfiles" where
  "launch_files print io items d =
     (case serialize_queue print (li_save io) items (df_queue d) of
        (ok, qu) \<Rightarrow>
          let d = d\<lparr>df_queue := qu\<rparr>
          in if \<not> ok then (False, d)
             else let d = d\<lparr>df_control := None\<rparr> in (li_exe io \<and> li_pipe io \<and> li_fork io, d))"

definition daemon_launch :: "(json \<Rightarrow> string) \<Rightarrow> launch_io \<Rightarrow> queue_item list \<Rightarrow> char option \<Rightarrow> dfiles \<Rightarrow> bool \<times> dfiles" where
  "daemon_launch print io items ready d =
     (case launch_files print io items d of (started, d) \<Rightarrow> (started \<and> ready = Some (CHR ''1''), d))"

definition daemon_report_ready :: "bool \<Rightarrow> bool \<Rightarrow> char option" where
  "daemon_report_ready has_fd success = (if \<not> has_fd then None else Some (if success then CHR ''1'' else CHR ''0''))"

section \<open>The daemon\<close>

text \<open>One round of the poll loop: the signal flag and the control file at its head, what the threads made of the
  queue before it, how a save goes, and what the twenty looks during the sleep see.\<close>

record poll_round =
  po_look :: "bool \<times> string option"
  po_queue :: queue_state
  po_save :: save_io
  po_sleep :: "(bool \<times> string option) list"

fun sleep_command :: "nat \<Rightarrow> (bool \<times> string option) list \<Rightarrow> daemon_command" where
  "sleep_command 0 looks = DAEMON_CMD_NONE"
| "sleep_command (Suc n) [] = DAEMON_CMD_NONE"
| "sleep_command (Suc n) ((stop, control) # looks) =
     (let c = daemon_read_command stop control in if c \<noteq> DAEMON_CMD_NONE then c else sleep_command n looks)"

text \<open>The command the loop ends with, the queue at that moment and the queue file. Without further rounds the loop
  goes on: \<open>None\<close>.\<close>

fun poll_loop :: "(json \<Rightarrow> string) \<Rightarrow> poll_round list \<Rightarrow> string option \<Rightarrow> (daemon_command \<times> queue_state \<times> string option) option" where
  "poll_loop print [] disk = None"
| "poll_loop print (r # rs) disk =
     (let c = (case po_look r of (stop, control) \<Rightarrow> daemon_read_command stop control)
      in if c \<noteq> DAEMON_CMD_NONE \<or> qs_pending (queue_get_stats (po_queue r)) = 0 then Some (c, po_queue r, disk)
         else let disk = (if fst (queue_check_dirty (po_queue r))
                          then snd (serialize_queue print (po_save r) (queue_snapshot (po_queue r) QUEUE_MAX_ITEMS) disk) else disk);
                  qu = snd (queue_check_dirty (po_queue r)); c = sleep_command 20 (po_sleep r)
              in if c \<noteq> DAEMON_CMD_NONE then Some (c, qu, disk) else poll_loop print rs disk)"

text \<open>The end: the final state of the queue file and the removal of the other files.\<close>

definition daemon_finish :: "(json \<Rightarrow> string) \<Rightarrow> save_io \<Rightarrow> daemon_command \<Rightarrow> queue_state \<Rightarrow> dfiles \<Rightarrow> queue_state \<times> dfiles" where
  "daemon_finish print io command qu d =
     (let qu = (if command = DAEMON_CMD_STOP then queue_cancel_all qu else qu);
          (qu, snap) = (if command = DAEMON_CMD_HANDOFF then queue_handoff_snapshot qu QUEUE_MAX_ITEMS
                       else (qu, queue_snapshot qu QUEUE_MAX_ITEMS));
          d = d\<lparr>df_queue := snd (serialize_queue print io snap (df_queue d))\<rparr>
      in (queue_shutdown qu, d\<lparr>df_control := None, df_lock := False, df_pid := None\<rparr>))"

record daemon_io =
  di_lock_open :: bool
  di_flock :: bool
  di_pid :: "nat option"
  di_systems :: bool
  di_manual_dir :: string
  di_valid :: "queue_item \<Rightarrow> bool"
  di_resolve :: "queue_item \<Rightarrow> Scrape_Queue.sg_mapping"
  di_rounds :: "poll_round list"
  di_final_save :: save_io

text \<open>Start-up: the exit code, or the loaded queue. \<open>di_pid\<close> is the process id, \<open>None\<close> when the file cannot be written.\<close>

definition daemon_start :: "(string \<Rightarrow> json option) \<Rightarrow> daemon_io \<Rightarrow> queue_state \<Rightarrow> dfiles \<Rightarrow> (int + queue_state) \<times> dfiles" where
  "daemon_start parse io qu d =
     (if \<not> di_lock_open io then (Inl 1, d)
      else let d = d\<lparr>df_lock := True\<rparr>
           in if \<not> di_flock io then (Inl 1, d)
              else let d = (case di_pid io of None \<Rightarrow> d | Some p \<Rightarrow> d\<lparr>df_pid := Some (dec p @ [c_nl])\<rparr>)
                   in if \<not> di_systems io then (Inl 1, d)
                      else let items = deserialize_queue parse (df_queue d) QUEUE_MAX_ITEMS
                           in if items = [] then (Inl 0, d)
                              else (Inr (fst (queue_load_items (queue_set_settings (queue_init qu) (di_manual_dir io)) items
                                              (di_valid io) (di_resolve io))), d))"

text \<open>The exit code (\<open>None\<close> while the loop goes on), the byte reported to the launcher, and the files.\<close>

definition daemon_main :: "(json \<Rightarrow> string) \<Rightarrow> (string \<Rightarrow> json option) \<Rightarrow> daemon_io \<Rightarrow> bool \<Rightarrow> queue_state \<Rightarrow> dfiles \<Rightarrow> int option \<times> char option \<times> dfiles" where
  "daemon_main print parse io has_fd qu d =
     (case daemon_start parse io qu d of
        (Inl code, d) \<Rightarrow> (Some code, daemon_report_ready has_fd False, d)
      | (Inr qu, d) \<Rightarrow>
          (case poll_loop print (di_rounds io) (df_queue d) of
             None \<Rightarrow> (None, daemon_report_ready has_fd True, d)
           | Some (c, qu, disk) \<Rightarrow>
               (Some 0, daemon_report_ready has_fd True,
                snd (daemon_finish print (di_final_save io) c qu (d\<lparr>df_queue := disk\<rparr>)))))"

end
