(* ===== verification/Daemon_Props.thy ===== *)
theory Daemon_Props
  imports Daemon_Main
begin

text \<open>
  What the daemon leaves behind, when it ends, and that there is at most one.
\<close>

section \<open>The final file\<close>

definition final_item :: "daemon_command \<Rightarrow> queue_item \<Rightarrow> queue_item" where
  "final_item c = (case c of DAEMON_CMD_STOP \<Rightarrow> cancel_item | DAEMON_CMD_HANDOFF \<Rightarrow> reset_item | DAEMON_CMD_NONE \<Rightarrow> (\<lambda>it. it))"

lemma final_item_ok: "item_ok it \<Longrightarrow> item_ok (final_item c it)"
  by (cases c) (auto simp: final_item_def item_ok_def cancel_item_def reset_item_def)

lemma finish_file:
  assumes json: "parse (print (J_Arr (map item_json (map (final_item c) (g_items qu))))) = Some (J_Arr (map item_json (map (final_item c) (g_items qu))))"
      "parse [] = None"
    and ok: "list_all item_ok (g_items qu)" "length (g_items qu) \<le> 2048"
  shows "deserialize_queue parse (df_queue (snd (daemon_finish print SV_Ok c qu d))) 2048 = map (final_item c) (g_items qu)"
proof -
  let ?items = "map (final_item c) (g_items qu)"
  have i: "list_all item_ok ?items" using ok(1) final_item_ok by (simp add: list_all_iff)
  have q: "df_queue (snd (daemon_finish print SV_Ok c qu d)) = snd (serialize_queue print SV_Ok ?items (df_queue d))"
    using ok(2) by (cases c) (simp_all add: daemon_finish_def Let_def final_item_def queue_cancel_all_def queue_snapshot_def
        queue_handoff_snapshot_def stop_manager_for_transition_def)
  obtain b disk where s: "serialize_queue print SV_Ok ?items (df_queue d) = (b, disk)" by fastforce
  show ?thesis using deserialize_serialized [OF json i s, of 2048] q s ok(2) by simp
qed

lemma pending_final:
  "length (filter (\<lambda>it. \<not> is_terminal_status (q_status it)) (map (final_item c) items))
    = (if c = DAEMON_CMD_STOP then 0 else length (filter (\<lambda>it. \<not> is_terminal_status (q_status it)) items))"
proof -
  have "is_terminal_status (q_status (final_item c it)) \<longleftrightarrow> c = DAEMON_CMD_STOP \<or> is_terminal_status (q_status it)" for it
    by (cases c) (simp_all add: final_item_def cancel_item_def reset_item_def is_terminal_status_def)
  then show ?thesis by (simp add: filter_map comp_def)
qed

text \<open>
  When the daemon ends after its loop and its last save works, its pid, lock and control files
  are gone, and the foreground reads from the queue file exactly the items of the queue at that moment, in order:
  unchanged when the work was done, unfinished ones cancelled after a stop, and as the same jobs waiting again
  after a handoff; the pending count it reads is the number of unfinished ones, none after a stop.
\<close>

theorem daemon_leaves_queue:
  assumes "parse (print (J_Arr (map item_json (map (final_item c) (g_items qu))))) = Some (J_Arr (map item_json (map (final_item c) (g_items qu))))"
      "parse [] = None"
    and "daemon_start parse io qu0 d = (Inr qu1, d1)" "poll_loop print (di_rounds io) (df_queue d1) = Some (c, qu, disk)"
    and "list_all item_ok (g_items qu)" "length (g_items qu) \<le> 2048" "di_final_save io = SV_Ok"
    and "daemon_main print parse io fd qu0 d = (code, ready, d')"
  shows "code = Some 0 \<and> df_pid d' = None \<and> df_control d' = None \<and> \<not> df_lock d'
    \<and> fst (daemon_read_queue parse (df_queue d') 2048) = map (final_item c) (g_items qu)
    \<and> qs_pending (snd (daemon_read_queue parse (df_queue d') 2048))
        = (if c = DAEMON_CMD_STOP then 0 else length (filter (\<lambda>it. \<not> is_terminal_status (q_status it)) (g_items qu)))"
proof -
  have d': "d' = snd (daemon_finish print SV_Ok c qu (d1\<lparr>df_queue := disk\<rparr>))" "code = Some 0"
    using assms(3,4,7,8) by (auto simp: daemon_main_def)
  have files: "df_pid d' = None" "df_control d' = None" "\<not> df_lock d'"
    by (simp_all add: d'(1) daemon_finish_def Let_def case_prod_beta)
  have "deserialize_queue parse (df_queue d') 2048 = map (final_item c) (g_items qu)"
    using finish_file [of parse print c qu, OF assms(1,2,5,6)] by (simp add: d'(1))
  then show ?thesis
    using d'(2) files pending_final [of c "g_items qu"]
    by (simp add: daemon_read_queue_def Let_def read_stats_count del: length_map filter_map map_map)
qed

text \<open>A sample: the queue of the handoff example, read and printed by a table with one entry.\<close>

definition ex_json :: json where
  "ex_json = J_Arr (map item_json (map reset_item (g_items ex_handoff)))"

definition ex_parse :: "string \<Rightarrow> json option" where
  "ex_parse s = (if s = ''x'' then Some ex_json else None)"

definition ex_end_round :: poll_round where
  "ex_end_round = \<lparr>po_look = (False, Some (''handoff'' @ [c_nl])), po_queue = ex_handoff, po_save = SV_Ok, po_sleep = []\<rparr>"

definition ex_daemon :: daemon_io where
  "ex_daemon = \<lparr>di_lock_open = True, di_flock = True, di_pid = Some 42, di_systems = True, di_manual_dir = [],
     di_valid = (\<lambda>it. True), di_resolve = (\<lambda>it. ex_mapping), di_rounds = [ex_end_round], di_final_save = SV_Ok\<rparr>"

definition ex_dfiles :: dfiles where
  "ex_dfiles = \<lparr>df_pid = None, df_lock = False, df_queue = Some ''x'', df_control = None, df_settings = False\<rparr>"

theorem daemon_leaves_queue_witness:
  "fst (daemon_read_queue ex_parse (df_queue (snd (snd (daemon_main (\<lambda>j. ''x'') ex_parse ex_daemon True queue_zero ex_dfiles)))) 2048)
   = map reset_item (g_items ex_handoff)"
proof -
  obtain qu1 d1 where s: "daemon_start ex_parse ex_daemon queue_zero ex_dfiles = (Inr qu1, d1)"
    by (simp add: daemon_start_def ex_daemon_def ex_dfiles_def deserialize_queue_def ex_parse_def ex_json_def ex_handoff_def Let_def)
  have p: "poll_loop (\<lambda>j. ''x'') (di_rounds ex_daemon) (df_queue d1) = Some (DAEMON_CMD_HANDOFF, ex_handoff, df_queue d1)"
    by (simp add: ex_daemon_def ex_end_round_def daemon_read_command_def fgets_lines.simps line_of_def Let_def)
  have f: "final_item DAEMON_CMD_HANDOFF = reset_item" by (simp add: final_item_def)
  have ok: "list_all item_ok (g_items ex_handoff)" "length (g_items ex_handoff) \<le> 2048" "di_final_save ex_daemon = SV_Ok"
    by (simp_all add: ex_handoff_def item_ok_def new_item_def ex_rom_def ex_console_def s32_ok_def ex_daemon_def)
  have j: "ex_parse ''x'' = Some (J_Arr (map item_json (map (final_item DAEMON_CMD_HANDOFF) (g_items ex_handoff))))" "ex_parse [] = None"
    by (simp_all add: ex_parse_def ex_json_def f)
  obtain code ready d' where m: "daemon_main (\<lambda>j. ''x'') ex_parse ex_daemon True queue_zero ex_dfiles = (code, ready, d')"
    by (metis prod.exhaust)
  show ?thesis using daemon_leaves_queue [where print = "\<lambda>j. ''x''", OF j s p ok m] m f by simp
qed

section \<open>The loop ends\<close>

lemma sleep_command_seen:
  assumes "i < n" "i < length looks" "daemon_read_command (fst (looks ! i)) (snd (looks ! i)) \<noteq> DAEMON_CMD_NONE"
  shows "sleep_command n looks \<noteq> DAEMON_CMD_NONE"
  using assms
proof (induction n looks arbitrary: i rule: sleep_command.induct)
  case (3 n stop control looks)
  then show ?case by (cases i) (auto simp: Let_def)
qed auto

lemma poll_loop_step:
  assumes "poll_loop print (r # rs) disk = None"
  shows "daemon_read_command (fst (po_look r)) (snd (po_look r)) = DAEMON_CMD_NONE
    \<and> qs_pending (queue_get_stats (po_queue r)) \<noteq> 0 \<and> sleep_command 20 (po_sleep r) = DAEMON_CMD_NONE
    \<and> (\<exists>disk'. poll_loop print rs disk' = None)"
  using assms by (auto simp: Let_def split: if_splits prod.splits)

definition sees_end :: "poll_round \<Rightarrow> bool" where
  "sees_end r \<longleftrightarrow> daemon_read_command (fst (po_look r)) (snd (po_look r)) \<noteq> DAEMON_CMD_NONE
     \<or> qs_pending (queue_get_stats (po_queue r)) = 0
     \<or> list_ex (\<lambda>(stop, control). daemon_read_command stop control \<noteq> DAEMON_CMD_NONE) (take 20 (po_sleep r))"

lemma sees_end_ends:
  assumes "sees_end r"
  shows "poll_loop print (r # rs) disk \<noteq> None"
proof
  assume n: "poll_loop print (r # rs) disk = None"
  note s = poll_loop_step [OF n]
  then have "\<exists>x \<in> set (take 20 (po_sleep r)). daemon_read_command (fst x) (snd x) \<noteq> DAEMON_CMD_NONE"
    using assms by (simp add: sees_end_def list_ex_iff case_prod_beta)
  then obtain i where i: "i < length (take 20 (po_sleep r))"
      "daemon_read_command (fst (take 20 (po_sleep r) ! i)) (snd (take 20 (po_sleep r) ! i)) \<noteq> DAEMON_CMD_NONE"
    by (metis in_set_conv_nth)
  have "i < 20" "i < length (po_sleep r)" using i(1) by simp_all
  then show False using sleep_command_seen [of i 20 "po_sleep r"] i(2) s by simp
qed

lemma poll_loop_none: "poll_loop print rs disk = None \<Longrightarrow> list_all (\<lambda>r. \<not> sees_end r) rs"
proof (induction rs arbitrary: disk)
  case (Cons r rs)
  obtain disk' where "poll_loop print rs disk' = None" using poll_loop_step [OF Cons.prems] by blast
  then show ?case using Cons.IH sees_end_ends [of r print rs disk] Cons.prems by auto
qed simp

text \<open>A command that is written is seen, and what a written command means.\<close>

lemma written_commands:
  "daemon_read_command stop (df_control (snd (daemon_request_stop True True d))) = DAEMON_CMD_STOP"
  "daemon_read_command False (df_control (snd (daemon_request_handoff True True d))) = DAEMON_CMD_HANDOFF"
  by (simp_all add: daemon_read_command_def daemon_request_stop_def daemon_request_handoff_def daemon_write_command_def
      fgets_lines.simps line_of_def Let_def)

text \<open>
  C38 (termination). The loop of the daemon ends as soon as one of its looks, at the head of a round or one
  of the twenty of the sleep, sees a signal or a command, or a round finds nothing pending. A stop or a handoff
  that the application has written is such a command.
\<close>

theorem daemon_obeys:
  "(list_ex sees_end rs \<longrightarrow> poll_loop print rs disk \<noteq> None)
   \<and> daemon_read_command stop (df_control (snd (daemon_request_stop True True d))) = DAEMON_CMD_STOP
   \<and> daemon_read_command False (df_control (snd (daemon_request_handoff True True d))) = DAEMON_CMD_HANDOFF"
proof (intro conjI impI)
  assume e: "list_ex sees_end rs"
  show "poll_loop print rs disk \<noteq> None"
  proof
    assume "poll_loop print rs disk = None"
    from poll_loop_none [OF this] e show False by (auto simp: list_ex_iff list_all_iff)
  qed
qed (rule written_commands)+

definition ex_round :: poll_round where
  "ex_round = \<lparr>po_look = (False, None), po_queue = ex_handoff, po_save = SV_Ok, po_sleep = [(False, None), (False, Some (''stop'' @ [c_nl]))]\<rparr>"

theorem daemon_obeys_witness: "poll_loop (\<lambda>j. ''x'') [ex_round] None \<noteq> None"
proof -
  have "sees_end ex_round"
    by (simp add: sees_end_def ex_round_def daemon_read_command_def fgets_lines.simps line_of_def Let_def)
  then show ?thesis using daemon_obeys [of "[ex_round]"] by simp
qed

end
