(* ===== verification/Daemon_Life.thy ===== *)
theory Daemon_Life
  imports Daemon_Props
begin

text \<open>
  The lifetime of daemons and the takeover by the application: the step relation of the lock and pid files
  over any number of processes, and the parts of \<^verbatim>\<open>zcrapegoat/src/src/ui.c\<close> that stop a daemon, take its queue over
  and hand the queue to a new one.
\<close>

section \<open>At most one daemon\<close>

















section \<open>The application\<close>

text \<open>The looks at the daemon, each 100 ms apart; the answers are an input, a missing one is that it runs.\<close>

fun look_loop :: "nat \<Rightarrow> bool list \<Rightarrow> bool list option" where
  "look_loop 0 ls = Some ls"
| "look_loop (Suc n) [] = look_loop n []"
| "look_loop (Suc n) (running # ls) = (if running then look_loop n ls else None)"

definition last_look :: "bool list \<Rightarrow> bool" where
  "last_look ls = (case ls of [] \<Rightarrow> True | running # _ \<Rightarrow> running)"

definition wait_for_daemon_exit :: "nat \<Rightarrow> bool list \<Rightarrow> bool" where
  "wait_for_daemon_exit timeout_ms looks =
     (case look_loop (max 1 (timeout_ms div 100)) looks of None \<Rightarrow> True | Some ls \<Rightarrow> \<not> last_look ls)"

datatype stop_outcome = STOP_Kept | STOP_Failed | STOP_Late | STOP_Done

definition daemon_on_stop :: "bool \<Rightarrow> bool \<times> bool \<Rightarrow> bool list \<Rightarrow> dfiles \<Rightarrow> stop_outcome \<times> dfiles" where
  "daemon_on_stop confirmed io looks d =
     (if \<not> confirmed then (STOP_Kept, d)
      else case daemon_request_stop (fst io) (snd io) d of
             (ok, d) \<Rightarrow> (if \<not> ok then STOP_Failed else if wait_for_daemon_exit 10000 looks then STOP_Done else STOP_Late, d))"

definition daemon_takeover_worker :: "bool \<times> bool \<Rightarrow> bool list \<Rightarrow> dfiles \<Rightarrow> bool \<times> dfiles" where
  "daemon_takeover_worker io looks d =
     (case daemon_request_handoff (fst io) (snd io) d of
        (ok, d) \<Rightarrow> (ok \<and> (case look_loop 100 looks of None \<Rightarrow> True | Some ls \<Rightarrow> \<not> last_look ls), d))"





section \<open>Handing the queue back and forth\<close>

lemma look_loop_none: "look_loop n ls = None \<longleftrightarrow> False \<in> set (take n ls)"
  by (induction n ls rule: look_loop.induct) auto








end
