(* ===== verification/Ff_Gain.thy ===== *)
theory Ff_Gain
  imports C_Strings
begin

text \<open>
  The rumble strength of the gamepad, \<^verbatim>\<open>nextui/zlyme/gamepad-ff\<close>: the configuration parser and the gain
  curve of \<^verbatim>\<open>ff_gain.c\<close>, and the tool \<^verbatim>\<open>zlyme-gamepad-ff.c\<close>. Input devices and the results of reads,
  writes and ioctls are inputs; what is sent to the device is a log.
\<close>

section \<open>The gain\<close>

abbreviation (input) "FF_DEFAULT_GAIN_PERCENT \<equiv> (40 :: int)"

text \<open>One line of the file: whether a gain was seen, the value, and whether something was wrong. A line that
  does not fit the buffer ends the loop.\<close>

type_synonym ff_scan = "bool \<times> int \<times> bool"

definition ff_gain_line :: "ff_scan \<Rightarrow> string \<Rightarrow> ff_scan + ff_scan" where
  "ff_gain_line st line =
     (case st of (seen, value, bad) \<Rightarrow>
        if length line \<ge> 64 then Inl (seen, value, True)
        else if line = [] \<or> hd line = CHR ''#'' then Inr st
        else if \<not> prefix ''gain='' line then Inr (seen, value, True)
        else (case strtol10 (drop 5 line) of
                (v, err, rest) \<Rightarrow>
                  if seen \<or> err \<or> rest = drop 5 line \<or> rest \<noteq> [] \<or> v < 0 \<or> v > 100
                  then Inr (True, FF_DEFAULT_GAIN_PERCENT, True)
                  else Inr (True, v, bad)))"

definition ff_parse_gain :: "string option \<Rightarrow> int \<times> int" where
  "ff_parse_gain text =
     (let p = (case text of None \<Rightarrow> [] | Some t \<Rightarrow> t);
          (seen, value, bad) = (case scan_lines ff_gain_line (False, FF_DEFAULT_GAIN_PERCENT, False) p of Inl st \<Rightarrow> st | Inr st \<Rightarrow> st)
      in (if bad then -1 else 0, if bad then FF_DEFAULT_GAIN_PERCENT else value))"

definition ff_parse_percent_token :: "string option \<Rightarrow> int option" where
  "ff_parse_percent_token text =
     (case text of
        None \<Rightarrow> None
      | Some t \<Rightarrow>
          if t = [] then None
          else (case strtol10 t of
                  (v, err, rest) \<Rightarrow> if err \<or> rest = t \<or> rest \<noteq> [] \<or> v < 0 \<or> v > 100 then None else Some v))"

definition ff_effective_gain_percent :: "int \<Rightarrow> int" where
  "ff_effective_gain_percent user =
     (if user < 0 \<or> user > 100 then -1
      else if user = 0 then 0
      else let num = (user - 10) * 85
           in 15 + (if num \<ge> 0 then (num + 45) div 90 else - ((- num + 45) div 90)))"

text \<open>The product is computed in 32-bit unsigned arithmetic.\<close>

definition ff_gain_value :: "int \<Rightarrow> int" where
  "ff_gain_value pct =
     (let effective = ff_effective_gain_percent pct
      in if effective < 0 then -1 else uint ((0xffff * word_of_int effective :: 32 word) div 100))"

definition ff_motor_level :: "u32 \<Rightarrow> u32 \<Rightarrow> u32" where
  "ff_motor_level strong weak = (if strong \<noteq> 0 then strong else weak)"

section \<open>The tool\<close>

text \<open>An entry of the input directory: its name, whether it opens, the name the device reports and the effects it has.\<close>

record ff_entry =
  fe_name :: string
  fe_opens :: bool
  fe_device :: "string option"
  fe_rumble :: bool
  fe_gain :: bool

definition is_pad :: "ff_entry \<Rightarrow> bool" where
  "is_pad e \<longleftrightarrow> prefix ''event'' (fe_name e) \<and> fe_opens e \<and> fe_device e = Some ''Miyoo Flip Gamepad'' \<and> fe_rumble e \<and> fe_gain e"

definition ff_open_pad :: "ff_entry list option \<Rightarrow> ff_entry option" where
  "ff_open_pad dir = (case dir of None \<Rightarrow> None | Some es \<Rightarrow> find is_pad es)"

text \<open>What the device gets.\<close>

datatype ff_op = FF_SetGain int | FF_Upload | FF_Play | FF_Stop | FF_Remove

definition set_gain :: "bool \<Rightarrow> int \<Rightarrow> bool \<times> ff_op list" where
  "set_gain write_ok pct =
     (let value = ff_gain_value pct in if value < 0 then (False, []) else (write_ok, if write_ok then [FF_SetGain value] else []))"

definition do_restore :: "bool \<Rightarrow> string option \<Rightarrow> bool \<times> ff_op list" where
  "do_restore write_ok content =
     (case content of
        None \<Rightarrow> set_gain write_ok FF_DEFAULT_GAIN_PERCENT
      | Some body \<Rightarrow>
          (case ff_parse_gain (Some (takeWhile (\<lambda>c. c \<noteq> CHR 0x00) (take 127 body))) of
             (rc, pct) \<Rightarrow> set_gain write_ok (if rc \<noteq> 0 then FF_DEFAULT_GAIN_PERCENT else pct)))"

definition do_test :: "bool \<Rightarrow> bool \<Rightarrow> bool \<Rightarrow> bool \<times> ff_op list" where
  "do_test upload_ok play_ok stop_ok =
     (if \<not> upload_ok then (False, [])
      else if \<not> play_ok then (False, [FF_Upload, FF_Remove])
      else if \<not> stop_ok then (False, [FF_Upload, FF_Play, FF_Remove])
      else (True, [FF_Upload, FF_Play, FF_Stop, FF_Remove]))"

record ff_io =
  fi_dir :: "ff_entry list option"
  fi_file :: "string option"
  fi_gain_ok :: bool
  fi_upload_ok :: bool
  fi_play_ok :: bool
  fi_stop_ok :: bool

text \<open>The arguments after the program name; the exit code and what the device got.\<close>

definition ff_main :: "ff_io \<Rightarrow> string list \<Rightarrow> int \<times> ff_op list" where
  "ff_main io args =
     (if args = [] then (2, [])
      else case ff_open_pad (fi_dir io) of
             None \<Rightarrow> (1, [])
           | Some _ \<Rightarrow>
               let (ok, ops) =
                 (if hd args = ''gain'' \<and> length args = 2 then
                    (case ff_parse_percent_token (Some (args ! 1)) of
                       None \<Rightarrow> (False, [])
                     | Some pct \<Rightarrow> set_gain (fi_gain_ok io) pct)
                  else if hd args = ''restore'' then do_restore (fi_gain_ok io) (fi_file io)
                  else if hd args = ''test'' then do_test (fi_upload_ok io) (fi_play_ok io) (fi_stop_ok io)
                  else (False, []))
               in (if ok then 0 else 1, ops))"

section \<open>The curve\<close>

lemma curve_table:
  "list_all (\<lambda>p. 6 \<le> ff_effective_gain_percent p \<and> ff_effective_gain_percent p \<le> 100
      \<and> \<bar>90 * (ff_effective_gain_percent p - 15) - 85 * (p - 10)\<bar> \<le> 45) [1..100]"
  "list_all (\<lambda>p. ff_effective_gain_percent p \<le> ff_effective_gain_percent (p + 1)) [0..99]"
  by code_simp+

lemma effective_step: "0 \<le> p \<Longrightarrow> p \<le> 99 \<Longrightarrow> ff_effective_gain_percent p \<le> ff_effective_gain_percent (p + 1)"
  using curve_table(2) by (simp add: list_all_iff)

lemma effective_mono:
  assumes "0 \<le> a" "a \<le> b" "b \<le> 100"
  shows "ff_effective_gain_percent a \<le> ff_effective_gain_percent b"
proof -
  have "b \<le> 100 \<longrightarrow> ff_effective_gain_percent a \<le> ff_effective_gain_percent b" using assms(2)
  proof (induction b rule: int_ge_induct)
    case (step i)
    then show ?case using effective_step [of i] assms(1) by auto
  qed simp
  then show ?thesis using assms(3) by simp
qed

lemma effective_range:
  assumes "1 \<le> p" "p \<le> 100"
  shows "6 \<le> ff_effective_gain_percent p \<and> ff_effective_gain_percent p \<le> 100
      \<and> \<bar>90 * (ff_effective_gain_percent p - 15) - 85 * (p - 10)\<bar> \<le> 45"
  using curve_table(1) assms by (simp add: list_all_iff)

text \<open>The product does not wrap.\<close>

lemma gain_value_eq:
  assumes "0 \<le> e" "e \<le> 100"
  shows "uint ((0xffff * word_of_int e :: 32 word) div 100) = 65535 * e div 100"
proof -
  have "uint (0xffff * word_of_int e :: 32 word) = 65535 * e"
    using assms by (simp add: uint_word_ariths unsigned_of_int take_bit_int_eq_self)
  then show ?thesis by (simp add: uint_div)
qed

text \<open>
  C40 (bounds). A displayed strength outside 0 to 100 is refused; inside, the effective percentage is
  the point of the line through (10, 15) and (100, 100) rounded to the nearest integer, except that 0 stays 0;
  the value sent to the device fits 16 bits, grows with the strength, is 0 only for 0 and full only for 100.
\<close>

theorem ff_gain_curve:
  "(ff_gain_value p < 0 \<longleftrightarrow> p < 0 \<or> 100 < p)
   \<and> (0 < p \<and> p \<le> 100 \<longrightarrow> \<bar>90 * (ff_effective_gain_percent p - 15) - 85 * (p - 10)\<bar> \<le> 45)
   \<and> (0 \<le> p \<and> p \<le> q \<and> q \<le> 100 \<longrightarrow> ff_gain_value p \<le> ff_gain_value q)
   \<and> ff_gain_value p \<le> 65535 \<and> (ff_gain_value p = 0 \<longleftrightarrow> p = 0) \<and> (ff_gain_value p = 65535 \<longleftrightarrow> p = 100)"
proof -
  let ?e = ff_effective_gain_percent
  have out: "?e p = -1" if "p < 0 \<or> 100 < p" for p using that by (auto simp: ff_effective_gain_percent_def)
  have zero: "?e 0 = 0" by (simp add: ff_effective_gain_percent_def)
  have r: "0 \<le> ?e p \<and> ?e p \<le> 100" if "0 \<le> p" "p \<le> 100" for p
    using effective_range [of p] zero that by (cases "p = 0") auto
  have v: "ff_gain_value p = 65535 * ?e p div 100" if "0 \<le> p" "p \<le> 100" for p
    using r [OF that] gain_value_eq [of "?e p"] by (simp add: ff_gain_value_def Let_def)
  have full: "?e p \<le> 99" if "0 \<le> p" "p \<le> 99" for p
  proof -
    have "?e 99 = 99" by (simp add: ff_effective_gain_percent_def)
    then show ?thesis using effective_mono [of p 99] that by simp
  qed
  have neg: "ff_gain_value p = -1" if "p < 0 \<or> 100 < p" for p using out [OF that] by (simp add: ff_gain_value_def)
  have top: "?e 100 = 100" by (simp add: ff_effective_gain_percent_def)
  consider "p < 0 \<or> 100 < p" | "p = 0" | "1 \<le> p" "p \<le> 99" | "p = 100" by linarith
  then show ?thesis
  proof cases
    case 1
    then show ?thesis using neg [OF 1] by auto
  next
    case 2
    then show ?thesis using v [of 0] v [of q] r [of q] zero by (auto simp: pos_imp_zdiv_nonneg_iff)
  next
    case 3
    have "6 \<le> ?e p" "?e p \<le> 99" "\<bar>90 * (?e p - 15) - 85 * (p - 10)\<bar> \<le> 45"
      using effective_range [of p] full [of p] 3 by auto
    moreover have "ff_gain_value p \<le> ff_gain_value q" if "p \<le> q" "q \<le> 100"
      using v [of p] v [of q] effective_mono [of p q] that 3 by (simp add: zdiv_mono1)
    moreover have "3932 \<le> ff_gain_value p \<and> ff_gain_value p < 65535"
      using v [of p] calculation(1,2) 3 zdiv_mono1 [of "65535 * 6" "65535 * ?e p" 100] zdiv_mono1 [of "65535 * ?e p" "65535 * 99" 100] by simp
    ultimately show ?thesis using 3 by auto
  next
    case 4
    then show ?thesis using v [of 100] v [of q] top r [of q] by auto
  qed
qed

theorem ff_gain_curve_witness: "ff_gain_value 40 \<le> ff_gain_value 80 \<and> ff_gain_value 80 \<le> 65535"
  using ff_gain_curve [of 40 80] ff_gain_curve [of 80 80] by simp

section \<open>The file and the tool\<close>

lemma ff_line_inv:
  "0 \<le> fst (snd st) \<and> fst (snd st) \<le> 100 \<Longrightarrow>
     (case ff_gain_line st l of Inl t \<Rightarrow> 0 \<le> fst (snd t) \<and> fst (snd t) \<le> 100 | Inr t \<Rightarrow> 0 \<le> fst (snd t) \<and> fst (snd t) \<le> 100)"
  by (auto simp: ff_gain_line_def split: prod.splits)

lemma ff_scan_inv:
  "0 \<le> fst (snd st) \<and> fst (snd st) \<le> 100 \<Longrightarrow>
     (case scan_lines ff_gain_line st p of Inl t \<Rightarrow> 0 \<le> fst (snd t) \<and> fst (snd t) \<le> 100 | Inr t \<Rightarrow> 0 \<le> fst (snd t) \<and> fst (snd t) \<le> 100)"
proof (induction p arbitrary: st rule: measure_induct_rule [where f = length])
  case (less p)
  show ?case
  proof (cases "p = []")
    case True
    then show ?thesis using less.prems by (simp add: scan_lines.simps)
  next
    case False
    have i: "case ff_gain_line st (line_of p) of Inl t \<Rightarrow> 0 \<le> fst (snd t) \<and> fst (snd t) \<le> 100 | Inr t \<Rightarrow> 0 \<le> fst (snd t) \<and> fst (snd t) \<le> 100"
      by (rule ff_line_inv [OF less.prems])
    show ?thesis
    proof (cases "ff_gain_line st (line_of p)")
      case (Inl t)
      then show ?thesis using i False by (simp add: scan_lines.simps [of ff_gain_line st p])
    next
      case (Inr t)
      then show ?thesis using i False less.IH [OF length_after_line [OF False], of t] by (simp add: scan_lines.simps [of ff_gain_line st p])
    qed
  qed
qed

lemma ff_parse_gain_range: "0 \<le> snd (ff_parse_gain text) \<and> snd (ff_parse_gain text) \<le> 100
    \<and> (fst (ff_parse_gain text) \<noteq> 0 \<longrightarrow> snd (ff_parse_gain text) = 40)"
  using ff_scan_inv [of "(False, 40, False)" "case text of None \<Rightarrow> [] | Some t \<Rightarrow> t"]
  by (auto simp: ff_parse_gain_def Let_def split: sum.splits prod.splits)

text \<open>What the settings write is read back.\<close>

lemma ff_parse_gain_written:
  assumes "n \<le> 100"
  shows "ff_parse_gain (Some (''gain='' @ dec n @ [c_nl])) = (0, int n)"
proof -
  have "c_nl \<notin> set (''gain='' @ dec n)" using dec_digits [of c_nl n] by (auto simp: is_digit_def char_val_def)
  note l = line_of_append [OF this, of "[]"]
  have "length (dec n) \<le> 3" using assms length_dec [of n 3] by simp
  then have "ff_gain_line (False, 40, False) (''gain='' @ dec n) = Inr (True, int n, False)"
    using strtol10_dec_all [of n] assms dec_not_Nil [of n] by (auto simp: ff_gain_line_def)
  then show ?thesis using l by (simp add: ff_parse_gain_def scan_lines.simps)
qed

text \<open>
  Whatever the tool is asked and however the device answers, every effect it uploads is removed
  again, and a gain is sent only with a value of the curve; a restore always asks for a strength of 0 to 100,
  the default when the file is missing or wrong.
\<close>

theorem ff_tool_safe:
  "count_list (snd (ff_main io args)) FF_Upload = count_list (snd (ff_main io args)) FF_Remove
   \<and> (FF_Upload \<in> set (snd (ff_main io args)) \<longrightarrow> last (snd (ff_main io args)) = FF_Remove)
   \<and> (\<forall>v. FF_SetGain v \<in> set (snd (ff_main io args)) \<longrightarrow> (\<exists>p. 0 \<le> p \<and> p \<le> 100 \<and> v = ff_gain_value p))
   \<and> (ff_open_pad (fi_dir io) \<noteq> None \<and> args \<noteq> [] \<and> hd args = ''restore'' \<and> fi_gain_ok io \<longrightarrow> fst (ff_main io args) = 0)"
proof -
  have g: "0 \<le> p \<and> p \<le> 100" if "\<not> ff_gain_value p < 0" for p
  proof (rule ccontr)
    assume "\<not> (0 \<le> p \<and> p \<le> 100)"
    then have "ff_effective_gain_percent p = -1" by (auto simp: ff_effective_gain_percent_def)
    then show False using that by (simp add: ff_gain_value_def)
  qed
  have ok: "\<not> ff_gain_value p < 0" if "0 \<le> p" "p \<le> 100" for p
    using that effective_range [of p] by (cases "p = 0") (auto simp: ff_gain_value_def Let_def ff_effective_gain_percent_def [of 0])
  have r: "fst (do_restore True f)" for f
    using ok ff_parse_gain_range [of "Some (takeWhile (\<lambda>c. c \<noteq> CHR 0x00) (take 127 (the f)))"]
    by (cases f) (auto simp: do_restore_def set_gain_def Let_def split: prod.splits)
  have s: "snd (set_gain w p) = [] \<or> (\<exists>q. 0 \<le> q \<and> q \<le> 100 \<and> snd (set_gain w p) = [FF_SetGain (ff_gain_value q)])" for w p
    using g [of p] by (auto simp: set_gain_def Let_def)
  have sr: "snd (do_restore w f) = [] \<or> (\<exists>q. 0 \<le> q \<and> q \<le> 100 \<and> snd (do_restore w f) = [FF_SetGain (ff_gain_value q)])" for w f
    using s by (auto simp: do_restore_def split: option.splits prod.splits)
  obtain ok ops where m: "ff_main io args = (ok, ops)" by fastforce
  have "ops = [] \<or> (\<exists>q. 0 \<le> q \<and> q \<le> 100 \<and> ops = [FF_SetGain (ff_gain_value q)]) \<or> ops \<in> {[FF_Upload, FF_Remove], [FF_Upload, FF_Play, FF_Remove], [FF_Upload, FF_Play, FF_Stop, FF_Remove]}"
    using m s sr by (auto simp: ff_main_def do_test_def Let_def case_prod_beta split: option.splits if_splits)
  moreover have "ok = 0" if "ff_open_pad (fi_dir io) \<noteq> None" "args \<noteq> []" "hd args = ''restore''" "fi_gain_ok io"
    using m that r by (auto simp: ff_main_def Let_def case_prod_beta split: if_splits)
  ultimately show ?thesis using m by auto
qed

theorem ff_tool_safe_witness:
  "fst (ff_main \<lparr>fi_dir = Some [\<lparr>fe_name = ''event0'', fe_opens = True, fe_device = Some ''Miyoo Flip Gamepad'', fe_rumble = True, fe_gain = True\<rparr>],
      fi_file = None, fi_gain_ok = True, fi_upload_ok = True, fi_play_ok = True, fi_stop_ok = True\<rparr> [''restore'']) = 0"
  using ff_tool_safe [of "\<lparr>fi_dir = Some [\<lparr>fe_name = ''event0'', fe_opens = True, fe_device = Some ''Miyoo Flip Gamepad'', fe_rumble = True, fe_gain = True\<rparr>],
      fi_file = None, fi_gain_ok = True, fi_upload_ok = True, fi_play_ok = True, fi_stop_ok = True\<rparr>" "[''restore'']"]
  by (simp add: ff_open_pad_def is_pad_def)

end
