(* ===== verification/Jack_Daemon.thy ===== *)
theory Jack_Daemon
  imports C_Strings
begin

text \<open>
  The headphone daemon, \<^verbatim>\<open>system/zlyme-jackd/src/zlyme-jackd.c\<close>: finding the jack among the input devices,
  priming the audio route and following the switch. Devices, reads and mixer writes are inputs; the
  route the mixer was last set to is the state.
\<close>

section \<open>Model\<close>


text \<open>\<^verbatim>\<open>TEST_BIT\<close> on the switch bits; the headphone switch is number 2.\<close>

abbreviation (input) "SW_HEADPHONE_INSERT \<equiv> (2 :: nat)"
abbreviation (input) "EV_SW \<equiv> (5 :: nat)"




datatype mux = MUX_HP | MUX_SPK

definition set_route :: "bool \<Rightarrow> bool \<Rightarrow> mux option \<Rightarrow> bool \<times> mux option" where
  "set_route write_ok inserted m = (if write_ok then (True, Some (if inserted then MUX_HP else MUX_SPK)) else (False, m))"

text \<open>What a read of the jack brings; an event comes with the answer of the mixer write it may cause.\<close>

datatype jack_read = JR_Intr | JR_Fail | JR_Short | JR_Event nat nat int bool

fun jack_loop :: "jack_read list \<Rightarrow> mux option \<Rightarrow> mux option" where
  "jack_loop [] m = m"
| "jack_loop (JR_Intr # rs) m = jack_loop rs m"
| "jack_loop (JR_Fail # rs) m = m"
| "jack_loop (JR_Short # rs) m = m"
| "jack_loop (JR_Event ty code value ok # rs) m =
     jack_loop rs (if ty = EV_SW \<and> code = SW_HEADPHONE_INSERT then snd (set_route ok (value \<noteq> 0) m) else m)"



section \<open>The route follows the switch\<close>



definition route_of :: "bool \<Rightarrow> mux" where
  "route_of inserted = (if inserted then MUX_HP else MUX_SPK)"

lemma set_route_ok [simp]: "set_route True b m = (True, Some (route_of b))" "set_route False b m = (False, m)"
  by (simp_all add: set_route_def route_of_def)


text \<open>A failed write leaves the route, and the next report that is written sets it again.\<close>

lemma jack_loop_split: "list_all (\<lambda>r. r \<noteq> JR_Fail \<and> r \<noteq> JR_Short) as \<Longrightarrow> jack_loop (as @ bs) m = jack_loop bs (jack_loop as m)"
  by (induction as m rule: jack_loop.induct) auto



end
