(* ===== verification/Spec2Isabelle.thy ===== *)
theory Spec2Isabelle
  imports Gamepad_Device Calibration_Link Keylid_Props Hdmi_Main List_Nav List_Scroll List_Keyboard Scrape_Handoff Input_Props Prefs_File Pak_Spawn_Exit Pak_Hotkey_Run Systems_File Cheat_Download Cheat_Git_Props Daemon_Life Ff_Gain Jack_Daemon
begin

text \<open>
  Zlyme is a handheld firmware: a Linux image with its own kernel drivers, a set of small system
  programs, and the tools that run on top of the frontend. This development models the C code in
  which the firmware's own decisions are made, and proves what makes them correct.

  \<^bold>\<open>Parts and theories.\<close> Paths are relative to \<^verbatim>\<open>src/package\<close>.

  \<^item> Prelude. \<open>Zlyme_Prelude\<close> holds the list, option and word lemmas all parts use and the locale
    \<open>transition_system\<close> (a step function, a start, an invariant; what holds along every run). It
    is interpreted once for each of the stateful parts below. \<open>C_Strings\<close> models the C library
    functions the parsers use (line splitting, \<^verbatim>\<open>strtol\<close>, \<^verbatim>\<open>sscanf\<close> fields, decimal printing).
  \<^item> Gamepad driver, \<^verbatim>\<open>drivers/miyoo-flip-gamepad/src/miyoo-flip-gamepad.c\<close>. \<open>Gamepad_Math\<close>: median,
    scaling, radial deadzone, with the widths of the kernel's integers. \<open>Gamepad_Pad\<close>: the state of
    the pad (\<^verbatim>\<open>struct mf_pad\<close>, \<^verbatim>\<open>struct mf_axis\<close>), the frame decoder \<^verbatim>\<open>mf_feed\<close>, the boot-centre
    acquisition \<^verbatim>\<open>mf_boot_note\<close>, and the sysfs attributes. \<open>Gamepad_Inv\<close> and \<open>Gamepad_Props\<close>: the
    invariant of that state over every sequence of entry points, resynchronisation of the decoder,
    what a calibration write does. \<open>Gamepad_Device\<close>: buttons, rumble, probe, remove, suspend and
    resume.
  \<^item> Calibration library, \<^verbatim>\<open>system/nextui/zlyme/joystick-cal/cal_logic.c\<close>. \<open>Joystick_Cal\<close>: parsers,
    capture, printers, atomic replacement of the file. \<open>Calibration_Link\<close> composes it with the
    driver: what the tool writes is what the driver accepts, what the driver shows is what the
    tool reads.
  \<^item> Key and lid monitor, \<^verbatim>\<open>system/zlyme-keylidmon\<close>. \<open>Lid_Policy\<close>: the policy of \<^verbatim>\<open>lid_policy.h\<close>.
    \<open>Keylid_Monitor\<close>: the event loop of \<^verbatim>\<open>zlyme-keylidmon.c\<close>. \<open>Keylid_Props\<close>: its invariant, one
    suspend for each closing of the lid, the resume guard, silence while the frontend runs.
  \<^item> HDMI, \<^verbatim>\<open>system/zlyme-hdmi\<close>. \<open>Hdmi_Mode\<close>: mode choice and viewport of \<^verbatim>\<open>hdmi_mode.c\<close>.
    \<open>Hdmi_Main\<close>: the collection of connectors and the publication of \<^verbatim>\<open>zlyme-hdmi.c\<close>.
  \<^item> List helpers, \<^verbatim>\<open>system/minui-list/src/list_*.c\<close>. \<open>List_Nav\<close>: letter navigation and filter.
    \<open>List_Scroll\<close>: scrolling, image fitting, hints and roles. \<open>List_Keyboard\<close>: the cursor of the
    on-screen keyboard.
  \<^item> Scraper queue, \<^verbatim>\<open>system/zcrapegoat/src/src/queue.c\<close>. \<open>Scrape_Queue\<close>: the items and the
    operations, each a critical section. \<open>Scrape_Workers\<close>: the media workers, the cheat thread, the
    manager and the caller as threads with program points, interleaved one atomic access or
    critical section at a time (\<open>q_step\<close>). \<open>Scrape_Inv\<close>: an item in progress is held by at most one
    thread. \<open>Scrape_Props\<close>: that invariant over every run, the refinement of an abstract job board,
    the end of the manager after an interrupt, no duplicated work. \<open>Scrape_Handoff\<close>: the outcome of
    an item on each answer of the network, cancelling, and the handoff between two processes.
  \<^item> Scraper storage and catalogue, \<^verbatim>\<open>system/zcrapegoat/src/src\<close>. \<open>Scrape_Paths\<close>: the libraries, folder keys
    and system folders of \<^verbatim>\<open>zlyme_paths.c\<close>. \<open>Systems\<close>: JSON values and the loading of the catalogue of
    \<^verbatim>\<open>systems.c\<close>. \<open>Systems_Map\<close>: the override file, resolution, suggestions and the changes of a
    mapping. \<open>Systems_Props\<close> and \<open>Systems_Use\<close>: the invariant and the abstract mapping that the
    operations refine. \<open>Systems_File\<close>: whole runs, the restart on a saved file, failures,
    suggestions; a sample catalogue shows that the assumption on the JSON library can hold.
  \<^item> Scraper cheats, \<^verbatim>\<open>system/zcrapegoat/src/src/cheats.c\<close>. \<open>Cheat_Names\<close>: normalised titles, alternate titles
    and regions. \<open>Cheat_List\<close>: the index of cheat files, the match of a ROM, the copy and the
    descriptions. \<open>Cheat_Git\<close>: the Git binary, its environment and the reading of its output.
    \<open>Cheat_Repo\<close>: the lock, clone, update and checkout, and the download, which asks \<open>Systems_Map\<close> for the
    platform. \<open>Cheat_Props\<close>: normal forms and the match. \<open>Cheat_Git_Props\<close>: the binary and its environment.
    \<open>Cheat_Repo_Props\<close>: the lock and the lines of the output. \<open>Cheat_Download\<close>: what a download counts and
    which files it touches.
  \<^item> Scraper daemon, \<^verbatim>\<open>system/zcrapegoat/src/src/daemon.c\<close>. \<open>Daemon_Queue\<close>: the queue file. \<open>Daemon_Main\<close>: the files,
    the commands, launch, start, poll loop and end; the queue is that of \<open>Scrape_Queue\<close>. \<open>Daemon_Props\<close>: what a
    daemon leaves behind and when it ends. \<open>Daemon_Life\<close>: at most one daemon, and the parts of \<^verbatim>\<open>ui.c\<close> that hand
    the queue to a daemon and take it back.
  \<^item> Input manager, \<^verbatim>\<open>system/zlyme-input\<close>. \<open>Input_Manager\<close>: the player order of \<^verbatim>\<open>order.c\<close>, the
    predicates of \<^verbatim>\<open>lifecycle.c\<close> and the commands and daemon of \<^verbatim>\<open>zlyme-input.c\<close>, over a parameter
    that stands for the InputPlumber service. \<open>Input_Props\<close>: the order it establishes, the end of
    its waits, and the takeover of the service after each restart; a sample service shows that
    the assumptions can hold.
  \<^item> Small programs. \<open>Ff_Gain\<close>: the rumble gain and its tool, \<^verbatim>\<open>system/nextui/zlyme/gamepad-ff\<close>. \<open>Jack_Daemon\<close>: the
    headphone switch, \<^verbatim>\<open>system/zlyme-jackd/src/zlyme-jackd.c\<close>.
  \<^item> Launch preferences, \<^verbatim>\<open>system/nextui/zlyme/zlyme_prefs.c\<close>. \<open>Prefs\<close>: the table, the file format, the
    cache with its stamp, the lock and the atomic write, get, set, clear and lookup. \<open>Prefs_Props\<close>:
    the locale \<open>setting_table\<close> (what is stored is found, what is cleared is gone) and its
    interpretation on the rows. \<open>Prefs_File\<close>: the round trip through the file, what a set shows to
    other processes, the safety of the file, and the fallback of a lookup.
  \<^item> Pak supervisor, \<^verbatim>\<open>system/nextui/zlyme/zlyme-pak-spawn.c\<close>. \<open>Pak_Spawn\<close>: process identities, the scan
    of the session, verified signals and the main program, over a parameter that answers each
    system call by its number, so that processes may come and go at any moment. \<open>Pak_Spawn_Props\<close>:
    whom it signals. \<open>Pak_Spawn_Exit\<close>: what its exit code means.
  \<^item> Pak hotkey helper, \<^verbatim>\<open>system/nextui/zlyme/zlyme-pak-hotkey.c\<close> and \<^verbatim>\<open>hotkey_logic.h\<close>. \<open>Pak_Hotkey\<close>: the
    chord, the watched controllers, the verification of the supervisor and the poll loop.
    \<open>Pak_Hotkey_Props\<close>: one controller and one round. \<open>Pak_Hotkey_Run\<close>: whole runs (the chord belongs
    to one controller), and the round trip of the published identity from the supervisor.

  \<^bold>\<open>Conventions.\<close> A struct is a record and an enum a datatype with the source's names (suffixed
  where HOL has the name already). Results of system calls, of the kernel's services and of the
  network are arguments or come with the events, so that a theorem holds for every answer.
  Fixed-width integers are words, or integers with a proof that the value stays in the width. A
  failing call is a value (an option, a sum, a branch of a result record). Strings are character
  lists without the terminating zero; a buffer of \<open>n\<close> bytes keeps \<open>n - 1\<close> characters.

  \<^bold>\<open>Bounds.\<close> All functions are total. Loops are structural recursions over the bytes, lines,
  modes, pads or items they walk, so no fuel is needed. The polling loop of the input manager is a
  partial function, \<open>None\<close> when it does not end; \<open>input_commands_return\<close> proves that it ends while the
  clock advances. The scraper's manager is a step relation; \<open>scrape_stop_terminates\<close> bounds the rounds it needs to end once it is
  interrupted by a rank of the program points (nine for a thread, 2055 for the manager: at most
  2048 items to mark and a fixed number of points).

  \<^bold>\<open>Not modelled.\<close> Drawing and event loops of the graphical tools (\<^verbatim>\<open>minui-list.c\<close>,
  \<^verbatim>\<open>minui-presenter.c\<close>, the scraper's \<^verbatim>\<open>ui.c\<close>, \<^verbatim>\<open>show.c\<close>, \<^verbatim>\<open>splash.c\<close>), which are calls to SDL or a
  framebuffer; the scraper's network and device code (\<^verbatim>\<open>screenscraper.c\<close>,
  \<^verbatim>\<open>device.c\<close>), whose answers are inputs of the queue; the
  other drivers, which program registers; memory exhaustion (\<^verbatim>\<open>malloc\<close> is taken to succeed); and
  the vendored libraries (parson, cJSON, miniz, stb, md5, the apostrophe headers).
\<close>

end
